theory Spec2Isabelle
  imports Complex_Main "HOL-Library.Log_Nat"
begin

section \<open>Data model of libhpf.c\<close>

text \<open>
  The C types are embedded as follows. An \<open>unsigned int\<close> is a \<open>nat\<close> (with the
  wrap-around modulo \<open>2 ^ 32\<close> written out where the source subtracts), an \<open>int\<close> is an
  \<open>int\<close>. A pointer into an array is the index of the element it points to, and a pointer
  that may be \<open>NULL\<close> is a \<open>nat option\<close>. An array is a list; the count that the source
  keeps beside an array is kept as a field of its own.
\<close>

subsection \<open>The type double\<close>

text \<open>
  A finite \<open>double\<close> is the real number it denotes. Comparisons, negation and \<open>dabs\<close> are
  exact. Every addition, subtraction, multiplication and division of the source is the
  exact operation followed by \<open>roundDouble\<close>, the rounding of IEEE 754 binary64: to the
  nearest number with a significand of 53 bits, a tie going to the even significand, with
  gradual underflow below \<open>2 ^ - 1022\<close>. Each operation is rounded on its own (no fused
  multiply-add). The two zeros are one value. The infinities and NaN are not values of the
  model: a result beyond the largest finite double is kept as the rounded real number, so
  the model follows the source on the runs in which no operation overflows.

  \<open>roundEven\<close> rounds to the nearest integer, a tie going to the even one; \<open>binade x\<close> is
  the exponent \<open>e\<close> with \<open>2 ^ e \<le> |x| < 2 ^ (e + 1)\<close>; \<open>quantum x\<close> is the distance between
  neighbouring doubles around \<open>x\<close>.
\<close>

definition roundEven :: "real \<Rightarrow> int" where
  "roundEven y = (let f = \<lfloor>y\<rfloor>; r = y - of_int f in
                  if r < 1 / 2 then f else if 1 / 2 < r then f + 1
                  else if even f then f else f + 1)"

definition binade :: "real \<Rightarrow> int" where
  "binade x = (if 1 \<le> \<bar>x\<bar> then int (floorlog 2 (nat \<lfloor>\<bar>x\<bar>\<rfloor>)) - 1
               else - int (floorlog 2 (nat (\<lceil>1 / \<bar>x\<bar>\<rceil> - 1))))"

definition quantum :: "real \<Rightarrow> real" where
  "quantum x = 2 powi (max (binade x) (- 1022) - 52)"

definition roundDouble :: "real \<Rightarrow> real" where
  "roundDouble x = (if x = 0 then 0 else of_int (roundEven (x / quantum x)) * quantum x)"

definition dadd :: "real \<Rightarrow> real \<Rightarrow> real" where
  "dadd x y = roundDouble (x + y)"

definition dsub :: "real \<Rightarrow> real \<Rightarrow> real" where
  "dsub x y = roundDouble (x - y)"

definition dmul :: "real \<Rightarrow> real \<Rightarrow> real" where
  "dmul x y = roundDouble (x * y)"

definition ddiv :: "real \<Rightarrow> real \<Rightarrow> real" where
  "ddiv x y = roundDouble (x / y)"

text \<open>\<open>static double TOL = 1E-8\<close>: the double nearest to \<open>1 / 10 ^ 8\<close>.\<close>

definition TOL :: real where
  "TOL = 3022314549036573 / 2 ^ 78"

record Arc =
  arcFrom :: "nat option"
  arcTo :: "nat option"
  flow :: real
  capacity :: real
  arcConstant :: real
  multiplier :: real
  direction :: nat

record Node =
  visited :: nat
  numAdjacent :: nat
  number :: nat
  originalIndex :: int
  label :: nat
  excess :: real
  parent :: "nat option"
  childList :: "nat option"
  nextScan :: "nat option"
  numOutOfTree :: nat
  outOfTree :: "nat list"
  nextArc :: nat
  arcToParent :: "nat option"
  nextNode :: "nat option"

record CutProblem =
  numNodesInList :: nat
  numSourceSet :: nat
  numSinkSet :: nat
  numArcsP :: nat
  solved :: nat
  lambdaValue :: real
  arcListP :: "Arc list"
  nodeList :: "Node list"
  cutValue :: real
  cutMultiplier :: real
  cutConstant :: real
  sourceSet :: "Node list"
  sinkSet :: "Node list"
  optimalSourceSetIndicator :: "nat list"

record Root =
  rstart :: "nat option"
  rend :: "nat option"

record Breakpoint =
  bpLambdaValue :: real
  sourceSetIndicator :: "nat list"

text \<open>
  Every failure of the library ends the process: a diagnostic is printed and \<open>exit(0)\<close> is
  called. The read of \<open>firstBreakpoint->next\<close> through a null list head has no defined
  behaviour in C; the model makes it a failure of its own.
\<close>

datatype error =
    NegativeCapacity real
  | NullDereference

definition dabs :: "real \<Rightarrow> real" where
  "dabs v = (if v \<ge> 0 then v else - v)"

definition isExcess :: "real \<Rightarrow> int" where
  "isExcess e = (if e < 0 then - 1 else if e > 0 then 1 else 0)"

definition initializeArc :: Arc where
  "initializeArc = \<lparr> arcFrom = None, arcTo = None, flow = 0, capacity = 0,
     arcConstant = 0, multiplier = 0, direction = 1 \<rparr>"

definition initializeNode :: "nat \<Rightarrow> Node" where
  "initializeNode n = \<lparr> visited = 0, numAdjacent = 0, number = n, originalIndex = - 10,
     label = 0, excess = 0, parent = None, childList = None, nextScan = None,
     numOutOfTree = 0, outOfTree = [], nextArc = 0, arcToParent = None, nextNode = None \<rparr>"

subsection \<open>evaluateCapacities\<close>

text \<open>
  The loop of \<open>evaluateCapacities\<close> over \<open>problem->arcList\<close>, in index order. The first arc
  whose value is negative, with the rounding flag different from 1 and the value not above
  \<open>- TOL\<close>, ends the process.
\<close>

fun evaluateArcs :: "nat \<Rightarrow> real \<Rightarrow> Arc list \<Rightarrow> error + Arc list" where
  "evaluateArcs rnd lam [] = Inr []"
| "evaluateArcs rnd lam (a # as) =
     (let c = dadd (arcConstant a) (dmul (multiplier a) lam) in
      if c < 0 then
        (if rnd = 1 \<or> c > - TOL then
           (case evaluateArcs rnd lam as of
              Inl e \<Rightarrow> Inl e
            | Inr as' \<Rightarrow> Inr (a\<lparr>capacity := 0\<rparr> # as'))
         else Inl (NegativeCapacity lam))
      else
        (case evaluateArcs rnd lam as of
           Inl e \<Rightarrow> Inl e
         | Inr as' \<Rightarrow> Inr (a\<lparr>capacity := c\<rparr> # as')))"

definition evaluateCapacities :: "nat \<Rightarrow> CutProblem \<Rightarrow> error + CutProblem" where
  "evaluateCapacities rnd problem =
     (case evaluateArcs rnd (lambdaValue problem) (take (numArcsP problem) (arcListP problem)) of
        Inl e \<Rightarrow> Inl e
      | Inr as' \<Rightarrow> Inr (problem\<lparr>arcListP := as' @ drop (numArcsP problem) (arcListP problem)\<rparr>))"

subsection \<open>The breakpoint list\<close>

text \<open>
  The singly linked list from \<open>firstBreakpoint\<close> to \<open>lastBreakpoint\<close> is the list of its
  records in link order. \<open>addBreakpoint\<close> copies the first \<open>numNodesSuper\<close> cells of the
  indicator and links the new record behind the last one.
\<close>

definition addBreakpoint :: "nat \<Rightarrow> real \<Rightarrow> nat list \<Rightarrow> Breakpoint list \<Rightarrow> Breakpoint list" where
  "addBreakpoint nSuper lam ind bps =
     bps @ [\<lparr> bpLambdaValue = lam, sourceSetIndicator = take nSuper ind \<rparr>]"

text \<open>
  The loop of \<open>removeDuplicateBreakpoints\<close>, on the list that starts at \<open>currentBreakpoint\<close>.
  After a record is unlinked, \<open>currentBreakpoint\<close> moves to the record behind the unlinked
  one, which is not compared with the record that was kept.
\<close>

fun dedupLoop :: "Breakpoint list \<Rightarrow> Breakpoint list" where
  "dedupLoop [] = []"
| "dedupLoop [c] = [c]"
| "dedupLoop (c # n # rest) =
     (if bpLambdaValue c = bpLambdaValue n then c # dedupLoop rest
      else c # dedupLoop (n # rest))"

definition removeDuplicateBreakpoints :: "Breakpoint list \<Rightarrow> error + Breakpoint list" where
  "removeDuplicateBreakpoints bps =
     (case bps of [] \<Rightarrow> Inl NullDereference | _ \<Rightarrow> Inr (dedupLoop bps))"

subsection \<open>Building a CutProblem\<close>

text \<open>
  The cells of a freshly allocated array hold no defined value in C. The model fills them
  with a fixed value; for the inputs the theorems below speak about every cell is written
  before it is read.
\<close>

definition mallocNodes :: "nat \<Rightarrow> Node list" where
  "mallocNodes n = replicate n (initializeNode 0)"

definition mallocArcs :: "nat \<Rightarrow> Arc list" where
  "mallocArcs n = replicate n initializeArc"

definition mallocUint :: "nat \<Rightarrow> nat list" where
  "mallocUint n = replicate n 0"

definition uint_of_int :: "int \<Rightarrow> nat" where
  "uint_of_int i = nat (i mod 2 ^ 32)"

definition incAdjacent :: "nat \<Rightarrow> Node list \<Rightarrow> Node list" where
  "incAdjacent i nodes = nodes[i := (nodes ! i)\<lparr>numAdjacent := numAdjacent (nodes ! i) + 1\<rparr>]"

text \<open>
  \<open>copyArcNew\<close>: the endpoints of the old arc are nodes of the old node list; their
  \<open>number\<close> is looked up in \<open>nodeMap\<close> and the new arc points into the new node list,
  whose two end nodes gain one adjacent arc each.
\<close>

definition copyArcNew :: "Node list \<Rightarrow> nat list \<Rightarrow> Arc \<Rightarrow> Node list \<Rightarrow> Arc \<times> Node list" where
  "copyArcNew oldNodes nodeMap old nodes =
     (let newIndexFrom = nodeMap ! number (oldNodes ! the (arcFrom old));
          newIndexTo = nodeMap ! number (oldNodes ! the (arcTo old));
          new = initializeArc\<lparr> arcConstant := arcConstant old, multiplier := multiplier old,
                  arcFrom := Some newIndexFrom, arcTo := Some newIndexTo \<rparr>
      in (new, incAdjacent newIndexTo (incAdjacent newIndexFrom nodes)))"

definition copyArcAdd :: "Arc \<Rightarrow> Arc \<Rightarrow> Arc" where
  "copyArcAdd old new = new\<lparr> arcConstant := dadd (arcConstant new) (arcConstant old),
                              multiplier := dadd (multiplier new) (multiplier old) \<rparr>"

text \<open>
  \<open>initializeProblem\<close>. The node loop keeps \<open>(nodeMap, nodeList, sourceSet, sinkSet,
  currentNode)\<close>; \<open>source\<close> and \<open>sink\<close> are the globals of that name.
\<close>

definition initNodeStep ::
  "nat \<Rightarrow> nat \<Rightarrow> Node list \<Rightarrow> nat \<Rightarrow> nat list \<times> Node list \<times> Node list \<times> Node list \<times> nat
     \<Rightarrow> nat list \<times> Node list \<times> Node list \<times> Node list \<times> nat" where
  "initNodeStep src snk nodeListProblem i st =
     (case st of (nodeMap, nl, ss, ks, currentNode) \<Rightarrow>
        if i = src then
          (nodeMap[i := 0],
           nl[0 := (initializeNode 0)\<lparr>originalIndex := - 1\<rparr>],
           ss[0 := (initializeNode 0)\<lparr>originalIndex := originalIndex (nodeListProblem ! i)\<rparr>],
           ks, currentNode)
        else if i = snk then
          (nodeMap[i := 1],
           nl[1 := (initializeNode 1)\<lparr>originalIndex := - 2\<rparr>],
           ss,
           ks[0 := (initializeNode 0)\<lparr>originalIndex := originalIndex (nodeListProblem ! i)\<rparr>],
           currentNode)
        else
          (nodeMap[i := currentNode],
           nl[currentNode := (initializeNode currentNode)
                \<lparr>originalIndex := originalIndex (nodeListProblem ! i)\<rparr>],
           ss, ks, currentNode + 1))"

definition copyArcsStep ::
  "Node list \<Rightarrow> nat list \<Rightarrow> Arc list \<Rightarrow> nat \<Rightarrow> Arc list \<times> Node list \<Rightarrow> Arc list \<times> Node list" where
  "copyArcsStep oldNodes nodeMap oldArcs i st =
     (case st of (al, nl) \<Rightarrow>
        (case copyArcNew oldNodes nodeMap (oldArcs ! i) nl of (new, nl') \<Rightarrow> (al[i := new], nl')))"

definition initializeProblem ::
  "nat \<Rightarrow> nat \<Rightarrow> nat \<Rightarrow> Node list \<Rightarrow> nat \<Rightarrow> Arc list \<Rightarrow> nat \<Rightarrow> real \<Rightarrow> error + CutProblem" where
  "initializeProblem rnd src snk nodeListProblem numNodesProblem arcListProblem numArcsProblem lam =
     (case fold (initNodeStep src snk nodeListProblem) [0..<numNodesProblem]
             (mallocUint numNodesProblem, mallocNodes numNodesProblem,
              mallocNodes 1, mallocNodes 1, 2) of
        (nodeMap, nl, ss, ks, currentNode) \<Rightarrow>
          (case fold (copyArcsStep nodeListProblem nodeMap arcListProblem) [0..<numArcsProblem]
                  (mallocArcs numArcsProblem, nl) of
             (al, nl') \<Rightarrow>
               evaluateCapacities rnd
                 \<lparr> numNodesInList = numNodesProblem, numSourceSet = 1, numSinkSet = 1,
                   numArcsP = numArcsProblem, solved = 0, lambdaValue = lam,
                   arcListP = al, nodeList = nl',
                   cutValue = 0, cutMultiplier = 0, cutConstant = 0,
                   sourceSet = ss, sinkSet = ks, optimalSourceSetIndicator = [] \<rparr>))"

text \<open>
  \<open>contractProblem\<close>. The first loop counts the nodes that leave the node list, the
  second fills the three node arrays, the third and fourth count and copy the arcs.
\<close>

definition countStep :: "Node list \<Rightarrow> nat list \<Rightarrow> nat list \<Rightarrow> nat \<Rightarrow> nat \<times> nat \<times> nat \<Rightarrow> nat \<times> nat \<times> nat" where
  "countStep oldNodes lowInd highInd i st =
     (case st of (nSource, nSink, nNodes) \<Rightarrow>
        let oi = uint_of_int (originalIndex (oldNodes ! i)) in
        if lowInd ! oi = 1 then (nSource + 1, nSink, nNodes - 1)
        else if highInd ! oi = 0 then (nSource, nSink + 1, nNodes - 1)
        else (nSource, nSink, nNodes))"

definition copySetStep :: "Node list \<Rightarrow> nat \<Rightarrow> Node list \<Rightarrow> Node list" where
  "copySetStep oldSet i newSet =
     newSet[i := (initializeNode i)\<lparr>originalIndex := originalIndex (oldSet ! i)\<rparr>]"

definition contractNodeStep ::
  "Node list \<Rightarrow> nat list \<Rightarrow> nat list \<Rightarrow> nat
     \<Rightarrow> nat list \<times> Node list \<times> Node list \<times> Node list \<times> nat \<times> nat \<times> nat
     \<Rightarrow> nat list \<times> Node list \<times> Node list \<times> Node list \<times> nat \<times> nat \<times> nat" where
  "contractNodeStep oldNodes lowInd highInd i st =
     (case st of (nodeMap, nl, ss, ks, currentNodeInList, currentSourceSet, currentSinkSet) \<Rightarrow>
        let oi = uint_of_int (originalIndex (oldNodes ! i)) in
        if lowInd ! oi = 1 then
          (nodeMap[i := 0], nl,
           ss[currentSourceSet := (initializeNode currentSourceSet)
                \<lparr>originalIndex := originalIndex (oldNodes ! i)\<rparr>],
           ks, currentNodeInList, currentSourceSet + 1, currentSinkSet)
        else if highInd ! oi = 0 then
          (nodeMap[i := 1], nl, ss,
           ks[currentSinkSet := (initializeNode currentSinkSet)
                \<lparr>originalIndex := originalIndex (oldNodes ! i)\<rparr>],
           currentNodeInList, currentSourceSet, currentSinkSet + 1)
        else
          (nodeMap[i := currentNodeInList],
           nl[currentNodeInList := (initializeNode currentNodeInList)
                \<lparr>originalIndex := originalIndex (oldNodes ! i)\<rparr>],
           ss, ks, currentNodeInList + 1, currentSourceSet, currentSinkSet))"

definition countArcStep ::
  "Node list \<Rightarrow> nat list \<Rightarrow> Arc list \<Rightarrow> nat \<Rightarrow> int list \<times> int list \<times> nat \<Rightarrow> int list \<times> int list \<times> nat" where
  "countArcStep oldNodes nodeMap oldArcs i st =
     (case st of (sourceAdjacentArcIndices, sinkAdjacentArcIndices, currentArc) \<Rightarrow>
        let newIndexFrom = nodeMap ! number (oldNodes ! the (arcFrom (oldArcs ! i)));
            newIndexTo = nodeMap ! number (oldNodes ! the (arcTo (oldArcs ! i))) in
        if newIndexFrom = newIndexTo \<or> newIndexTo = 0 \<or> newIndexFrom = 1 then st
        else if newIndexFrom = 0 then
          (if sourceAdjacentArcIndices ! newIndexTo = - 1
           then (sourceAdjacentArcIndices[newIndexTo := int currentArc],
                 sinkAdjacentArcIndices, currentArc + 1)
           else st)
        else if newIndexTo = 1 then
          (if sinkAdjacentArcIndices ! newIndexFrom = - 1
           then (sourceAdjacentArcIndices,
                 sinkAdjacentArcIndices[newIndexFrom := int currentArc], currentArc + 1)
           else st)
        else (sourceAdjacentArcIndices, sinkAdjacentArcIndices, currentArc + 1))"

definition contractArcStep ::
  "Node list \<Rightarrow> nat list \<Rightarrow> Arc list \<Rightarrow> int list \<Rightarrow> int list \<Rightarrow> nat
     \<Rightarrow> Arc list \<times> Node list \<times> nat \<Rightarrow> Arc list \<times> Node list \<times> nat" where
  "contractArcStep oldNodes nodeMap oldArcs sourceAdjacentArcIndices sinkAdjacentArcIndices i st =
     (case st of (al, nl, currentArc) \<Rightarrow>
        let newIndexFrom = nodeMap ! number (oldNodes ! the (arcFrom (oldArcs ! i)));
            newIndexTo = nodeMap ! number (oldNodes ! the (arcTo (oldArcs ! i))) in
        if newIndexFrom = newIndexTo \<or> newIndexTo = 0 \<or> newIndexFrom = 1 then st
        else if newIndexFrom = 0 then
          (if uint_of_int (sourceAdjacentArcIndices ! newIndexTo) = currentArc
           then (case copyArcNew oldNodes nodeMap (oldArcs ! i) nl of
                   (new, nl') \<Rightarrow> (al[currentArc := new], nl', currentArc + 1))
           else (let k = uint_of_int (sourceAdjacentArcIndices ! newIndexTo)
                 in (al[k := copyArcAdd (oldArcs ! i) (al ! k)], nl, currentArc)))
        else if newIndexTo = 1 then
          (if uint_of_int (sinkAdjacentArcIndices ! newIndexFrom) = currentArc
           then (case copyArcNew oldNodes nodeMap (oldArcs ! i) nl of
                   (new, nl') \<Rightarrow> (al[currentArc := new], nl', currentArc + 1))
           else (let k = uint_of_int (sinkAdjacentArcIndices ! newIndexFrom)
                 in (al[k := copyArcAdd (oldArcs ! i) (al ! k)], nl, currentArc)))
        else
          (case copyArcNew oldNodes nodeMap (oldArcs ! i) nl of
             (new, nl') \<Rightarrow> (al[currentArc := new], nl', currentArc + 1)))"

definition contractProblem ::
  "nat \<Rightarrow> CutProblem \<Rightarrow> real \<Rightarrow> nat list \<Rightarrow> nat list \<Rightarrow> error + CutProblem" where
  "contractProblem rnd oldProblem lam lowSourceSetIndicator highSourceSetIndicator =
     (case fold (countStep (nodeList oldProblem) lowSourceSetIndicator highSourceSetIndicator)
             [2..<numNodesInList oldProblem]
             (numSourceSet oldProblem, numSinkSet oldProblem, numNodesInList oldProblem) of
        (nSource, nSink, nNodes) \<Rightarrow>
     (let ss0 = fold (copySetStep (sourceSet oldProblem)) [0..<numSourceSet oldProblem]
                  (mallocNodes nSource);
          ks0 = fold (copySetStep (sinkSet oldProblem)) [0..<numSinkSet oldProblem]
                  (mallocNodes nSink);
          nl0 = (mallocNodes nNodes)
                  [0 := (initializeNode 0)\<lparr>originalIndex := - 1\<rparr>,
                   1 := (initializeNode 1)\<lparr>originalIndex := - 2\<rparr>];
          nodeMap0 = (mallocUint (numNodesInList oldProblem))[0 := 0, 1 := 1]
      in
      case fold (contractNodeStep (nodeList oldProblem) lowSourceSetIndicator highSourceSetIndicator)
             [2..<numNodesInList oldProblem]
             (nodeMap0, nl0, ss0, ks0, 2, numSourceSet oldProblem, numSinkSet oldProblem) of
        (nodeMap, nl, ss, ks, currentNodeInList, currentSourceSet, currentSinkSet) \<Rightarrow>
      (case fold (countArcStep (nodeList oldProblem) nodeMap (arcListP oldProblem))
              [0..<numArcsP oldProblem]
              (replicate nNodes (- 1), replicate nNodes (- 1), 0) of
         (sourceAdjacentArcIndices, sinkAdjacentArcIndices, nArcs) \<Rightarrow>
      (case fold (contractArcStep (nodeList oldProblem) nodeMap (arcListP oldProblem)
                    sourceAdjacentArcIndices sinkAdjacentArcIndices)
              [0..<numArcsP oldProblem] (mallocArcs nArcs, nl, 0) of
         (al, nl', currentArc) \<Rightarrow>
           evaluateCapacities rnd
             \<lparr> numNodesInList = nNodes, numSourceSet = nSource, numSinkSet = nSink,
               numArcsP = nArcs, solved = 0, lambdaValue = lam,
               arcListP = al, nodeList = nl',
               cutValue = 0, cutMultiplier = 0, cutConstant = 0,
               sourceSet = ss, sinkSet = ks, optimalSourceSetIndicator = [] \<rparr>))))"

subsection \<open>The per-solve state of the pseudoflow engine\<close>

text \<open>
  The globals that the engine works on. \<open>nodesList\<close> points at the node array of the
  problem being solved and \<open>arcList\<close> at its arc array (or at a reversed copy), so the
  model copies both in when a solve starts and back when it ends.
\<close>

record Engine =
  numNodes :: nat
  numArcs :: nat
  source :: nat
  sink :: nat
  highestStrongLabel :: nat
  numArcScans :: nat
  numPushes :: nat
  numMergers :: nat
  numRelabels :: nat
  numGaps :: nat
  nodesList :: "Node list"
  strongRoots :: "Root list"
  labelCount :: "nat list"
  arcList :: "Arc list"

definition uadd :: "nat \<Rightarrow> nat \<Rightarrow> nat" where
  "uadd a b = (a + b) mod 2 ^ 32"

definition usub :: "nat \<Rightarrow> nat \<Rightarrow> nat" where
  "usub a b = nat ((int a - int b) mod 2 ^ 32)"

definition createOutOfTree :: "Node \<Rightarrow> Node" where
  "createOutOfTree nd =
     (if numAdjacent nd \<noteq> 0 then nd\<lparr>outOfTree := replicate (numAdjacent nd) 0\<rparr> else nd)"

definition addOutOfTreeNode :: "nat \<Rightarrow> nat \<Rightarrow> Node list \<Rightarrow> Node list" where
  "addOutOfTreeNode n out nl =
     nl[n := (nl ! n)\<lparr> outOfTree := (outOfTree (nl ! n))[numOutOfTree (nl ! n) := out],
                       numOutOfTree := numOutOfTree (nl ! n) + 1 \<rparr>]"

definition placeArcStep :: "nat \<Rightarrow> nat \<Rightarrow> nat \<Rightarrow> Arc list \<times> Node list \<Rightarrow> Arc list \<times> Node list" where
  "placeArcStep src snk i st =
     (case st of (al, nl) \<Rightarrow>
        let to = number (nl ! the (arcTo (al ! i)));
            from = number (nl ! the (arcFrom (al ! i)));
            cap = capacity (al ! i) in
        if \<not> (src = to \<or> snk = from \<or> from = to) then
          (if src = from \<and> to = snk then (al[i := (al ! i)\<lparr>flow := cap\<rparr>], nl)
           else if to = snk then (al, addOutOfTreeNode to i nl)
           else (al, addOutOfTreeNode from i nl))
        else st)"

definition createMemoryStructures :: "Engine \<Rightarrow> Engine" where
  "createMemoryStructures e =
     (case fold (placeArcStep (source e) (sink e)) [0..<numArcs e]
             (arcList e,
              map createOutOfTree (take (numNodes e) (nodesList e)) @ drop (numNodes e) (nodesList e)) of
        (al, nl) \<Rightarrow>
          e\<lparr> arcList := al, nodesList := nl,
             strongRoots := replicate (numNodes e) \<lparr> rstart = None, rend = None \<rparr>,
             labelCount := replicate (numNodes e) 0 \<rparr>)"

definition addToStrongBucket :: "nat \<Rightarrow> nat \<Rightarrow> Node list \<times> Root list \<Rightarrow> Node list \<times> Root list" where
  "addToStrongBucket newRoot b st =
     (case st of (nl, sr) \<Rightarrow>
        (case rstart (sr ! b) of
           Some s \<Rightarrow>
             (let e = the (rend (sr ! b));
                  nl1 = nl[e := (nl ! e)\<lparr>nextNode := Some newRoot\<rparr>];
                  nl2 = nl1[newRoot := (nl1 ! newRoot)\<lparr>nextNode := None\<rparr>]
              in (nl2, sr[b := (sr ! b)\<lparr>rend := Some newRoot\<rparr>]))
         | None \<Rightarrow>
             (nl[newRoot := (nl ! newRoot)\<lparr>nextNode := None\<rparr>],
              sr[b := (sr ! b)\<lparr>rstart := Some newRoot, rend := Some newRoot\<rparr>])))"

definition saturateSourceStep :: "nat \<Rightarrow> nat \<Rightarrow> Arc list \<times> Node list \<Rightarrow> Arc list \<times> Node list" where
  "saturateSourceStep src i st =
     (case st of (al, nl) \<Rightarrow>
        let k = outOfTree (nl ! src) ! i;
            cap = capacity (al ! k);
            t = the (arcTo (al ! k)) in
        (al[k := (al ! k)\<lparr>flow := cap\<rparr>], nl[t := (nl ! t)\<lparr>excess := dadd (excess (nl ! t)) cap\<rparr>]))"

definition saturateSinkStep :: "nat \<Rightarrow> nat \<Rightarrow> Arc list \<times> Node list \<Rightarrow> Arc list \<times> Node list" where
  "saturateSinkStep snk i st =
     (case st of (al, nl) \<Rightarrow>
        let k = outOfTree (nl ! snk) ! i;
            cap = capacity (al ! k);
            f = the (arcFrom (al ! k)) in
        (al[k := (al ! k)\<lparr>flow := cap\<rparr>], nl[f := (nl ! f)\<lparr>excess := dsub (excess (nl ! f)) cap\<rparr>]))"

definition labelStep :: "nat \<Rightarrow> Node list \<times> Root list \<times> nat list \<Rightarrow> Node list \<times> Root list \<times> nat list" where
  "labelStep i st =
     (case st of (nl, sr, lc) \<Rightarrow>
        if isExcess (excess (nl ! i)) > 0 then
          (case addToStrongBucket i 1 (nl[i := (nl ! i)\<lparr>label := 1\<rparr>], sr) of
             (nl', sr') \<Rightarrow> (nl', sr', lc[1 := uadd (lc ! 1) 1]))
        else st)"

definition simpleInitialization :: "Engine \<Rightarrow> Engine" where
  "simpleInitialization e =
     (case fold (saturateSourceStep (source e)) [0..<numOutOfTree (nodesList e ! source e)]
             (arcList e, nodesList e) of
        (al1, nl1) \<Rightarrow>
     (case fold (saturateSinkStep (sink e)) [0..<numOutOfTree (nl1 ! sink e)] (al1, nl1) of
        (al2, nl2) \<Rightarrow>
     (let nl3 = nl2[source e := (nl2 ! source e)\<lparr>excess := 0\<rparr>];
          nl4 = nl3[sink e := (nl3 ! sink e)\<lparr>excess := 0\<rparr>]
      in
      case fold labelStep [0..<numNodes e] (nl4, strongRoots e, labelCount e) of
        (nl5, sr, lc) \<Rightarrow>
          (let nl6 = nl5[source e := (nl5 ! source e)\<lparr>label := numNodes e\<rparr>];
               nl7 = nl6[sink e := (nl6 ! sink e)\<lparr>label := 0\<rparr>]
           in e\<lparr> arcList := al2, nodesList := nl7, strongRoots := sr,
                  labelCount := lc[0 := usub (usub (numNodes e) 2) (lc ! 1)] \<rparr>))))"

definition freeMemorySolve :: "Engine \<Rightarrow> Engine" where
  "freeMemorySolve e =
     e\<lparr> strongRoots := [], labelCount := [],
        nodesList := map (\<lambda>nd. nd\<lparr>outOfTree := []\<rparr>) (take (numNodes e) (nodesList e))
                       @ drop (numNodes e) (nodesList e) \<rparr>"

subsection \<open>Phase 1 of the pseudoflow engine\<close>

text \<open>
  The main loop of the engine and the functions below it. They work on the globals through
  pointers; the model reads and writes the node and arc arrays of the engine state by
  index. The loops that follow pointers (along a child list, up the parent pointers,
  through a bucket) have no bound in the source; each takes a bound on the number of its
  iterations as its first argument and has the value \<open>None\<close> when the bound is used up.
  The counters and the labels are \<open>unsigned int\<close> and wrap; the number of out-of-tree arcs
  of a node stays below its number of adjacent arcs and is counted without wrap-around.
\<close>

definition node :: "Engine \<Rightarrow> nat \<Rightarrow> Node" where
  "node e i = nodesList e ! i"

definition updNode :: "nat \<Rightarrow> (Node \<Rightarrow> Node) \<Rightarrow> Engine \<Rightarrow> Engine" where
  "updNode i f e = e\<lparr>nodesList := (nodesList e)[i := f (nodesList e ! i)]\<rparr>"

definition updArc :: "nat \<Rightarrow> (Arc \<Rightarrow> Arc) \<Rightarrow> Engine \<Rightarrow> Engine" where
  "updArc k f e = e\<lparr>arcList := (arcList e)[k := f (arcList e ! k)]\<rparr>"

definition decLabelCount :: "nat \<Rightarrow> Engine \<Rightarrow> Engine" where
  "decLabelCount l e = e\<lparr>labelCount := (labelCount e)[l := usub (labelCount e ! l) 1]\<rparr>"

definition incLabelCount :: "nat \<Rightarrow> Engine \<Rightarrow> Engine" where
  "incLabelCount l e = e\<lparr>labelCount := (labelCount e)[l := uadd (labelCount e ! l) 1]\<rparr>"

definition addToStrongBucketE :: "nat \<Rightarrow> nat \<Rightarrow> Engine \<Rightarrow> Engine" where
  "addToStrongBucketE newRoot b e =
     (case addToStrongBucket newRoot b (nodesList e, strongRoots e) of
        (nl, sr) \<Rightarrow> e\<lparr>nodesList := nl, strongRoots := sr\<rparr>)"

text \<open>
  \<open>liftAll\<close>: \<open>liftVisit\<close> is what the source does on reaching a node (point \<open>nextScan\<close> at
  the child list, leave the old label, take the label \<open>numNodes\<close>); the loop descends
  along \<open>nextScan\<close> while there is one and climbs to the parent otherwise.
\<close>

definition liftVisit :: "nat \<Rightarrow> Engine \<Rightarrow> Engine" where
  "liftVisit c e =
     (let e1 = updNode c (\<lambda>nd. nd\<lparr>nextScan := childList nd\<rparr>) e;
          e2 = decLabelCount (label (node e1 c)) e1
      in updNode c (\<lambda>nd. nd\<lparr>label := numNodes e2\<rparr>) e2)"

primrec liftAllLoop :: "nat \<Rightarrow> Engine \<Rightarrow> nat \<Rightarrow> Engine option" where
  "liftAllLoop 0 e current = None"
| "liftAllLoop (Suc n) e current =
     (case nextScan (node e current) of
        Some temp \<Rightarrow>
          liftAllLoop n
            (liftVisit temp (updNode current (\<lambda>nd. nd\<lparr>nextScan := nextNode (node e temp)\<rparr>) e))
            temp
      | None \<Rightarrow>
          (case parent (node e current) of
             None \<Rightarrow> Some e
           | Some p \<Rightarrow> liftAllLoop n e p))"

definition liftAll :: "nat \<Rightarrow> Engine \<Rightarrow> nat \<Rightarrow> Engine option" where
  "liftAll n e rootNode = liftAllLoop n (liftVisit rootNode e) rootNode"

definition addRelationship :: "nat \<Rightarrow> nat \<Rightarrow> Engine \<Rightarrow> Engine" where
  "addRelationship newParent child e =
     (let e1 = updNode child (\<lambda>nd. nd\<lparr>parent := Some newParent\<rparr>) e;
          e2 = updNode child (\<lambda>nd. nd\<lparr>nextNode := childList (node e1 newParent)\<rparr>) e1
      in updNode newParent (\<lambda>nd. nd\<lparr>childList := Some child\<rparr>) e2)"

text \<open>
  The search of \<open>breakRelationship\<close> for the sibling in front of \<open>child\<close>. A sibling list
  that ends before \<open>child\<close> makes the source read through a null pointer; the model has
  no value for that either.
\<close>

primrec findPrevSibling :: "nat \<Rightarrow> Engine \<Rightarrow> nat \<Rightarrow> nat \<Rightarrow> nat option" where
  "findPrevSibling 0 e current child = None"
| "findPrevSibling (Suc n) e current child =
     (case nextNode (node e current) of
        None \<Rightarrow> None
      | Some nx \<Rightarrow> if nx = child then Some current else findPrevSibling n e nx child)"

definition breakRelationship :: "nat \<Rightarrow> nat \<Rightarrow> nat \<Rightarrow> Engine \<Rightarrow> Engine option" where
  "breakRelationship n oldParent child e =
     (let e1 = updNode child (\<lambda>nd. nd\<lparr>parent := None\<rparr>) e in
      if childList (node e1 oldParent) = Some child then
        (let e2 = updNode oldParent (\<lambda>nd. nd\<lparr>childList := nextNode (node e1 child)\<rparr>) e1
         in Some (updNode child (\<lambda>nd. nd\<lparr>nextNode := None\<rparr>) e2))
      else
        (case childList (node e1 oldParent) of
           None \<Rightarrow> None
         | Some first \<Rightarrow>
             (case findPrevSibling n e1 first child of
                None \<Rightarrow> None
              | Some current \<Rightarrow>
                  (let e2 = updNode current (\<lambda>nd. nd\<lparr>nextNode := nextNode (node e1 child)\<rparr>) e1
                   in Some (updNode child (\<lambda>nd. nd\<lparr>nextNode := None\<rparr>) e2)))))"

text \<open>\<open>merge\<close>: the loop keeps \<open>(current, newParent, newArc)\<close>.\<close>

primrec mergeLoop :: "nat \<Rightarrow> Engine \<Rightarrow> nat \<Rightarrow> nat \<Rightarrow> nat \<Rightarrow> Engine option" where
  "mergeLoop 0 e current newParent newArc = None"
| "mergeLoop (Suc n) e current newParent newArc =
     (case parent (node e current) of
        Some oldParent \<Rightarrow>
          (let oldArc = the (arcToParent (node e current));
               e1 = updNode current (\<lambda>nd. nd\<lparr>arcToParent := Some newArc\<rparr>) e
           in case breakRelationship n oldParent current e1 of
                None \<Rightarrow> None
              | Some e2 \<Rightarrow>
                  (let e3 = addRelationship newParent current e2;
                       e4 = updArc oldArc (\<lambda>a. a\<lparr>direction := usub 1 (direction a)\<rparr>) e3
                   in mergeLoop n e4 oldParent current oldArc))
      | None \<Rightarrow>
          Some (addRelationship newParent current
                  (updNode current (\<lambda>nd. nd\<lparr>arcToParent := Some newArc\<rparr>) e)))"

definition merge :: "nat \<Rightarrow> nat \<Rightarrow> nat \<Rightarrow> nat \<Rightarrow> Engine \<Rightarrow> Engine option" where
  "merge n parentNode child newArc e =
     mergeLoop n (e\<lparr>numMergers := uadd (numMergers e) 1\<rparr>) child parentNode newArc"

definition pushUpward :: "nat \<Rightarrow> nat \<Rightarrow> nat \<Rightarrow> nat \<Rightarrow> real \<Rightarrow> Engine \<Rightarrow> Engine option" where
  "pushUpward n currentArc child parentNode resCap e0 =
     (let e = e0\<lparr>numPushes := uadd (numPushes e0) 1\<rparr>;
          ex = excess (node e child) in
      if isExcess (dsub resCap ex) \<ge> 0 then
        Some (updNode child (\<lambda>nd. nd\<lparr>excess := 0\<rparr>)
               (updArc currentArc (\<lambda>a. a\<lparr>flow := dadd (flow a) ex\<rparr>)
                 (updNode parentNode (\<lambda>nd. nd\<lparr>excess := dadd (excess nd) ex\<rparr>) e)))
      else
        (let e1 = updArc currentArc (\<lambda>a. a\<lparr>direction := 0\<rparr>) e;
             e2 = updNode parentNode (\<lambda>nd. nd\<lparr>excess := dadd (excess nd) resCap\<rparr>) e1;
             e3 = updNode child (\<lambda>nd. nd\<lparr>excess := dsub (excess nd) resCap\<rparr>) e2;
             e4 = updArc currentArc (\<lambda>a. a\<lparr>flow := capacity a\<rparr>) e3;
             e5 = updNode parentNode
                    (\<lambda>nd. nd\<lparr>outOfTree := (outOfTree nd)[numOutOfTree nd := currentArc],
                              numOutOfTree := numOutOfTree nd + 1\<rparr>) e4
         in case breakRelationship n parentNode child e5 of
              None \<Rightarrow> None
            | Some e6 \<Rightarrow> Some (addToStrongBucketE child (label (node e6 child)) e6)))"

definition pushDownward :: "nat \<Rightarrow> nat \<Rightarrow> nat \<Rightarrow> nat \<Rightarrow> real \<Rightarrow> Engine \<Rightarrow> Engine option" where
  "pushDownward n currentArc child parentNode fl e0 =
     (let e = e0\<lparr>numPushes := uadd (numPushes e0) 1\<rparr>;
          ex = excess (node e child) in
      if isExcess (dsub fl ex) \<ge> 0 then
        Some (updNode child (\<lambda>nd. nd\<lparr>excess := 0\<rparr>)
               (updArc currentArc (\<lambda>a. a\<lparr>flow := dsub (flow a) ex\<rparr>)
                 (updNode parentNode (\<lambda>nd. nd\<lparr>excess := dadd (excess nd) ex\<rparr>) e)))
      else
        (let e1 = updArc currentArc (\<lambda>a. a\<lparr>direction := 1\<rparr>) e;
             e2 = updNode child (\<lambda>nd. nd\<lparr>excess := dsub (excess nd) fl\<rparr>) e1;
             e3 = updNode parentNode (\<lambda>nd. nd\<lparr>excess := dadd (excess nd) fl\<rparr>) e2;
             e4 = updArc currentArc (\<lambda>a. a\<lparr>flow := 0\<rparr>) e3;
             e5 = updNode parentNode
                    (\<lambda>nd. nd\<lparr>outOfTree := (outOfTree nd)[numOutOfTree nd := currentArc],
                              numOutOfTree := numOutOfTree nd + 1\<rparr>) e4
         in case breakRelationship n parentNode child e5 of
              None \<Rightarrow> None
            | Some e6 \<Rightarrow> Some (addToStrongBucketE child (label (node e6 child)) e6)))"

text \<open>\<open>pushExcess\<close>: the loop keeps \<open>(current, prevEx)\<close>.\<close>

primrec pushExcessLoop :: "nat \<Rightarrow> Engine \<Rightarrow> nat \<Rightarrow> real \<Rightarrow> Engine option" where
  "pushExcessLoop 0 e current prevEx = None"
| "pushExcessLoop (Suc n) e current prevEx =
     (if isExcess (excess (node e current)) \<noteq> 0 \<and> parent (node e current) \<noteq> None then
        (let parentNode = the (parent (node e current));
             prevEx' = excess (node e parentNode);
             arcToParent' = the (arcToParent (node e current));
             a = arcList e ! arcToParent'
         in case (if direction a \<noteq> 0
                  then pushUpward n arcToParent' current parentNode (dsub (capacity a) (flow a)) e
                  else pushDownward n arcToParent' current parentNode (flow a) e) of
              None \<Rightarrow> None
            | Some e1 \<Rightarrow> pushExcessLoop n e1 parentNode prevEx')
      else if isExcess (excess (node e current)) > 0 \<and> isExcess prevEx \<le> 0
        then Some (addToStrongBucketE current (label (node e current)) e)
      else Some e)"

definition pushExcess :: "nat \<Rightarrow> nat \<Rightarrow> Engine \<Rightarrow> Engine option" where
  "pushExcess n strongRoot e = pushExcessLoop n e strongRoot 1"

text \<open>
  \<open>findWeakNode\<close>: the loop over the out-of-tree arcs from \<open>nextArc\<close>; its first argument
  is the number of arcs left to scan. The result is the arc found and the weak node.
\<close>

definition takeOutOfTree :: "nat \<Rightarrow> nat \<Rightarrow> Engine \<Rightarrow> Engine" where
  "takeOutOfTree strongNode i e =
     updNode strongNode
       (\<lambda>nd. nd\<lparr> nextArc := i,
                 numOutOfTree := numOutOfTree nd - 1,
                 outOfTree := (outOfTree nd)[i := outOfTree nd ! (numOutOfTree nd - 1)] \<rparr>) e"

primrec findWeakLoop :: "nat \<Rightarrow> nat \<Rightarrow> nat \<Rightarrow> Engine \<Rightarrow> Engine \<times> (nat \<times> nat) option" where
  "findWeakLoop 0 i strongNode e =
     (updNode strongNode (\<lambda>nd. nd\<lparr>nextArc := numOutOfTree nd\<rparr>) e, None)"
| "findWeakLoop (Suc k) i strongNode e0 =
     (let e = e0\<lparr>numArcScans := uadd (numArcScans e0) 1\<rparr>;
          out = outOfTree (node e strongNode) ! i;
          a = arcList e ! out in
      if label (node e (the (arcTo a))) = usub (highestStrongLabel e) 1
        then (takeOutOfTree strongNode i e, Some (out, the (arcTo a)))
      else if label (node e (the (arcFrom a))) = usub (highestStrongLabel e) 1
        then (takeOutOfTree strongNode i e, Some (out, the (arcFrom a)))
      else findWeakLoop k (i + 1) strongNode e)"

definition findWeakNode :: "nat \<Rightarrow> Engine \<Rightarrow> Engine \<times> (nat \<times> nat) option" where
  "findWeakNode strongNode e =
     findWeakLoop (numOutOfTree (node e strongNode) - nextArc (node e strongNode))
       (nextArc (node e strongNode)) strongNode e"

primrec checkChildrenLoop :: "nat \<Rightarrow> nat \<Rightarrow> Engine \<Rightarrow> Engine option" where
  "checkChildrenLoop 0 curNode e = None"
| "checkChildrenLoop (Suc n) curNode e =
     (case nextScan (node e curNode) of
        Some c \<Rightarrow>
          if label (node e c) = label (node e curNode) then Some e
          else checkChildrenLoop n curNode
                 (updNode curNode (\<lambda>nd. nd\<lparr>nextScan := nextNode (node e c)\<rparr>) e)
      | None \<Rightarrow>
          (let e1 = decLabelCount (label (node e curNode)) e;
               e2 = updNode curNode (\<lambda>nd. nd\<lparr>label := uadd (label nd) 1\<rparr>) e1;
               e3 = incLabelCount (label (node e2 curNode)) e2;
               e4 = e3\<lparr>numRelabels := uadd (numRelabels e3) 1\<rparr>
           in Some (updNode curNode (\<lambda>nd. nd\<lparr>nextArc := 0\<rparr>) e4)))"

definition checkChildren :: "nat \<Rightarrow> nat \<Rightarrow> Engine \<Rightarrow> Engine option" where
  "checkChildren n curNode e = checkChildrenLoop n curNode e"


text \<open>
  \<open>getHighestStrongRoot\<close>. \<open>strongRoots\<close> and \<open>labelCount\<close> have \<open>numNodes\<close> cells; the
  source reads \<open>strongRoots[i]\<close> for every \<open>i\<close> from \<open>highestStrongLabel\<close> down without
  comparing \<open>i\<close> with that size. A read beyond the array has no defined behaviour in C,
  and the model has no value for it. Everywhere else the two arrays are indexed by the
  label of a node that is in a bucket or is being relabelled; there the model follows
  HOL's lists (an update beyond the end changes nothing).
\<close>

definition popBucket :: "nat \<Rightarrow> nat \<Rightarrow> Engine \<Rightarrow> Engine" where
  "popBucket i r e =
     e\<lparr>strongRoots := (strongRoots e)[i := (strongRoots e ! i)\<lparr>rstart := nextNode (node e r)\<rparr>]\<rparr>"

primrec gapLoop :: "nat \<Rightarrow> nat \<Rightarrow> Engine \<Rightarrow> Engine option" where
  "gapLoop 0 i e = None"
| "gapLoop (Suc n) i e =
     (case rstart (strongRoots e ! i) of
        None \<Rightarrow> Some e
      | Some r \<Rightarrow>
          (case liftAll n (popBucket i r (e\<lparr>numGaps := uadd (numGaps e) 1\<rparr>)) r of
             None \<Rightarrow> None
           | Some e1 \<Rightarrow> gapLoop n i e1))"

primrec scanLabels :: "nat \<Rightarrow> nat \<Rightarrow> Engine \<Rightarrow> (Engine \<times> nat option) option" where
  "scanLabels n 0 e = Some (e, None)"
| "scanLabels n (Suc j) e =
     (if Suc j \<ge> length (strongRoots e) then None
      else
        (case rstart (strongRoots e ! Suc j) of
           None \<Rightarrow> scanLabels n j e
         | Some r \<Rightarrow>
             (let e1 = e\<lparr>highestStrongLabel := Suc j\<rparr> in
              if labelCount e1 ! j \<noteq> 0 then
                Some (updNode r (\<lambda>nd. nd\<lparr>nextNode := None\<rparr>) (popBucket (Suc j) r e1), Some r)
              else
                (case gapLoop n (Suc j) e1 of
                   None \<Rightarrow> None
                 | Some e2 \<Rightarrow> scanLabels n j e2))))"

primrec promoteLoop :: "nat \<Rightarrow> Engine \<Rightarrow> Engine option" where
  "promoteLoop 0 e = None"
| "promoteLoop (Suc n) e =
     (case rstart (strongRoots e ! 0) of
        None \<Rightarrow> Some e
      | Some r \<Rightarrow>
          (let e1 = popBucket 0 r e;
               e2 = updNode r (\<lambda>nd. nd\<lparr>label := 1\<rparr>) e1;
               e3 = incLabelCount 1 (decLabelCount 0 e2);
               e4 = e3\<lparr>numRelabels := uadd (numRelabels e3) 1\<rparr>
           in promoteLoop n (addToStrongBucketE r (label (node e4 r)) e4)))"

definition getHighestStrongRoot :: "nat \<Rightarrow> Engine \<Rightarrow> (Engine \<times> nat option) option" where
  "getHighestStrongRoot n e =
     (case scanLabels n (highestStrongLabel e) e of
        None \<Rightarrow> None
      | Some (e1, Some r) \<Rightarrow> Some (e1, Some r)
      | Some (e1, None) \<Rightarrow>
          (case rstart (strongRoots e1 ! 0) of
             None \<Rightarrow> Some (e1, None)
           | Some r0 \<Rightarrow>
               (case promoteLoop n e1 of
                  None \<Rightarrow> None
                | Some e2 \<Rightarrow>
                    (let e3 = e2\<lparr>highestStrongLabel := 1\<rparr>;
                         r = the (rstart (strongRoots e3 ! 1))
                     in Some (updNode r (\<lambda>nd. nd\<lparr>nextNode := None\<rparr>) (popBucket 1 r e3), Some r)))))"

text \<open>
  \<open>processRoot\<close>: the walk over the tree of the strong root, from the node \<open>strongNode\<close>.
  A merger ends the walk; a walk that finds no weak neighbour puts the root back in the
  bucket of its label and increments \<open>highestStrongLabel\<close>.
\<close>

definition mergeAndPush :: "nat \<Rightarrow> nat \<Rightarrow> nat \<Rightarrow> nat \<Rightarrow> nat \<Rightarrow> Engine \<Rightarrow> Engine option" where
  "mergeAndPush n strongRoot weakNode strongNode out e =
     (case merge n weakNode strongNode out e of
        None \<Rightarrow> None
      | Some e1 \<Rightarrow> pushExcess n strongRoot e1)"

primrec processLoop :: "nat \<Rightarrow> Engine \<Rightarrow> nat \<Rightarrow> nat \<Rightarrow> Engine option" where
  "processLoop 0 e strongRoot strongNode = None"
| "processLoop (Suc n) e strongRoot strongNode =
     (case nextScan (node e strongNode) of
        Some temp \<Rightarrow>
          (let e1 = updNode strongNode (\<lambda>nd. nd\<lparr>nextScan := nextNode (node e temp)\<rparr>) e;
               e2 = updNode temp (\<lambda>nd. nd\<lparr>nextScan := childList nd\<rparr>) e1
           in case findWeakNode temp e2 of
                (e3, Some (out, weakNode)) \<Rightarrow> mergeAndPush n strongRoot weakNode temp out e3
              | (e3, None) \<Rightarrow>
                  (case checkChildren n temp e3 of
                     None \<Rightarrow> None
                   | Some e4 \<Rightarrow> processLoop n e4 strongRoot temp))
      | None \<Rightarrow>
          (case parent (node e strongNode) of
             Some p \<Rightarrow>
               (case checkChildren n p e of
                  None \<Rightarrow> None
                | Some e1 \<Rightarrow> processLoop n e1 strongRoot p)
           | None \<Rightarrow>
               (let e1 = addToStrongBucketE strongRoot (label (node e strongRoot)) e
                in Some (e1\<lparr>highestStrongLabel := uadd (highestStrongLabel e1) 1\<rparr>))))"

definition processRoot :: "nat \<Rightarrow> nat \<Rightarrow> Engine \<Rightarrow> Engine option" where
  "processRoot n strongRoot e0 =
     (let e = updNode strongRoot (\<lambda>nd. nd\<lparr>nextScan := childList nd\<rparr>) e0 in
      case findWeakNode strongRoot e of
        (e1, Some (out, weakNode)) \<Rightarrow> mergeAndPush n strongRoot weakNode strongRoot out e1
      | (e1, None) \<Rightarrow>
          (case checkChildren n strongRoot e1 of
             None \<Rightarrow> None
           | Some e2 \<Rightarrow> processLoop n e2 strongRoot strongRoot))"

primrec pseudoflowPhase1 :: "nat \<Rightarrow> Engine \<Rightarrow> Engine option" where
  "pseudoflowPhase1 0 e = None"
| "pseudoflowPhase1 (Suc n) e =
     (case getHighestStrongRoot n e of
        None \<Rightarrow> None
      | Some (e1, None) \<Rightarrow> Some e1
      | Some (e1, Some strongRoot) \<Rightarrow>
          (case processRoot n strongRoot e1 of
             None \<Rightarrow> None
           | Some e2 \<Rightarrow> pseudoflowPhase1 n e2))"

subsection \<open>solveProblem\<close>

text \<open>
  \<open>evaluateCut\<close> adds up the arcs that leave the source side of the optimal cut. The
  indicator is read at the original index of an end node unless that node is the
  artificial source (as tail) or the artificial sink (as head).
\<close>

definition evaluateCutStep :: "nat \<Rightarrow> CutProblem \<Rightarrow> CutProblem" where
  "evaluateCutStep i problem =
     (let a = arcListP problem ! i;
          originalIndexFrom = originalIndex (nodeList problem ! the (arcFrom a));
          originalIndexTo = originalIndex (nodeList problem ! the (arcTo a)) in
      if (originalIndexFrom = - 1
            \<or> optimalSourceSetIndicator problem ! nat originalIndexFrom = 1)
         \<and> (originalIndexTo = - 2
            \<or> optimalSourceSetIndicator problem ! nat originalIndexTo = 0)
      then problem\<lparr> cutValue := dadd (cutValue problem) (capacity a),
                     cutMultiplier := dadd (cutMultiplier problem) (multiplier a),
                     cutConstant := dadd (cutConstant problem) (arcConstant a) \<rparr>
      else problem)"

definition evaluateCut :: "CutProblem \<Rightarrow> CutProblem" where
  "evaluateCut problem = fold evaluateCutStep [0..<numArcsP problem] problem"

definition markSet :: "Node list \<Rightarrow> nat \<Rightarrow> nat \<Rightarrow> nat list \<Rightarrow> nat list" where
  "markSet nodes n v ind =
     fold (\<lambda>i ind'. ind'[uint_of_int (originalIndex (nodes ! i)) := v]) [0..<n] ind"

definition emptyCutStep :: "nat \<Rightarrow> CutProblem \<Rightarrow> CutProblem" where
  "emptyCutStep i problem =
     (let a = arcListP problem ! i in
      if originalIndex (nodeList problem ! the (arcFrom a)) = - 1
         \<and> originalIndex (nodeList problem ! the (arcTo a)) = - 2
      then problem\<lparr> cutConstant := dadd (cutConstant problem) (arcConstant a),
                     cutMultiplier := dadd (cutMultiplier problem) (multiplier a),
                     cutValue := dadd (cutValue problem) (capacity a) \<rparr>
      else problem)"

definition reverseArc :: "Arc \<Rightarrow> Arc" where
  "reverseArc a = initializeArc\<lparr> arcFrom := arcTo a, arcTo := arcFrom a, capacity := capacity a \<rparr>"

definition labelToSide :: "nat \<Rightarrow> Engine \<Rightarrow> nat \<Rightarrow> nat list \<Rightarrow> nat list" where
  "labelToSide maximalSourceSet e i temp =
     temp[uint_of_int (originalIndex (nodesList e ! i)) :=
            (if label (nodesList e ! i) \<ge> numNodes e
             then (if maximalSourceSet = 1 then 0 else 1)
             else (if maximalSourceSet = 1 then 1 else 0))]"

text \<open>
  \<open>solveProblem\<close>. The call of the main loop of the engine is the argument \<open>phase1\<close>, a
  function on the engine state whose value \<open>None\<close> stands for a loop that does not
  return; it is \<open>pseudoflowPhase1 n\<close> for a bound \<open>n\<close>. What is proved for every \<open>phase1\<close>
  holds for every bound, and does not depend on what the loop does to the state.
\<close>

definition solveProblem ::
  "(Engine \<Rightarrow> Engine option) \<Rightarrow> nat \<Rightarrow> Engine \<Rightarrow> CutProblem \<Rightarrow> nat \<Rightarrow> (Engine \<times> CutProblem) option" where
  "solveProblem phase1 numNodesSuper e problem maximalSourceSet =
     (let e1 = e\<lparr> nodesList := nodeList problem, numNodes := numNodesInList problem,
                  numArcs := numArcsP problem \<rparr>;
          p1 = problem\<lparr> cutMultiplier := 0, cutConstant := 0, cutValue := 0 \<rparr>
      in
      if numNodes e1 = 2 then
        (let ind = markSet (sinkSet p1) (numSinkSet p1) 0
                     (markSet (sourceSet p1) (numSourceSet p1) 1 (mallocUint numNodesSuper))
         in Some (e1, fold emptyCutStep [0..<numArcsP p1] (p1\<lparr>optimalSourceSetIndicator := ind\<rparr>)))
      else
        (let e2 = (if maximalSourceSet = 1
                   then e1\<lparr> source := 1, sink := 0,
                            arcList := map reverseArc (take (numArcs e1) (arcListP p1)) \<rparr>
                   else e1\<lparr> source := 0, sink := 1, arcList := arcListP p1 \<rparr>)
         in
         case phase1 (simpleInitialization (createMemoryStructures e2)) of
           None \<Rightarrow> None
         | Some e3 \<Rightarrow>
             (let nodeCount = numNodesInList p1 + numSourceSet p1 + numSinkSet p1 - 2;
                  temp = markSet (sinkSet p1) (numSinkSet p1) 0
                           (markSet (sourceSet p1) (numSourceSet p1) 1
                              (fold (labelToSide maximalSourceSet e3) [2..<numNodes e3]
                                 (mallocUint nodeCount)));
                  p2 = p1\<lparr> optimalSourceSetIndicator := temp,
                           nodeList := nodesList e3,
                           arcListP := (if maximalSourceSet = 1 then arcListP p1 else arcList e3) \<rparr>;
                  p3 = evaluateCut p2;
                  e4 = freeMemorySolve (if maximalSourceSet = 1 then e3\<lparr>arcList := []\<rparr> else e3)
              in Some (e4, p3\<lparr>nodeList := nodesList e4\<rparr>))))"

subsection \<open>parametricCut\<close>

record Globals =
  engine :: Engine
  breakpoints :: "Breakpoint list"
  numNodesSuper :: nat
  numArcsSuper :: nat
  nodeListSuper :: "Node list"
  arcListSuper :: "Arc list"
  useParametricCut :: nat
  roundNegativeCapacity :: nat
  LAMBDA_LOW :: real
  LAMBDA_HIGH :: real

text \<open>
  The result of a computation that may end the process with a diagnostic (\<open>Some (Inl e)\<close>)
  or may not return (\<open>None\<close>).
\<close>

type_synonym 'a res = "(error + 'a) option"

definition bindR :: "'a res \<Rightarrow> ('a \<Rightarrow> 'b res) \<Rightarrow> 'b res" where
  "bindR m f = (case m of None \<Rightarrow> None | Some (Inl e) \<Rightarrow> Some (Inl e) | Some (Inr x) \<Rightarrow> f x)"

definition solveIfNeeded ::
  "(Engine \<Rightarrow> Engine option) \<Rightarrow> Globals \<Rightarrow> CutProblem \<Rightarrow> nat \<Rightarrow> (Globals \<times> CutProblem) res" where
  "solveIfNeeded phase1 g problem maximalSourceSet =
     (if solved problem = 0 then
        (case solveProblem phase1 (numNodesSuper g) (engine g) problem maximalSourceSet of
           None \<Rightarrow> None
         | Some (e, p) \<Rightarrow> Some (Inr (g\<lparr>engine := e\<rparr>, p\<lparr>solved := 1\<rparr>)))
      else Some (Inr (g, problem)))"

definition lambdaIntersectExists :: "CutProblem \<Rightarrow> CutProblem \<Rightarrow> bool" where
  "lambdaIntersectExists lowProblem highProblem =
     (dabs (dsub (cutMultiplier highProblem) (cutMultiplier lowProblem)) > TOL)"

definition lambdaIntersect :: "CutProblem \<Rightarrow> CutProblem \<Rightarrow> real" where
  "lambdaIntersect lowProblem highProblem =
     (if lambdaIntersectExists lowProblem highProblem
      then ddiv (dsub (cutConstant lowProblem) (cutConstant highProblem))
             (dsub (cutMultiplier highProblem) (cutMultiplier lowProblem))
      else 0)"

definition addBreakpointG :: "real \<Rightarrow> nat list \<Rightarrow> Globals \<Rightarrow> Globals" where
  "addBreakpointG lam ind g =
     g\<lparr>breakpoints := addBreakpoint (numNodesSuper g) lam ind (breakpoints g)\<rparr>"

text \<open>
  The case analysis of \<open>parametricCut\<close> on the intersection of the two cut lines. The
  argument \<open>rec\<close> is \<open>parametricCut\<close> itself, called for the lower and then for the upper
  subinterval. The two problems are passed by pointer in the source and are returned here
  with the globals.
\<close>

definition intersectCases ::
  "(Globals \<Rightarrow> CutProblem \<Rightarrow> CutProblem \<Rightarrow> (Globals \<times> CutProblem \<times> CutProblem) res)
     \<Rightarrow> Globals \<Rightarrow> CutProblem \<Rightarrow> CutProblem \<Rightarrow> (Globals \<times> CutProblem \<times> CutProblem) res" where
  "intersectCases rec g low high =
     (if lambdaIntersectExists low high
         \<and> dadd (lambdaIntersect low high) TOL < lambdaValue high
         \<and> dsub (lambdaIntersect low high) TOL > lambdaValue low
      then
        bindR (Some (contractProblem (roundNegativeCapacity g) low (lambdaIntersect low high)
                 (optimalSourceSetIndicator low) (optimalSourceSetIndicator high)))
          (\<lambda>upperBoundIntersect.
        bindR (rec g low upperBoundIntersect) (\<lambda>(g3, low', upper').
        bindR (Some (contractProblem (roundNegativeCapacity g3) low' (lambdaIntersect low high)
                 (optimalSourceSetIndicator low') (optimalSourceSetIndicator high)))
          (\<lambda>lowerBoundIntersect.
        bindR (rec g3 lowerBoundIntersect high) (\<lambda>(g4, lower', high').
        Some (Inr (g4, low', high'))))))
      else if lambdaIntersectExists low high
              \<and> dabs (dsub (lambdaIntersect low high) (lambdaValue high)) \<le> TOL
      then Some (Inr (addBreakpointG (lambdaValue high) (optimalSourceSetIndicator low) g,
                      low, high))
      else if lambdaIntersectExists low high
              \<and> dabs (dsub (lambdaIntersect low high) (lambdaValue low)) \<le> TOL
      then Some (Inr (addBreakpointG (lambdaValue low) (optimalSourceSetIndicator low) g,
                      low, high))
      else Some (Inr (g, low, high)))"

text \<open>
  \<open>parametricCut\<close>, with a bound on the depth of the recursion as its second argument:
  at depth 0 the value is \<open>None\<close>.
\<close>

primrec parametricCut ::
  "(Engine \<Rightarrow> Engine option) \<Rightarrow> nat \<Rightarrow> Globals \<Rightarrow> CutProblem \<Rightarrow> CutProblem
     \<Rightarrow> (Globals \<times> CutProblem \<times> CutProblem) res" where
  "parametricCut phase1 0 g lowProblem highProblem = None"
| "parametricCut phase1 (Suc n) g lowProblem highProblem =
     (let baseLevel = (solved lowProblem = 0 \<and> solved highProblem = 0) in
      bindR (solveIfNeeded phase1 g lowProblem 0) (\<lambda>(g1, low).
      bindR (solveIfNeeded phase1 g1 highProblem 1) (\<lambda>(g2, high).
      bindR (intersectCases (parametricCut phase1 n) g2 low high) (\<lambda>(g5, low5, high5).
        Some (Inr (if baseLevel
                   then addBreakpointG (lambdaValue high5) (optimalSourceSetIndicator high5) g5
                   else g5,
                   low5, high5))))))"

subsection \<open>hpf_solve\<close>

definition reset_globals :: Globals where
  "reset_globals =
     \<lparr> engine = \<lparr> numNodes = 0, numArcs = 0, source = 0, sink = 0, highestStrongLabel = 1,
                  numArcScans = 0, numPushes = 0, numMergers = 0, numRelabels = 0, numGaps = 0,
                  nodesList = [], strongRoots = [], labelCount = [], arcList = [] \<rparr>,
       breakpoints = [], numNodesSuper = 0, numArcsSuper = 0,
       nodeListSuper = [], arcListSuper = [],
       useParametricCut = 1, roundNegativeCapacity = 0, LAMBDA_LOW = 0, LAMBDA_HIGH = 0 \<rparr>"

text \<open>The conversion \<open>(int) x\<close> of a \<open>double\<close> drops the fractional part.\<close>

definition int_of_double :: "real \<Rightarrow> int" where
  "int_of_double x = (if x \<ge> 0 then \<lfloor>x\<rfloor> else \<lceil>x\<rceil>)"

definition readArcStep :: "real list \<Rightarrow> nat \<Rightarrow> Arc list \<times> Node list \<Rightarrow> Arc list \<times> Node list" where
  "readArcStep arcMatrix i st =
     (case st of (al, nl) \<Rightarrow>
        let from = nat (int_of_double (arcMatrix ! (i * 4 + 0)));
            to = nat (int_of_double (arcMatrix ! (i * 4 + 1)));
            constantCapacity = arcMatrix ! (i * 4 + 2);
            multiplierCapacity = arcMatrix ! (i * 4 + 3)
        in (al[i := (al ! i)\<lparr> arcConstant := constantCapacity, multiplier := multiplierCapacity,
                              arcFrom := Some from, arcTo := Some to \<rparr>],
            incAdjacent to (incAdjacent from nl)))"

definition readGraphSuper :: "real list \<Rightarrow> Globals \<Rightarrow> Globals" where
  "readGraphSuper arcMatrix g =
     (case fold (readArcStep arcMatrix) [0..<numArcsSuper g]
             (mallocArcs (numArcsSuper g),
              map (\<lambda>i. (initializeNode i)\<lparr>originalIndex := int i\<rparr>) [0..<numNodesSuper g]) of
        (al, nl) \<Rightarrow>
          g\<lparr> nodeListSuper := nl, arcListSuper := al,
             useParametricCut := (if LAMBDA_LOW g = LAMBDA_HIGH g then 0 else useParametricCut g) \<rparr>)"

definition initializeParametricCut :: "Globals \<Rightarrow> error + CutProblem \<times> CutProblem option" where
  "initializeParametricCut g =
     (case initializeProblem (roundNegativeCapacity g) (source (engine g)) (sink (engine g))
             (nodeListSuper g) (numNodesSuper g) (arcListSuper g) (numArcsSuper g) (LAMBDA_LOW g) of
        Inl e \<Rightarrow> Inl e
      | Inr lowProblem \<Rightarrow>
          if useParametricCut g = 1 then
            (case initializeProblem (roundNegativeCapacity g) (source (engine g)) (sink (engine g))
                    (nodeListSuper g) (numNodesSuper g) (arcListSuper g) (numArcsSuper g)
                    (LAMBDA_HIGH g) of
               Inl e \<Rightarrow> Inl e
             | Inr highProblem \<Rightarrow> Inr (lowProblem, Some highProblem))
          else Inr (lowProblem, None))"

record Output =
  numBreakpoints :: int
  cuts :: "int list"
  breakpointsOut :: "real list"
  stats :: "int list"

definition prepareOutput :: "Globals \<Rightarrow> Output" where
  "prepareOutput g =
     \<lparr> numBreakpoints = int (length (breakpoints g)),
       cuts = concat (map (\<lambda>b. map (\<lambda>j. int (sourceSetIndicator b ! j)) [0..<numNodesSuper g])
                       (breakpoints g)),
       breakpointsOut = map bpLambdaValue (breakpoints g),
       stats = map int [numArcScans (engine g), numMergers (engine g), numPushes (engine g),
                        numRelabels (engine g), numGaps (engine g)] \<rparr>"

text \<open>
  \<open>hpf_solve\<close>. The three clock readings returned in \<open>times\<close> are left out. The second
  argument bounds the depth of the recursion of \<open>parametricCut\<close>.
\<close>

definition hpf_solve ::
  "(Engine \<Rightarrow> Engine option) \<Rightarrow> nat \<Rightarrow> int \<Rightarrow> int \<Rightarrow> int \<Rightarrow> int \<Rightarrow> real list \<Rightarrow> real \<times> real \<Rightarrow> int
     \<Rightarrow> Output res" where
  "hpf_solve phase1 depth numNodesIn numArcsIn sourceIn sinkIn arcMatrix lambdaRange
     roundNegativeCapacityIn =
     (let g0 = reset_globals;
          g1 = g0\<lparr> numNodesSuper := uint_of_int numNodesIn,
                   numArcsSuper := uint_of_int numArcsIn,
                   engine := (engine g0)\<lparr> source := uint_of_int sourceIn,
                                           sink := uint_of_int sinkIn \<rparr>,
                   LAMBDA_LOW := fst lambdaRange, LAMBDA_HIGH := snd lambdaRange,
                   roundNegativeCapacity := uint_of_int roundNegativeCapacityIn \<rparr>;
          g2 = readGraphSuper arcMatrix g1
      in
      bindR (Some (initializeParametricCut g2)) (\<lambda>(lowProblem, highOpt).
        if useParametricCut g2 = 1 then
          bindR (parametricCut phase1 depth g2 lowProblem (the highOpt)) (\<lambda>(g3, low, high).
          bindR (Some (removeDuplicateBreakpoints (breakpoints g3))) (\<lambda>bps.
            Some (Inr (prepareOutput (g3\<lparr>breakpoints := bps\<rparr>)))))
        else
          (case solveProblem phase1 (numNodesSuper g2) (engine g2) lowProblem 0 of
             None \<Rightarrow> None
           | Some (e, low) \<Rightarrow>
               Some (Inr (prepareOutput
                 (addBreakpointG (lambdaValue low) (optimalSourceSetIndicator low)
                    (g2\<lparr>engine := e\<rparr>)))))))"

section \<open>Input loading: readData of c/hpf.c\<close>

text \<open>
  \<open>readData\<close> reads the file line by line and switches on the first character. The model
  starts from the fields that \<open>sscanf\<close> extracts from a line; opening and reading the file
  are left out. A line that starts with any other character than \<open>p\<close>, \<open>n\<close> or \<open>a\<close> falls
  through the switch. Every rejection prints its diagnostic and calls \<open>exit(0)\<close>.
\<close>

datatype line =
    ProblemLine int int real real int
  | NodeLine int char
  | ArcLine int int real real
  | OtherLine

datatype load_error =
    NodesOutOfRange
  | SourceAlreadyDefined
  | SinkAlreadyDefined
  | UnknownNodeType char
  | SourceSinkUndefined
  | SelfLoop int
  | PositiveMultiplierNotSource
  | NegativeMultiplierNotSink
  | IncorrectNumberOfArcs
  | SourceNotAssigned
  | SinkNotAssigned
  | SourceEqualsSink

definition exitStatus :: "load_error \<Rightarrow> int" where
  "exitStatus e = 0"

record ReadState =
  rNumNodes :: int
  rNumArcs :: int
  lambdaRange :: "real \<times> real"
  rRoundNegativeCapacity :: int
  arcCount :: int
  numRemovedArcs :: int
  isSourceAssigned :: int
  isSinkAssigned :: int
  rSource :: int
  rSink :: int
  arcMatrix :: "real list"

text \<open>
  The locals of \<open>readData\<close> at entry. \<open>numNodes\<close>, \<open>numArcs\<close>, \<open>source\<close> and \<open>sink\<close> hold
  no defined value before the lines that set them; the model starts them at 0.
\<close>

definition initialReadState :: ReadState where
  "initialReadState =
     \<lparr> rNumNodes = 0, rNumArcs = 0, lambdaRange = (0, 0), rRoundNegativeCapacity = 0,
       arcCount = 0, numRemovedArcs = 0, isSourceAssigned = 0, isSinkAssigned = 0,
       rSource = 0, rSink = 0, arcMatrix = [] \<rparr>"

fun readLine :: "line \<Rightarrow> ReadState \<Rightarrow> load_error + ReadState" where
  "readLine (ProblemLine n m lo hi r) st =
     Inr (st\<lparr> rNumNodes := n, rNumArcs := m, lambdaRange := (lo, hi),
              rRoundNegativeCapacity := r, arcMatrix := replicate (nat (m * 4)) 0 \<rparr>)"
| "readLine (NodeLine currentNode sourceSinkIndicator) st =
     (if sourceSinkIndicator = CHR ''s'' then
        (if currentNode \<ge> rNumNodes st \<or> currentNode < 0 then Inl NodesOutOfRange
         else if isSourceAssigned st \<noteq> 0 then Inl SourceAlreadyDefined
         else Inr (st\<lparr> rSource := currentNode, isSourceAssigned := 1 \<rparr>))
      else if sourceSinkIndicator = CHR ''t'' then
        (if currentNode \<ge> rNumNodes st \<or> currentNode < 0 then Inl NodesOutOfRange
         else if isSinkAssigned st \<noteq> 0 then Inl SinkAlreadyDefined
         else Inr (st\<lparr> rSink := currentNode, isSinkAssigned := 1 \<rparr>))
      else Inl (UnknownNodeType sourceSinkIndicator))"
| "readLine (ArcLine from to constantCapacity multiplierCapacity) st =
     (if isSinkAssigned st = 0 \<or> isSourceAssigned st = 0 then Inl SourceSinkUndefined
      else if from < 0 \<or> to < 0 \<or> from \<ge> rNumNodes st \<or> to \<ge> rNumNodes st
        then Inl NodesOutOfRange
      else if from = to then Inl (SelfLoop from)
      else if multiplierCapacity > 0 \<and> from \<noteq> rSource st then Inl PositiveMultiplierNotSource
      else if multiplierCapacity < 0 \<and> to \<noteq> rSink st then Inl NegativeMultiplierNotSink
      else if arcCount st \<ge> rNumArcs st then Inl IncorrectNumberOfArcs
      else if to = rSource st \<or> from = rSink st
        then Inr (st\<lparr> numRemovedArcs := numRemovedArcs st + 1 \<rparr>)
      else Inr (st\<lparr> arcMatrix := (arcMatrix st)
                        [nat (arcCount st * 4 + 0) := real_of_int from,
                         nat (arcCount st * 4 + 1) := real_of_int to,
                         nat (arcCount st * 4 + 2) := constantCapacity,
                         nat (arcCount st * 4 + 3) := multiplierCapacity],
                     arcCount := arcCount st + 1 \<rparr>))"
| "readLine OtherLine st = Inr st"

fun readLines :: "line list \<Rightarrow> ReadState \<Rightarrow> load_error + ReadState" where
  "readLines [] st = Inr st"
| "readLines (l # ls) st =
     (case readLine l st of Inl e \<Rightarrow> Inl e | Inr st' \<Rightarrow> readLines ls st')"

definition readData :: "line list \<Rightarrow> load_error + ReadState" where
  "readData ls =
     (case readLines ls initialReadState of
        Inl e \<Rightarrow> Inl e
      | Inr st \<Rightarrow>
          (let st' = (if numRemovedArcs st > 0
                      then st\<lparr> rNumArcs := rNumArcs st - numRemovedArcs st,
                               arcMatrix := take (nat ((rNumArcs st - numRemovedArcs st) * 4))
                                              (arcMatrix st) \<rparr>
                      else st)
           in if arcCount st' \<noteq> rNumArcs st' then Inl IncorrectNumberOfArcs
              else if isSourceAssigned st' = 0 then Inl SourceNotAssigned
              else if isSinkAssigned st' = 0 then Inl SinkNotAssigned
              else if rSource st' = rSink st' then Inl SourceEqualsSink
              else Inr st'))"

section \<open>Notions used to state properties\<close>

subsection \<open>Placement of the undecided nodes by contractProblem\<close>

text \<open>
  The three outcomes for the undecided parent node at index \<open>i\<close> of the parent's node
  list, with \<open>j\<close> its original index: to the source set when \<open>lowInd[j] = 1\<close>, otherwise
  to the sink set when \<open>highInd[j] = 0\<close>, otherwise carried forward.
\<close>

definition toSource :: "Node list \<Rightarrow> nat list \<Rightarrow> nat \<Rightarrow> bool" where
  "toSource oldNodes lowInd i = (lowInd ! uint_of_int (originalIndex (oldNodes ! i)) = 1)"

definition toSink :: "Node list \<Rightarrow> nat list \<Rightarrow> nat list \<Rightarrow> nat \<Rightarrow> bool" where
  "toSink oldNodes lowInd highInd i =
     (lowInd ! uint_of_int (originalIndex (oldNodes ! i)) \<noteq> 1
      \<and> highInd ! uint_of_int (originalIndex (oldNodes ! i)) = 0)"

definition staysUndecided :: "Node list \<Rightarrow> nat list \<Rightarrow> nat list \<Rightarrow> nat \<Rightarrow> bool" where
  "staysUndecided oldNodes lowInd highInd i =
     (lowInd ! uint_of_int (originalIndex (oldNodes ! i)) \<noteq> 1
      \<and> highInd ! uint_of_int (originalIndex (oldNodes ! i)) \<noteq> 0)"

subsection \<open>Collapsing runs of equal lambda values\<close>

text \<open>
  What the specification asks of the pass over the breakpoint list: of every run of
  consecutive records with equal lambda value, the first record is kept.
\<close>

fun keepFirstOfRuns :: "Breakpoint list \<Rightarrow> Breakpoint list" where
  "keepFirstOfRuns [] = []"
| "keepFirstOfRuns [c] = [c]"
| "keepFirstOfRuns (c # n # rest) =
     (if bpLambdaValue c = bpLambdaValue n then keepFirstOfRuns (c # rest)
      else c # keepFirstOfRuns (n # rest))"

text \<open>No lambda value occurs three times in a row.\<close>

fun noTripleRun :: "Breakpoint list \<Rightarrow> bool" where
  "noTripleRun (a # b # c # rest) =
     (\<not> (bpLambdaValue a = bpLambdaValue b \<and> bpLambdaValue b = bpLambdaValue c)
      \<and> noTripleRun (b # c # rest))"
| "noTripleRun bps = True"

subsection \<open>The two halves of solveProblem\<close>

text \<open>
  For a problem with more than two nodes, \<open>solveEntry\<close> is the engine state on which
  \<open>solveProblem\<close> calls \<open>createMemoryStructures\<close> and \<open>simpleInitialization\<close>, and \<open>solveExit\<close>
  is what it returns from the state in which \<open>pseudoflowPhase1\<close> has returned.
\<close>

definition solveEntry :: "Engine \<Rightarrow> CutProblem \<Rightarrow> nat \<Rightarrow> Engine" where
  "solveEntry e problem maximalSourceSet =
     (let e1 = e\<lparr> nodesList := nodeList problem, numNodes := numNodesInList problem,
                  numArcs := numArcsP problem \<rparr>
      in if maximalSourceSet = 1
         then e1\<lparr> source := 1, sink := 0,
                  arcList := map reverseArc (take (numArcs e1) (arcListP problem)) \<rparr>
         else e1\<lparr> source := 0, sink := 1, arcList := arcListP problem \<rparr>)"

definition solveExit :: "nat \<Rightarrow> Engine \<Rightarrow> CutProblem \<Rightarrow> Engine \<times> CutProblem" where
  "solveExit maximalSourceSet e3 problem =
     (let p1 = problem\<lparr> cutMultiplier := 0, cutConstant := 0, cutValue := 0 \<rparr>;
          nodeCount = numNodesInList p1 + numSourceSet p1 + numSinkSet p1 - 2;
          temp = markSet (sinkSet p1) (numSinkSet p1) 0
                   (markSet (sourceSet p1) (numSourceSet p1) 1
                      (fold (labelToSide maximalSourceSet e3) [2..<numNodes e3]
                         (mallocUint nodeCount)));
          p2 = p1\<lparr> optimalSourceSetIndicator := temp,
                   nodeList := nodesList e3,
                   arcListP := (if maximalSourceSet = 1 then arcListP p1 else arcList e3) \<rparr>;
          p3 = evaluateCut p2;
          e4 = freeMemorySolve (if maximalSourceSet = 1 then e3\<lparr>arcList := []\<rparr> else e3)
      in (e4, p3\<lparr>nodeList := nodesList e4\<rparr>))"

subsection \<open>Example inputs\<close>

definition mkArc :: "nat \<Rightarrow> nat \<Rightarrow> real \<Rightarrow> real \<Rightarrow> Arc" where
  "mkArc f t c m = \<lparr> arcFrom = Some f, arcTo = Some t, flow = 0, capacity = 0,
                     arcConstant = c, multiplier = m, direction = 1 \<rparr>"

definition mkNode :: "nat \<Rightarrow> int \<Rightarrow> nat \<Rightarrow> Node" where
  "mkNode n oi adj = (initializeNode n)\<lparr> originalIndex := oi, numAdjacent := adj \<rparr>"

text \<open>
  Scenario 5 of the specification: one arc with constant 0 and multiplier \<open>- 1\<close>,
  evaluated at lambda = 2.
\<close>

definition negativeArcProblem :: CutProblem where
  "negativeArcProblem =
     \<lparr> numNodesInList = 2, numSourceSet = 1, numSinkSet = 1, numArcsP = 1,
       solved = 0, lambdaValue = 2,
       arcListP = [mkArc 0 1 0 (- 1)],
       nodeList = [mkNode 0 (- 1) 1, mkNode 1 (- 2) 1],
       cutValue = 0, cutMultiplier = 0, cutConstant = 0,
       sourceSet = [mkNode 0 0 0], sinkSet = [mkNode 0 1 0],
       optimalSourceSetIndicator = [] \<rparr>"

text \<open>
  One arc with constant 4666009041 and multiplier \<open>- 46660090410\<close>, evaluated at the double
  \<open>0.1\<close>. The exact value \<open>constant + multiplier * lambda\<close> is about \<open>- 2.6e-7\<close>.
\<close>

definition roundedArcProblem :: CutProblem where
  "roundedArcProblem =
     \<lparr> numNodesInList = 2, numSourceSet = 1, numSinkSet = 1, numArcsP = 1,
       solved = 0, lambdaValue = 3602879701896397 / 2 ^ 55,
       arcListP = [mkArc 0 1 4666009041 (- 46660090410)],
       nodeList = [mkNode 0 (- 1) 1, mkNode 1 (- 2) 1],
       cutValue = 0, cutMultiplier = 0, cutConstant = 0,
       sourceSet = [mkNode 0 0 0], sinkSet = [mkNode 0 1 0],
       optimalSourceSetIndicator = [] \<rparr>"

text \<open>
  A solved parent problem over five original nodes, source 0 and sink 4, with the
  undecided nodes 1, 2 and 3, and the problem that contracting it at lambda = 1 with
  \<open>lowInd = [1,1,0,0,0]\<close> and \<open>highInd = [1,1,1,0,0]\<close> gives: node 1 joins the source set,
  node 3 the sink set, node 2 stays.
\<close>

definition parentProblem :: CutProblem where
  "parentProblem =
     \<lparr> numNodesInList = 5, numSourceSet = 1, numSinkSet = 1, numArcsP = 2,
       solved = 1, lambdaValue = 0,
       arcListP = [mkArc 0 3 0 1, mkArc 2 3 3 0],
       nodeList = [mkNode 0 (- 1) 1, mkNode 1 (- 2) 0, mkNode 2 1 1, mkNode 3 2 2, mkNode 4 3 0],
       cutValue = 0, cutMultiplier = 0, cutConstant = 0,
       sourceSet = [mkNode 0 0 0], sinkSet = [mkNode 0 4 0],
       optimalSourceSetIndicator = [1, 1, 0, 0, 0] \<rparr>"

definition contractedProblem :: CutProblem where
  "contractedProblem =
     \<lparr> numNodesInList = 3, numSourceSet = 2, numSinkSet = 2, numArcsP = 1,
       solved = 0, lambdaValue = 1,
       arcListP = [(mkArc 0 2 3 1)\<lparr>capacity := 4\<rparr>],
       nodeList = [mkNode 0 (- 1) 1, mkNode 1 (- 2) 0, mkNode 2 2 1],
       cutValue = 0, cutMultiplier = 0, cutConstant = 0,
       sourceSet = [mkNode 0 0 0, mkNode 1 1 0], sinkSet = [mkNode 0 4 0, mkNode 1 3 0],
       optimalSourceSetIndicator = [] \<rparr>"

text \<open>The state of \<open>readData\<close> after the lines \<open>p 2 1 0 1 0\<close>, \<open>n 0 s\<close> and \<open>n 1 t\<close>.\<close>

definition twoNodeReadState :: ReadState where
  "twoNodeReadState =
     \<lparr> rNumNodes = 2, rNumArcs = 1, lambdaRange = (0, 1), rRoundNegativeCapacity = 0,
       arcCount = 0, numRemovedArcs = 0, isSourceAssigned = 1, isSinkAssigned = 1,
       rSource = 0, rSink = 1, arcMatrix = [0, 0, 0, 0] \<rparr>"

subsection \<open>The strong-root buckets as linked lists\<close>

text \<open>
  The nodes of a bucket, read from its \<open>start\<close> pointer along the \<open>next\<close> pointers; the
  third argument bounds the number of nodes read.
\<close>

fun bucketNodes :: "Node list \<Rightarrow> nat option \<Rightarrow> nat \<Rightarrow> nat list" where
  "bucketNodes nl None n = []"
| "bucketNodes nl (Some i) 0 = []"
| "bucketNodes nl (Some i) (Suc n) = i # bucketNodes nl (nextNode (nl ! i)) n"

text \<open>The nodes of \<open>P\<close> are linked in this order and the last one ends the list.\<close>

fun chain :: "Node list \<Rightarrow> nat list \<Rightarrow> bool" where
  "chain nl [] = True"
| "chain nl [a] = (nextNode (nl ! a) = None)"
| "chain nl (a # b # r) = (nextNode (nl ! a) = Some b \<and> chain nl (b # r))"

definition bucketInv :: "Node list \<Rightarrow> Root list \<Rightarrow> nat list \<Rightarrow> bool" where
  "bucketInv nl sr P =
     ((P = [] \<longrightarrow> rstart (sr ! 1) = None)
      \<and> (P \<noteq> [] \<longrightarrow> rstart (sr ! 1) = Some (hd P) \<and> rend (sr ! 1) = Some (last P))
      \<and> chain nl P)"

text \<open>
  A run with two solves by the engine: four nodes, source 0, sink 3, the arcs 0 to 1
  (capacity 5), 2 to 3 (capacity 2) and 1 to 2 (capacity 1), all constant, on the range
  from 0 to 1. \<open>chainGlobals\<close> is the state after \<open>readGraphSuper\<close> and \<open>chainProblem lam\<close> the
  problem that \<open>initializeProblem\<close> builds at \<open>lam\<close>: artificial source 0, artificial sink 1,
  and the original nodes 1 and 2 as nodes 2 and 3.
\<close>

definition chainGlobals :: Globals where
  "chainGlobals =
     reset_globals\<lparr> numNodesSuper := 4, numArcsSuper := 3, LAMBDA_LOW := 0, LAMBDA_HIGH := 1,
       engine := (engine reset_globals)\<lparr> source := 0, sink := 3 \<rparr>,
       nodeListSuper := [mkNode 0 0 1, mkNode 1 1 2, mkNode 2 2 2, mkNode 3 3 1],
       arcListSuper := [mkArc 0 1 5 0, mkArc 2 3 2 0, mkArc 1 2 1 0] \<rparr>"

definition chainProblem :: "real \<Rightarrow> CutProblem" where
  "chainProblem lam =
     \<lparr> numNodesInList = 4, numSourceSet = 1, numSinkSet = 1, numArcsP = 3,
       solved = 0, lambdaValue = lam,
       arcListP = [(mkArc 0 2 5 0)\<lparr>capacity := 5\<rparr>, (mkArc 3 1 2 0)\<lparr>capacity := 2\<rparr>,
                   (mkArc 2 3 1 0)\<lparr>capacity := 1\<rparr>],
       nodeList = [mkNode 0 (- 1) 1, mkNode 1 (- 2) 1, mkNode 2 1 2, mkNode 3 2 2],
       cutValue = 0, cutMultiplier = 0, cutConstant = 0,
       sourceSet = [mkNode 0 0 0], sinkSet = [mkNode 0 3 0],
       optimalSourceSetIndicator = [] \<rparr>"

text \<open>
  The first solve (the problem at \<open>lambda = 0\<close>, minimal source set): the engine state
  after \<open>simpleInitialization\<close>, the state in which \<open>pseudoflowPhase1\<close> returns, and the
  engine state and the problem that \<open>solveProblem\<close> returns. Node 2 is merged with node 3,
  pushes one unit over the arc between them, is relabelled (which increments
  \<open>highestStrongLabel\<close>) and is lifted to the label 4 through the gap at label 1.
\<close>

definition chainStartLow :: Engine where
  "chainStartLow =
     \<lparr> numNodes = 4, numArcs = 3, source = 0, sink = 1, highestStrongLabel = 1,
       numArcScans = 0, numPushes = 0, numMergers = 0, numRelabels = 0, numGaps = 0,
       nodesList =
         [(mkNode 0 (- 1) 1)\<lparr> label := 4, numOutOfTree := 1, outOfTree := [0] \<rparr>,
          (mkNode 1 (- 2) 1)\<lparr> numOutOfTree := 1, outOfTree := [1] \<rparr>,
          (mkNode 2 1 2)\<lparr> label := 1, excess := 5, numOutOfTree := 1, outOfTree := [2, 0] \<rparr>,
          (mkNode 3 2 2)\<lparr> excess := - 2, outOfTree := [0, 0] \<rparr>],
       strongRoots = [\<lparr>rstart = None, rend = None\<rparr>, \<lparr>rstart = Some 2, rend = Some 2\<rparr>,
                      \<lparr>rstart = None, rend = None\<rparr>, \<lparr>rstart = None, rend = None\<rparr>],
       labelCount = [1, 1, 0, 0],
       arcList = [(mkArc 0 2 5 0)\<lparr>capacity := 5, flow := 5\<rparr>,
                  (mkArc 3 1 2 0)\<lparr>capacity := 2, flow := 2\<rparr>,
                  (mkArc 2 3 1 0)\<lparr>capacity := 1\<rparr>] \<rparr>"

definition chainEndLow :: Engine where
  "chainEndLow =
     \<lparr> numNodes = 4, numArcs = 3, source = 0, sink = 1, highestStrongLabel = 2,
       numArcScans = 1, numPushes = 1, numMergers = 1, numRelabels = 1, numGaps = 1,
       nodesList =
         [(mkNode 0 (- 1) 1)\<lparr> label := 4, numOutOfTree := 1, outOfTree := [0] \<rparr>,
          (mkNode 1 (- 2) 1)\<lparr> numOutOfTree := 1, outOfTree := [1] \<rparr>,
          (mkNode 2 1 2)\<lparr> label := 4, excess := 4, outOfTree := [2, 0], arcToParent := Some 2 \<rparr>,
          (mkNode 3 2 2)\<lparr> excess := - 1, numOutOfTree := 1, outOfTree := [2, 0] \<rparr>],
       strongRoots = [\<lparr>rstart = None, rend = None\<rparr>, \<lparr>rstart = None, rend = Some 2\<rparr>,
                      \<lparr>rstart = None, rend = Some 2\<rparr>, \<lparr>rstart = None, rend = None\<rparr>],
       labelCount = [1, 0, 0, 0],
       arcList = [(mkArc 0 2 5 0)\<lparr>capacity := 5, flow := 5\<rparr>,
                  (mkArc 3 1 2 0)\<lparr>capacity := 2, flow := 2\<rparr>,
                  (mkArc 2 3 1 0)\<lparr>capacity := 1, flow := 1, direction := 0\<rparr>] \<rparr>"

definition chainEngineLow :: Engine where
  "chainEngineLow =
     chainEndLow\<lparr>
       nodesList :=
         [(mkNode 0 (- 1) 1)\<lparr> label := 4, numOutOfTree := 1 \<rparr>,
          (mkNode 1 (- 2) 1)\<lparr> numOutOfTree := 1 \<rparr>,
          (mkNode 2 1 2)\<lparr> label := 4, excess := 4, arcToParent := Some 2 \<rparr>,
          (mkNode 3 2 2)\<lparr> excess := - 1, numOutOfTree := 1 \<rparr>],
       strongRoots := [], labelCount := [] \<rparr>"

definition chainSolvedLow :: CutProblem where
  "chainSolvedLow =
     (chainProblem 0)\<lparr> arcListP := arcList chainEndLow, nodeList := nodesList chainEngineLow,
       cutValue := 1, cutConstant := 1, optimalSourceSetIndicator := [1, 1, 0, 0] \<rparr>"

text \<open>
  The second solve of the same run (the problem at \<open>lambda = 1\<close>, maximal source set, so on
  the reversed arcs with source 1 and sink 0): \<open>exampleEngine\<close> is the state in which
  \<open>solveProblem\<close> calls \<open>createMemoryStructures\<close>, \<open>exampleEngineInit\<close> the state after
  \<open>simpleInitialization\<close>. The counters and \<open>highestStrongLabel = 2\<close> are what the first solve
  left. The last three are the state in which \<open>pseudoflowPhase1\<close> returns and what
  \<open>solveProblem\<close> returns.
\<close>

definition exampleEngine :: Engine where
  "exampleEngine =
     \<lparr> numNodes = 4, numArcs = 3, source = 1, sink = 0, highestStrongLabel = 2,
       numArcScans = 1, numPushes = 1, numMergers = 1, numRelabels = 1, numGaps = 1,
       nodesList = [mkNode 0 (- 1) 1, mkNode 1 (- 2) 1, mkNode 2 1 2, mkNode 3 2 2],
       strongRoots = [], labelCount = [],
       arcList = [(mkArc 2 0 0 0)\<lparr>capacity := 5\<rparr>, (mkArc 1 3 0 0)\<lparr>capacity := 2\<rparr>,
                  (mkArc 3 2 0 0)\<lparr>capacity := 1\<rparr>] \<rparr>"

definition exampleEngineInit :: Engine where
  "exampleEngineInit =
     \<lparr> numNodes = 4, numArcs = 3, source = 1, sink = 0, highestStrongLabel = 2,
       numArcScans = 1, numPushes = 1, numMergers = 1, numRelabels = 1, numGaps = 1,
       nodesList =
         [(mkNode 0 (- 1) 1)\<lparr> numOutOfTree := 1, outOfTree := [0] \<rparr>,
          (mkNode 1 (- 2) 1)\<lparr> label := 4, numOutOfTree := 1, outOfTree := [1] \<rparr>,
          (mkNode 2 1 2)\<lparr> excess := - 5, outOfTree := [0, 0] \<rparr>,
          (mkNode 3 2 2)\<lparr> label := 1, excess := 2, numOutOfTree := 1, outOfTree := [2, 0] \<rparr>],
       strongRoots = [\<lparr>rstart = None, rend = None\<rparr>, \<lparr>rstart = Some 3, rend = Some 3\<rparr>,
                      \<lparr>rstart = None, rend = None\<rparr>, \<lparr>rstart = None, rend = None\<rparr>],
       labelCount = [1, 1, 0, 0],
       arcList = [(mkArc 2 0 0 0)\<lparr>capacity := 5, flow := 5\<rparr>,
                  (mkArc 1 3 0 0)\<lparr>capacity := 2, flow := 2\<rparr>,
                  (mkArc 3 2 0 0)\<lparr>capacity := 1\<rparr>] \<rparr>"

definition chainEndHigh :: Engine where
  "chainEndHigh =
     \<lparr> numNodes = 4, numArcs = 3, source = 1, sink = 0, highestStrongLabel = 2,
       numArcScans = 2, numPushes = 2, numMergers = 2, numRelabels = 2, numGaps = 2,
       nodesList =
         [(mkNode 0 (- 1) 1)\<lparr> numOutOfTree := 1, outOfTree := [0] \<rparr>,
          (mkNode 1 (- 2) 1)\<lparr> label := 4, numOutOfTree := 1, outOfTree := [1] \<rparr>,
          (mkNode 2 1 2)\<lparr> excess := - 4, numOutOfTree := 1, outOfTree := [2, 0] \<rparr>,
          (mkNode 3 2 2)\<lparr> label := 4, excess := 1, outOfTree := [2, 0], arcToParent := Some 2 \<rparr>],
       strongRoots = [\<lparr>rstart = None, rend = None\<rparr>, \<lparr>rstart = None, rend = Some 3\<rparr>,
                      \<lparr>rstart = None, rend = Some 3\<rparr>, \<lparr>rstart = None, rend = None\<rparr>],
       labelCount = [1, 0, 0, 0],
       arcList = [(mkArc 2 0 0 0)\<lparr>capacity := 5, flow := 5\<rparr>,
                  (mkArc 1 3 0 0)\<lparr>capacity := 2, flow := 2\<rparr>,
                  (mkArc 3 2 0 0)\<lparr>capacity := 1, flow := 1, direction := 0\<rparr>] \<rparr>"

definition chainEngineHigh :: Engine where
  "chainEngineHigh =
     chainEndHigh\<lparr>
       nodesList :=
         [(mkNode 0 (- 1) 1)\<lparr> numOutOfTree := 1 \<rparr>,
          (mkNode 1 (- 2) 1)\<lparr> label := 4, numOutOfTree := 1 \<rparr>,
          (mkNode 2 1 2)\<lparr> excess := - 4, numOutOfTree := 1 \<rparr>,
          (mkNode 3 2 2)\<lparr> label := 4, excess := 1, arcToParent := Some 2 \<rparr>],
       strongRoots := [], labelCount := [], arcList := [] \<rparr>"

definition chainSolvedHigh :: CutProblem where
  "chainSolvedHigh =
     (chainProblem 1)\<lparr> nodeList := nodesList chainEngineHigh,
       cutValue := 1, cutConstant := 1, optimalSourceSetIndicator := [1, 1, 0, 0] \<rparr>"

text \<open>
  A run in which a later solve is of a smaller problem: five nodes, source 0, sink 4, the
  arcs 0 to 3 (capacity 4), 3 to 1 (capacity 3), 1 to 4 (capacity \<open>5 - lambda\<close>) and 2 to 4
  (capacity 2), on the range from 0 to 4. \<open>spurGlobals\<close> is the state after
  \<open>readGraphSuper\<close>; \<open>spurProblemLow\<close> and \<open>spurProblemHigh\<close> are the problems that
  \<open>initializeProblem\<close> builds at the two ends of the range: artificial source 0,
  artificial sink 1, and the original nodes 1, 2 and 3 as nodes 2, 3 and 4.
\<close>

definition spurGlobals :: Globals where
  "spurGlobals =
     reset_globals\<lparr> numNodesSuper := 5, numArcsSuper := 4, LAMBDA_LOW := 0, LAMBDA_HIGH := 4,
       engine := (engine reset_globals)\<lparr> source := 0, sink := 4 \<rparr>,
       nodeListSuper := [mkNode 0 0 1, mkNode 1 1 2, mkNode 2 2 1, mkNode 3 3 2, mkNode 4 4 2],
       arcListSuper := [mkArc 0 3 4 0, mkArc 3 1 3 0, mkArc 1 4 5 (- 1), mkArc 2 4 2 0] \<rparr>"

definition spurProblemLow :: CutProblem where
  "spurProblemLow =
     \<lparr> numNodesInList = 5, numSourceSet = 1, numSinkSet = 1, numArcsP = 4,
       solved = 0, lambdaValue = 0,
       arcListP = [(mkArc 0 4 4 0)\<lparr>capacity := 4\<rparr>,
                   (mkArc 4 2 3 0)\<lparr>capacity := 3\<rparr>,
                   (mkArc 2 1 5 (- 1))\<lparr>capacity := 5\<rparr>,
                   (mkArc 3 1 2 0)\<lparr>capacity := 2\<rparr>],
       nodeList =
         [mkNode 0 (- 1) 1,
          mkNode 1 (- 2) 2,
          mkNode 2 1 2,
          mkNode 3 2 1,
          mkNode 4 3 2],
       cutValue = 0, cutMultiplier = 0, cutConstant = 0,
       sourceSet = [mkNode 0 0 0],
       sinkSet = [mkNode 0 4 0],
       optimalSourceSetIndicator = [] \<rparr>"

definition spurProblemHigh :: CutProblem where
  "spurProblemHigh =
     \<lparr> numNodesInList = 5, numSourceSet = 1, numSinkSet = 1, numArcsP = 4,
       solved = 0, lambdaValue = 4,
       arcListP = [(mkArc 0 4 4 0)\<lparr>capacity := 4\<rparr>,
                   (mkArc 4 2 3 0)\<lparr>capacity := 3\<rparr>,
                   (mkArc 2 1 5 (- 1))\<lparr>capacity := 1\<rparr>,
                   (mkArc 3 1 2 0)\<lparr>capacity := 2\<rparr>],
       nodeList =
         [mkNode 0 (- 1) 1,
          mkNode 1 (- 2) 2,
          mkNode 2 1 2,
          mkNode 3 2 1,
          mkNode 4 3 2],
       cutValue = 0, cutMultiplier = 0, cutConstant = 0,
       sourceSet = [mkNode 0 0 0],
       sinkSet = [mkNode 0 4 0],
       optimalSourceSetIndicator = [] \<rparr>"

text \<open>
  The first solve (\<open>lambda = 0\<close>, minimal source set): the engine state after
  \<open>simpleInitialization\<close>, the state in which \<open>pseudoflowPhase1\<close> returns, and what
  \<open>solveProblem\<close> returns.
\<close>

definition spurStartLow :: Engine where
  "spurStartLow =
     \<lparr> numNodes = 5, numArcs = 4, source = 0, sink = 1, highestStrongLabel = 1,
       numArcScans = 0, numPushes = 0, numMergers = 0, numRelabels = 0, numGaps = 0,
       nodesList =
         [(mkNode 0 (- 1) 1)\<lparr> label := 5, numOutOfTree := 1, outOfTree := [0] \<rparr>,
          (mkNode 1 (- 2) 2)\<lparr> numOutOfTree := 2, outOfTree := [2, 3] \<rparr>,
          (mkNode 2 1 2)\<lparr> excess := - 5, outOfTree := [0, 0] \<rparr>,
          (mkNode 3 2 1)\<lparr> excess := - 2, outOfTree := [0] \<rparr>,
          (mkNode 4 3 2)\<lparr> label := 1, excess := 4, numOutOfTree := 1, outOfTree := [1, 0] \<rparr>],
       strongRoots = [\<lparr>rstart = None, rend = None\<rparr>,
                      \<lparr>rstart = Some 4, rend = Some 4\<rparr>,
                      \<lparr>rstart = None, rend = None\<rparr>,
                      \<lparr>rstart = None, rend = None\<rparr>,
                      \<lparr>rstart = None, rend = None\<rparr>],
       labelCount = [2, 1, 0, 0, 0],
       arcList = [(mkArc 0 4 4 0)\<lparr>capacity := 4, flow := 4\<rparr>,
                  (mkArc 4 2 3 0)\<lparr>capacity := 3\<rparr>,
                  (mkArc 2 1 5 (- 1))\<lparr>capacity := 5, flow := 5\<rparr>,
                  (mkArc 3 1 2 0)\<lparr>capacity := 2, flow := 2\<rparr>] \<rparr>"

definition spurEndLow :: Engine where
  "spurEndLow =
     \<lparr> numNodes = 5, numArcs = 4, source = 0, sink = 1, highestStrongLabel = 2,
       numArcScans = 1, numPushes = 1, numMergers = 1, numRelabels = 1, numGaps = 1,
       nodesList =
         [(mkNode 0 (- 1) 1)\<lparr> label := 5, numOutOfTree := 1, outOfTree := [0] \<rparr>,
          (mkNode 1 (- 2) 2)\<lparr> numOutOfTree := 2, outOfTree := [2, 3] \<rparr>,
          (mkNode 2 1 2)\<lparr> excess := - 2, numOutOfTree := 1, outOfTree := [1, 0] \<rparr>,
          (mkNode 3 2 1)\<lparr> excess := - 2, outOfTree := [0] \<rparr>,
          (mkNode 4 3 2)\<lparr> label := 5, excess := 1, outOfTree := [1, 0], arcToParent := Some 1 \<rparr>],
       strongRoots = [\<lparr>rstart = None, rend = None\<rparr>,
                      \<lparr>rstart = None, rend = Some 4\<rparr>,
                      \<lparr>rstart = None, rend = Some 4\<rparr>,
                      \<lparr>rstart = None, rend = None\<rparr>,
                      \<lparr>rstart = None, rend = None\<rparr>],
       labelCount = [2, 0, 0, 0, 0],
       arcList = [(mkArc 0 4 4 0)\<lparr>capacity := 4, flow := 4\<rparr>,
                  (mkArc 4 2 3 0)\<lparr>capacity := 3, flow := 3, direction := 0\<rparr>,
                  (mkArc 2 1 5 (- 1))\<lparr>capacity := 5, flow := 5\<rparr>,
                  (mkArc 3 1 2 0)\<lparr>capacity := 2, flow := 2\<rparr>] \<rparr>"

definition spurEngineLow :: Engine where
  "spurEngineLow =
     \<lparr> numNodes = 5, numArcs = 4, source = 0, sink = 1, highestStrongLabel = 2,
       numArcScans = 1, numPushes = 1, numMergers = 1, numRelabels = 1, numGaps = 1,
       nodesList =
         [(mkNode 0 (- 1) 1)\<lparr> label := 5, numOutOfTree := 1 \<rparr>,
          (mkNode 1 (- 2) 2)\<lparr> numOutOfTree := 2 \<rparr>,
          (mkNode 2 1 2)\<lparr> excess := - 2, numOutOfTree := 1 \<rparr>,
          (mkNode 3 2 1)\<lparr> excess := - 2 \<rparr>,
          (mkNode 4 3 2)\<lparr> label := 5, excess := 1, arcToParent := Some 1 \<rparr>],
       strongRoots = [],
       labelCount = [],
       arcList = [(mkArc 0 4 4 0)\<lparr>capacity := 4, flow := 4\<rparr>,
                  (mkArc 4 2 3 0)\<lparr>capacity := 3, flow := 3, direction := 0\<rparr>,
                  (mkArc 2 1 5 (- 1))\<lparr>capacity := 5, flow := 5\<rparr>,
                  (mkArc 3 1 2 0)\<lparr>capacity := 2, flow := 2\<rparr>] \<rparr>"

definition spurSolvedLow :: CutProblem where
  "spurSolvedLow =
     \<lparr> numNodesInList = 5, numSourceSet = 1, numSinkSet = 1, numArcsP = 4,
       solved = 0, lambdaValue = 0,
       arcListP = [(mkArc 0 4 4 0)\<lparr>capacity := 4, flow := 4\<rparr>,
                   (mkArc 4 2 3 0)\<lparr>capacity := 3, flow := 3, direction := 0\<rparr>,
                   (mkArc 2 1 5 (- 1))\<lparr>capacity := 5, flow := 5\<rparr>,
                   (mkArc 3 1 2 0)\<lparr>capacity := 2, flow := 2\<rparr>],
       nodeList =
         [(mkNode 0 (- 1) 1)\<lparr> label := 5, numOutOfTree := 1 \<rparr>,
          (mkNode 1 (- 2) 2)\<lparr> numOutOfTree := 2 \<rparr>,
          (mkNode 2 1 2)\<lparr> excess := - 2, numOutOfTree := 1 \<rparr>,
          (mkNode 3 2 1)\<lparr> excess := - 2 \<rparr>,
          (mkNode 4 3 2)\<lparr> label := 5, excess := 1, arcToParent := Some 1 \<rparr>],
       cutValue = 3, cutMultiplier = 0, cutConstant = 3,
       sourceSet = [mkNode 0 0 0],
       sinkSet = [mkNode 0 4 0],
       optimalSourceSetIndicator = [1, 0, 0, 1, 0] \<rparr>"

text \<open>
  The second solve (\<open>lambda = 4\<close>, maximal source set, on the reversed arcs). Node 3, which
  has excess and no arc to push it along, is relabelled twice before it is lifted to the
  label 5, and \<open>highestStrongLabel\<close> is 3 when the solve ends.
\<close>

definition spurStartHigh :: Engine where
  "spurStartHigh =
     \<lparr> numNodes = 5, numArcs = 4, source = 1, sink = 0, highestStrongLabel = 2,
       numArcScans = 1, numPushes = 1, numMergers = 1, numRelabels = 1, numGaps = 1,
       nodesList =
         [(mkNode 0 (- 1) 1)\<lparr> numOutOfTree := 1, outOfTree := [0] \<rparr>,
          (mkNode 1 (- 2) 2)\<lparr> label := 5, numOutOfTree := 2, outOfTree := [2, 3] \<rparr>,
          (mkNode 2 1 2)\<lparr> label := 1, excess := 1, numOutOfTree := 1, outOfTree := [1, 0], nextNode := Some 3 \<rparr>,
          (mkNode 3 2 1)\<lparr> label := 1, excess := 2, outOfTree := [0] \<rparr>,
          (mkNode 4 3 2)\<lparr> excess := - 4, outOfTree := [0, 0] \<rparr>],
       strongRoots = [\<lparr>rstart = None, rend = None\<rparr>,
                      \<lparr>rstart = Some 2, rend = Some 3\<rparr>,
                      \<lparr>rstart = None, rend = None\<rparr>,
                      \<lparr>rstart = None, rend = None\<rparr>,
                      \<lparr>rstart = None, rend = None\<rparr>],
       labelCount = [1, 2, 0, 0, 0],
       arcList = [(mkArc 4 0 0 0)\<lparr>capacity := 4, flow := 4\<rparr>,
                  (mkArc 2 4 0 0)\<lparr>capacity := 3\<rparr>,
                  (mkArc 1 2 0 0)\<lparr>capacity := 1, flow := 1\<rparr>,
                  (mkArc 1 3 0 0)\<lparr>capacity := 2, flow := 2\<rparr>] \<rparr>"

definition spurEndHigh :: Engine where
  "spurEndHigh =
     \<lparr> numNodes = 5, numArcs = 4, source = 1, sink = 0, highestStrongLabel = 3,
       numArcScans = 2, numPushes = 2, numMergers = 2, numRelabels = 3, numGaps = 2,
       nodesList =
         [(mkNode 0 (- 1) 1)\<lparr> numOutOfTree := 1, outOfTree := [0] \<rparr>,
          (mkNode 1 (- 2) 2)\<lparr> label := 5, numOutOfTree := 2, outOfTree := [2, 3] \<rparr>,
          (mkNode 2 1 2)\<lparr> label := 1, parent := Some 4, outOfTree := [1, 0], arcToParent := Some 1 \<rparr>,
          (mkNode 3 2 1)\<lparr> label := 5, excess := 2, outOfTree := [0] \<rparr>,
          (mkNode 4 3 2)\<lparr> excess := - 3, childList := Some 2, outOfTree := [0, 0] \<rparr>],
       strongRoots = [\<lparr>rstart = None, rend = None\<rparr>,
                      \<lparr>rstart = None, rend = Some 3\<rparr>,
                      \<lparr>rstart = None, rend = Some 3\<rparr>,
                      \<lparr>rstart = None, rend = Some 3\<rparr>,
                      \<lparr>rstart = None, rend = None\<rparr>],
       labelCount = [1, 1, 0, 0, 0],
       arcList = [(mkArc 4 0 0 0)\<lparr>capacity := 4, flow := 4\<rparr>,
                  (mkArc 2 4 0 0)\<lparr>capacity := 3, flow := 1\<rparr>,
                  (mkArc 1 2 0 0)\<lparr>capacity := 1, flow := 1\<rparr>,
                  (mkArc 1 3 0 0)\<lparr>capacity := 2, flow := 2\<rparr>] \<rparr>"

definition spurEngineHigh :: Engine where
  "spurEngineHigh =
     \<lparr> numNodes = 5, numArcs = 4, source = 1, sink = 0, highestStrongLabel = 3,
       numArcScans = 2, numPushes = 2, numMergers = 2, numRelabels = 3, numGaps = 2,
       nodesList =
         [(mkNode 0 (- 1) 1)\<lparr> numOutOfTree := 1 \<rparr>,
          (mkNode 1 (- 2) 2)\<lparr> label := 5, numOutOfTree := 2 \<rparr>,
          (mkNode 2 1 2)\<lparr> label := 1, parent := Some 4, arcToParent := Some 1 \<rparr>,
          (mkNode 3 2 1)\<lparr> label := 5, excess := 2 \<rparr>,
          (mkNode 4 3 2)\<lparr> excess := - 3, childList := Some 2 \<rparr>],
       strongRoots = [],
       labelCount = [],
       arcList = [] \<rparr>"

definition spurSolvedHigh :: CutProblem where
  "spurSolvedHigh =
     \<lparr> numNodesInList = 5, numSourceSet = 1, numSinkSet = 1, numArcsP = 4,
       solved = 0, lambdaValue = 4,
       arcListP = [(mkArc 0 4 4 0)\<lparr>capacity := 4\<rparr>,
                   (mkArc 4 2 3 0)\<lparr>capacity := 3\<rparr>,
                   (mkArc 2 1 5 (- 1))\<lparr>capacity := 1\<rparr>,
                   (mkArc 3 1 2 0)\<lparr>capacity := 2\<rparr>],
       nodeList =
         [(mkNode 0 (- 1) 1)\<lparr> numOutOfTree := 1 \<rparr>,
          (mkNode 1 (- 2) 2)\<lparr> label := 5, numOutOfTree := 2 \<rparr>,
          (mkNode 2 1 2)\<lparr> label := 1, parent := Some 4, arcToParent := Some 1 \<rparr>,
          (mkNode 3 2 1)\<lparr> label := 5, excess := 2 \<rparr>,
          (mkNode 4 3 2)\<lparr> excess := - 3, childList := Some 2 \<rparr>],
       cutValue = 1, cutMultiplier = - 1, cutConstant = 5,
       sourceSet = [mkNode 0 0 0],
       sinkSet = [mkNode 0 4 0],
       optimalSourceSetIndicator = [1, 1, 0, 1, 0] \<rparr>"

text \<open>
  The cut lines of the two solved problems meet at \<open>lambda = 2\<close>. \<open>spurProblemMid\<close> is the
  problem contracted there: original node 3 joins the source set, node 2 the sink set, node 1
  stays, so the problem has three nodes. \<open>spurStartMid\<close> is the engine state after
  \<open>simpleInitialization\<close> in the solve of that problem, the third solve of the run.
\<close>

definition spurProblemMid :: CutProblem where
  "spurProblemMid =
     \<lparr> numNodesInList = 3, numSourceSet = 2, numSinkSet = 2, numArcsP = 2,
       solved = 0, lambdaValue = 2,
       arcListP = [(mkArc 0 2 3 0)\<lparr>capacity := 3\<rparr>,
                   (mkArc 2 1 5 (- 1))\<lparr>capacity := 3\<rparr>],
       nodeList =
         [mkNode 0 (- 1) 1,
          mkNode 1 (- 2) 1,
          mkNode 2 1 2],
       cutValue = 0, cutMultiplier = 0, cutConstant = 0,
       sourceSet = [mkNode 0 0 0, mkNode 1 3 0],
       sinkSet = [mkNode 0 4 0, mkNode 1 2 0],
       optimalSourceSetIndicator = [] \<rparr>"

definition spurStartMid :: Engine where
  "spurStartMid =
     \<lparr> numNodes = 3, numArcs = 2, source = 1, sink = 0, highestStrongLabel = 3,
       numArcScans = 2, numPushes = 2, numMergers = 2, numRelabels = 3, numGaps = 2,
       nodesList =
         [(mkNode 0 (- 1) 1)\<lparr> numOutOfTree := 1, outOfTree := [0] \<rparr>,
          (mkNode 1 (- 2) 1)\<lparr> label := 3, numOutOfTree := 1, outOfTree := [1] \<rparr>,
          (mkNode 2 1 2)\<lparr> outOfTree := [0, 0] \<rparr>],
       strongRoots = [\<lparr>rstart = None, rend = None\<rparr>,
                      \<lparr>rstart = None, rend = None\<rparr>,
                      \<lparr>rstart = None, rend = None\<rparr>],
       labelCount = [1, 0, 0],
       arcList = [(mkArc 2 0 0 0)\<lparr>capacity := 3, flow := 3\<rparr>,
                  (mkArc 1 2 0 0)\<lparr>capacity := 3, flow := 3\<rparr>] \<rparr>"

text \<open>
  Scenario 3 of the specification: three nodes, source 0, sink 2, the arcs 0 to 1 with
  capacity \<open>lambda\<close> and 1 to 2 with capacity 10, on the range from 0 to 20. \<open>lineGlobals\<close>
  is the state after \<open>readGraphSuper\<close>. \<open>lineProblem lam\<close> is the problem that
  \<open>initializeProblem\<close> builds at \<open>lam\<close>; no node is decided at the intersection
  \<open>lambda = 10\<close>, so the two problems contracted there are \<open>lineProblem 10\<close> as well.
\<close>

definition lineGlobals :: Globals where
  "lineGlobals =
     reset_globals\<lparr> numNodesSuper := 3, numArcsSuper := 2, LAMBDA_LOW := 0, LAMBDA_HIGH := 20,
       engine := (engine reset_globals)\<lparr> source := 0, sink := 2 \<rparr>,
       nodeListSuper := [mkNode 0 0 1, mkNode 1 1 2, mkNode 2 2 1],
       arcListSuper := [mkArc 0 1 0 1, mkArc 1 2 10 0] \<rparr>"

definition lineProblem :: "real \<Rightarrow> CutProblem" where
  "lineProblem lam =
     \<lparr> numNodesInList = 3, numSourceSet = 1, numSinkSet = 1, numArcsP = 2,
       solved = 0, lambdaValue = lam,
       arcListP = [(mkArc 0 2 0 1)\<lparr>capacity := lam\<rparr>, (mkArc 2 1 10 0)\<lparr>capacity := 10\<rparr>],
       nodeList = [mkNode 0 (- 1) 1, mkNode 1 (- 2) 1, mkNode 2 1 2],
       cutValue = 0, cutMultiplier = 0, cutConstant = 0,
       sourceSet = [mkNode 0 0 0], sinkSet = [mkNode 0 2 0],
       optimalSourceSetIndicator = [] \<rparr>"

text \<open>
  The four solves of the run, in order: the problem at 0 (minimal source set), the problem
  at 20 (maximal), the problem at 10 (maximal) and the problem at 10 again (minimal). For
  each, the engine state after \<open>simpleInitialization\<close> (no node has positive excess, so
  \<open>pseudoflowPhase1\<close> returns it unchanged), and the engine state and the problem that
  \<open>solveProblem\<close> returns. \<open>lineLow\<close>, \<open>lineHigh\<close>, \<open>lineUpper\<close> and \<open>lineLower\<close> are the four
  problems once \<open>parametricCut\<close> has marked them solved.
\<close>

definition lineStartLow :: Engine where
  "lineStartLow =
     \<lparr> numNodes = 3, numArcs = 2, source = 0, sink = 1, highestStrongLabel = 1,
       numArcScans = 0, numPushes = 0, numMergers = 0, numRelabels = 0, numGaps = 0,
       nodesList =
         [(mkNode 0 (- 1) 1)\<lparr> label := 3, numOutOfTree := 1, outOfTree := [0] \<rparr>,
          (mkNode 1 (- 2) 1)\<lparr> numOutOfTree := 1, outOfTree := [1] \<rparr>,
          (mkNode 2 1 2)\<lparr> excess := - 10, outOfTree := [0, 0] \<rparr>],
       strongRoots = [\<lparr>rstart = None, rend = None\<rparr>,
                      \<lparr>rstart = None, rend = None\<rparr>,
                      \<lparr>rstart = None, rend = None\<rparr>],
       labelCount = [1, 0, 0],
       arcList = [mkArc 0 2 0 1, (mkArc 2 1 10 0)\<lparr>capacity := 10, flow := 10\<rparr>] \<rparr>"

definition lineEngineLow :: Engine where
  "lineEngineLow =
     \<lparr> numNodes = 3, numArcs = 2, source = 0, sink = 1, highestStrongLabel = 1,
       numArcScans = 0, numPushes = 0, numMergers = 0, numRelabels = 0, numGaps = 0,
       nodesList =
         [(mkNode 0 (- 1) 1)\<lparr> label := 3, numOutOfTree := 1 \<rparr>,
          (mkNode 1 (- 2) 1)\<lparr> numOutOfTree := 1 \<rparr>,
          (mkNode 2 1 2)\<lparr> excess := - 10 \<rparr>],
       strongRoots = [],
       labelCount = [],
       arcList = [mkArc 0 2 0 1, (mkArc 2 1 10 0)\<lparr>capacity := 10, flow := 10\<rparr>] \<rparr>"

definition lineSolvedLow :: CutProblem where
  "lineSolvedLow =
     \<lparr> numNodesInList = 3, numSourceSet = 1, numSinkSet = 1, numArcsP = 2,
       solved = 0, lambdaValue = 0,
       arcListP = [mkArc 0 2 0 1, (mkArc 2 1 10 0)\<lparr>capacity := 10, flow := 10\<rparr>],
       nodeList =
         [(mkNode 0 (- 1) 1)\<lparr> label := 3, numOutOfTree := 1 \<rparr>,
          (mkNode 1 (- 2) 1)\<lparr> numOutOfTree := 1 \<rparr>,
          (mkNode 2 1 2)\<lparr> excess := - 10 \<rparr>],
       cutValue = 0, cutMultiplier = 1, cutConstant = 0,
       sourceSet = [mkNode 0 0 0],
       sinkSet = [mkNode 0 2 0],
       optimalSourceSetIndicator = [1, 0, 0] \<rparr>"

definition lineStartHigh :: Engine where
  "lineStartHigh =
     \<lparr> numNodes = 3, numArcs = 2, source = 1, sink = 0, highestStrongLabel = 1,
       numArcScans = 0, numPushes = 0, numMergers = 0, numRelabels = 0, numGaps = 0,
       nodesList =
         [(mkNode 0 (- 1) 1)\<lparr> numOutOfTree := 1, outOfTree := [0] \<rparr>,
          (mkNode 1 (- 2) 1)\<lparr> label := 3, numOutOfTree := 1, outOfTree := [1] \<rparr>,
          (mkNode 2 1 2)\<lparr> excess := - 10, outOfTree := [0, 0] \<rparr>],
       strongRoots = [\<lparr>rstart = None, rend = None\<rparr>,
                      \<lparr>rstart = None, rend = None\<rparr>,
                      \<lparr>rstart = None, rend = None\<rparr>],
       labelCount = [1, 0, 0],
       arcList = [(mkArc 2 0 0 0)\<lparr>capacity := 20, flow := 20\<rparr>,
                  (mkArc 1 2 0 0)\<lparr>capacity := 10, flow := 10\<rparr>] \<rparr>"

definition lineEngineHigh :: Engine where
  "lineEngineHigh =
     \<lparr> numNodes = 3, numArcs = 2, source = 1, sink = 0, highestStrongLabel = 1,
       numArcScans = 0, numPushes = 0, numMergers = 0, numRelabels = 0, numGaps = 0,
       nodesList =
         [(mkNode 0 (- 1) 1)\<lparr> numOutOfTree := 1 \<rparr>,
          (mkNode 1 (- 2) 1)\<lparr> label := 3, numOutOfTree := 1 \<rparr>,
          (mkNode 2 1 2)\<lparr> excess := - 10 \<rparr>],
       strongRoots = [],
       labelCount = [],
       arcList = [] \<rparr>"

definition lineSolvedHigh :: CutProblem where
  "lineSolvedHigh =
     \<lparr> numNodesInList = 3, numSourceSet = 1, numSinkSet = 1, numArcsP = 2,
       solved = 0, lambdaValue = 20,
       arcListP = [(mkArc 0 2 0 1)\<lparr>capacity := 20\<rparr>,
                   (mkArc 2 1 10 0)\<lparr>capacity := 10\<rparr>],
       nodeList =
         [(mkNode 0 (- 1) 1)\<lparr> numOutOfTree := 1 \<rparr>,
          (mkNode 1 (- 2) 1)\<lparr> label := 3, numOutOfTree := 1 \<rparr>,
          (mkNode 2 1 2)\<lparr> excess := - 10 \<rparr>],
       cutValue = 10, cutMultiplier = 0, cutConstant = 10,
       sourceSet = [mkNode 0 0 0],
       sinkSet = [mkNode 0 2 0],
       optimalSourceSetIndicator = [1, 1, 0] \<rparr>"

definition lineStartUpper :: Engine where
  "lineStartUpper =
     \<lparr> numNodes = 3, numArcs = 2, source = 1, sink = 0, highestStrongLabel = 1,
       numArcScans = 0, numPushes = 0, numMergers = 0, numRelabels = 0, numGaps = 0,
       nodesList =
         [(mkNode 0 (- 1) 1)\<lparr> numOutOfTree := 1, outOfTree := [0] \<rparr>,
          (mkNode 1 (- 2) 1)\<lparr> label := 3, numOutOfTree := 1, outOfTree := [1] \<rparr>,
          (mkNode 2 1 2)\<lparr> outOfTree := [0, 0] \<rparr>],
       strongRoots = [\<lparr>rstart = None, rend = None\<rparr>,
                      \<lparr>rstart = None, rend = None\<rparr>,
                      \<lparr>rstart = None, rend = None\<rparr>],
       labelCount = [1, 0, 0],
       arcList = [(mkArc 2 0 0 0)\<lparr>capacity := 10, flow := 10\<rparr>,
                  (mkArc 1 2 0 0)\<lparr>capacity := 10, flow := 10\<rparr>] \<rparr>"

definition lineEngineUpper :: Engine where
  "lineEngineUpper =
     \<lparr> numNodes = 3, numArcs = 2, source = 1, sink = 0, highestStrongLabel = 1,
       numArcScans = 0, numPushes = 0, numMergers = 0, numRelabels = 0, numGaps = 0,
       nodesList =
         [(mkNode 0 (- 1) 1)\<lparr> numOutOfTree := 1 \<rparr>,
          (mkNode 1 (- 2) 1)\<lparr> label := 3, numOutOfTree := 1 \<rparr>,
          mkNode 2 1 2],
       strongRoots = [],
       labelCount = [],
       arcList = [] \<rparr>"

definition lineSolvedUpper :: CutProblem where
  "lineSolvedUpper =
     \<lparr> numNodesInList = 3, numSourceSet = 1, numSinkSet = 1, numArcsP = 2,
       solved = 0, lambdaValue = 10,
       arcListP = [(mkArc 0 2 0 1)\<lparr>capacity := 10\<rparr>,
                   (mkArc 2 1 10 0)\<lparr>capacity := 10\<rparr>],
       nodeList =
         [(mkNode 0 (- 1) 1)\<lparr> numOutOfTree := 1 \<rparr>,
          (mkNode 1 (- 2) 1)\<lparr> label := 3, numOutOfTree := 1 \<rparr>,
          mkNode 2 1 2],
       cutValue = 10, cutMultiplier = 0, cutConstant = 10,
       sourceSet = [mkNode 0 0 0],
       sinkSet = [mkNode 0 2 0],
       optimalSourceSetIndicator = [1, 1, 0] \<rparr>"

definition lineStartLower :: Engine where
  "lineStartLower =
     \<lparr> numNodes = 3, numArcs = 2, source = 0, sink = 1, highestStrongLabel = 1,
       numArcScans = 0, numPushes = 0, numMergers = 0, numRelabels = 0, numGaps = 0,
       nodesList =
         [(mkNode 0 (- 1) 1)\<lparr> label := 3, numOutOfTree := 1, outOfTree := [0] \<rparr>,
          (mkNode 1 (- 2) 1)\<lparr> numOutOfTree := 1, outOfTree := [1] \<rparr>,
          (mkNode 2 1 2)\<lparr> outOfTree := [0, 0] \<rparr>],
       strongRoots = [\<lparr>rstart = None, rend = None\<rparr>,
                      \<lparr>rstart = None, rend = None\<rparr>,
                      \<lparr>rstart = None, rend = None\<rparr>],
       labelCount = [1, 0, 0],
       arcList = [(mkArc 0 2 0 1)\<lparr>capacity := 10, flow := 10\<rparr>,
                  (mkArc 2 1 10 0)\<lparr>capacity := 10, flow := 10\<rparr>] \<rparr>"

definition lineEngineLower :: Engine where
  "lineEngineLower =
     \<lparr> numNodes = 3, numArcs = 2, source = 0, sink = 1, highestStrongLabel = 1,
       numArcScans = 0, numPushes = 0, numMergers = 0, numRelabels = 0, numGaps = 0,
       nodesList =
         [(mkNode 0 (- 1) 1)\<lparr> label := 3, numOutOfTree := 1 \<rparr>,
          (mkNode 1 (- 2) 1)\<lparr> numOutOfTree := 1 \<rparr>,
          mkNode 2 1 2],
       strongRoots = [],
       labelCount = [],
       arcList = [(mkArc 0 2 0 1)\<lparr>capacity := 10, flow := 10\<rparr>,
                  (mkArc 2 1 10 0)\<lparr>capacity := 10, flow := 10\<rparr>] \<rparr>"

definition lineSolvedLower :: CutProblem where
  "lineSolvedLower =
     \<lparr> numNodesInList = 3, numSourceSet = 1, numSinkSet = 1, numArcsP = 2,
       solved = 0, lambdaValue = 10,
       arcListP = [(mkArc 0 2 0 1)\<lparr>capacity := 10, flow := 10\<rparr>,
                   (mkArc 2 1 10 0)\<lparr>capacity := 10, flow := 10\<rparr>],
       nodeList =
         [(mkNode 0 (- 1) 1)\<lparr> label := 3, numOutOfTree := 1 \<rparr>,
          (mkNode 1 (- 2) 1)\<lparr> numOutOfTree := 1 \<rparr>,
          mkNode 2 1 2],
       cutValue = 10, cutMultiplier = 1, cutConstant = 0,
       sourceSet = [mkNode 0 0 0],
       sinkSet = [mkNode 0 2 0],
       optimalSourceSetIndicator = [1, 0, 0] \<rparr>"

definition lineLow :: CutProblem where
  "lineLow = lineSolvedLow\<lparr>solved := 1\<rparr>"

definition lineHigh :: CutProblem where
  "lineHigh = lineSolvedHigh\<lparr>solved := 1\<rparr>"

definition lineUpper :: CutProblem where
  "lineUpper = lineSolvedUpper\<lparr>solved := 1\<rparr>"

definition lineLower :: CutProblem where
  "lineLower = lineSolvedLower\<lparr>solved := 1\<rparr>"
















subsection \<open>Minimum cuts and change points\<close>








subsection \<open>Lambda values emitted between two bounds\<close>

text \<open>
  The lambda values that the calls below one call of \<open>parametricCut\<close> on the interval from
  \<open>lo\<close> to \<open>hi\<close> append: in increasing order, inside the interval, each bound at most
  once and no value more than twice.
\<close>

definition innerValues :: "real \<Rightarrow> real \<Rightarrow> real list \<Rightarrow> bool" where
  "innerValues lo hi xs \<longleftrightarrow>
     sorted xs \<and> set xs \<subseteq> {lo..hi} \<and> count_list xs lo \<le> 1 \<and> count_list xs hi \<le> 1
     \<and> (\<forall>v. count_list xs v \<le> 2)"

definition emitsInner ::
  "Globals \<Rightarrow> CutProblem \<Rightarrow> CutProblem \<Rightarrow> Globals \<times> CutProblem \<times> CutProblem \<Rightarrow> bool" where
  "emitsInner g low high r \<longleftrightarrow>
     (case r of (g', low', high') \<Rightarrow>
        lambdaValue low' = lambdaValue low \<and> lambdaValue high' = lambdaValue high
        \<and> (\<exists>es. breakpoints g' = breakpoints g @ es
                 \<and> innerValues (lambdaValue low) (lambdaValue high) (map bpLambdaValue es)))"

subsection \<open>The statement that appends each breakpoint\<close>

text \<open>
  \<open>parametricCut\<close> appends records to the breakpoint list in two places: in the case
  analysis on the intersection (\<open>addBreakpoint\<close> in the second and the third case) and,
  behind it, at the base level (the terminal breakpoint). \<open>intersectCasesLog\<close> and
  \<open>parametricCutLog\<close> are \<open>intersectCases\<close> and \<open>parametricCut\<close>, statement by statement,
  returning beside the result the records appended, in the order of the calls of
  \<open>addBreakpoint\<close>, each with the place that appended it. \<open>dropLog\<close> forgets that list.
  \<open>hpfGlobals\<close> is the state in which \<open>hpf_solve\<close> calls \<open>initializeParametricCut\<close>, and
  \<open>terminalBreakpoint\<close> the record \<open>(highProblem.lambdaValue,
  highProblem.optimalSourceSetIndicator)\<close> as \<open>addBreakpoint\<close> stores it.
\<close>

datatype appendedBy = CaseAnalysis | BaseLevel

type_synonym appendLog = "(appendedBy \<times> Breakpoint) list"

definition intersectCasesLog ::
  "(Globals \<Rightarrow> CutProblem \<Rightarrow> CutProblem \<Rightarrow> ((Globals \<times> CutProblem \<times> CutProblem) \<times> appendLog) res)
     \<Rightarrow> Globals \<Rightarrow> CutProblem \<Rightarrow> CutProblem
     \<Rightarrow> ((Globals \<times> CutProblem \<times> CutProblem) \<times> appendLog) res" where
  "intersectCasesLog rec g low high =
     (if lambdaIntersectExists low high
         \<and> dadd (lambdaIntersect low high) TOL < lambdaValue high
         \<and> dsub (lambdaIntersect low high) TOL > lambdaValue low
      then
        bindR (Some (contractProblem (roundNegativeCapacity g) low (lambdaIntersect low high)
                 (optimalSourceSetIndicator low) (optimalSourceSetIndicator high)))
          (\<lambda>upperBoundIntersect.
        bindR (rec g low upperBoundIntersect) (\<lambda>((g3, low', upper'), as1).
        bindR (Some (contractProblem (roundNegativeCapacity g3) low' (lambdaIntersect low high)
                 (optimalSourceSetIndicator low') (optimalSourceSetIndicator high)))
          (\<lambda>lowerBoundIntersect.
        bindR (rec g3 lowerBoundIntersect high) (\<lambda>((g4, lower', high'), as2).
        Some (Inr ((g4, low', high'), as1 @ as2))))))
      else if lambdaIntersectExists low high
              \<and> dabs (dsub (lambdaIntersect low high) (lambdaValue high)) \<le> TOL
      then Some (Inr ((addBreakpointG (lambdaValue high) (optimalSourceSetIndicator low) g,
                       low, high),
                      [(CaseAnalysis,
                        \<lparr> bpLambdaValue = lambdaValue high,
                          sourceSetIndicator =
                            take (numNodesSuper g) (optimalSourceSetIndicator low) \<rparr>)]))
      else if lambdaIntersectExists low high
              \<and> dabs (dsub (lambdaIntersect low high) (lambdaValue low)) \<le> TOL
      then Some (Inr ((addBreakpointG (lambdaValue low) (optimalSourceSetIndicator low) g,
                       low, high),
                      [(CaseAnalysis,
                        \<lparr> bpLambdaValue = lambdaValue low,
                          sourceSetIndicator =
                            take (numNodesSuper g) (optimalSourceSetIndicator low) \<rparr>)]))
      else Some (Inr ((g, low, high), [])))"

primrec parametricCutLog ::
  "(Engine \<Rightarrow> Engine option) \<Rightarrow> nat \<Rightarrow> Globals \<Rightarrow> CutProblem \<Rightarrow> CutProblem
     \<Rightarrow> ((Globals \<times> CutProblem \<times> CutProblem) \<times> appendLog) res" where
  "parametricCutLog phase1 0 g lowProblem highProblem = None"
| "parametricCutLog phase1 (Suc n) g lowProblem highProblem =
     (let baseLevel = (solved lowProblem = 0 \<and> solved highProblem = 0) in
      bindR (solveIfNeeded phase1 g lowProblem 0) (\<lambda>(g1, low).
      bindR (solveIfNeeded phase1 g1 highProblem 1) (\<lambda>(g2, high).
      bindR (intersectCasesLog (parametricCutLog phase1 n) g2 low high)
        (\<lambda>((g5, low5, high5), as).
        Some (Inr (if baseLevel
                   then ((addBreakpointG (lambdaValue high5) (optimalSourceSetIndicator high5) g5,
                          low5, high5),
                         as @ [(BaseLevel,
                                 \<lparr> bpLambdaValue = lambdaValue high5,
                                   sourceSetIndicator =
                                     take (numNodesSuper g5) (optimalSourceSetIndicator high5) \<rparr>)])
                   else ((g5, low5, high5), as)))))))"

definition dropLog :: "('a \<times> appendLog) res \<Rightarrow> 'a res" where
  "dropLog m = bindR m (\<lambda>(r, as). Some (Inr r))"

definition caseAppends :: "appendLog \<Rightarrow> bool" where
  "caseAppends as \<longleftrightarrow> (\<forall>e \<in> set as. fst e = CaseAnalysis)"

definition hpfGlobals ::
  "int \<Rightarrow> int \<Rightarrow> int \<Rightarrow> int \<Rightarrow> real list \<Rightarrow> real \<times> real \<Rightarrow> int \<Rightarrow> Globals" where
  "hpfGlobals numNodesIn numArcsIn sourceIn sinkIn am lr roundNegativeCapacityIn =
     readGraphSuper am
       (reset_globals\<lparr> numNodesSuper := uint_of_int numNodesIn,
          numArcsSuper := uint_of_int numArcsIn,
          engine := (engine reset_globals)\<lparr> source := uint_of_int sourceIn,
                                             sink := uint_of_int sinkIn \<rparr>,
          LAMBDA_LOW := fst lr, LAMBDA_HIGH := snd lr,
          roundNegativeCapacity := uint_of_int roundNegativeCapacityIn \<rparr>)"

definition terminalBreakpoint :: "Globals \<Rightarrow> CutProblem \<Rightarrow> Breakpoint" where
  "terminalBreakpoint g highProblem =
     \<lparr> bpLambdaValue = lambdaValue highProblem,
       sourceSetIndicator = take (numNodesSuper g) (optimalSourceSetIndicator highProblem) \<rparr>"

section \<open>Properties\<close>

subsection \<open>Rounding to binary64\<close>

lemma roundEven_of_int: "roundEven (of_int n) = n"
  by (simp add: roundEven_def)

lemma roundEven_cases:
  "roundEven y = \<lfloor>y\<rfloor> \<or> roundEven y = \<lfloor>y\<rfloor> + 1"
  by (simp add: roundEven_def Let_def)

lemma roundEven_near: "\<bar>of_int (roundEven y) - y\<bar> \<le> 1 / 2"
proof -
  have "of_int \<lfloor>y\<rfloor> \<le> y" "y < of_int \<lfloor>y\<rfloor> + 1" by linarith+
  then show ?thesis by (auto simp: roundEven_def Let_def)
qed

lemma roundEven_mono: assumes "a \<le> b" shows "roundEven a \<le> roundEven b"
proof (cases "\<lfloor>a\<rfloor> = \<lfloor>b\<rfloor>")
  case True
  then show ?thesis using assms by (auto simp: roundEven_def Let_def)
next
  case False
  then have "\<lfloor>a\<rfloor> + 1 \<le> \<lfloor>b\<rfloor>" using floor_mono[OF assms] by linarith
  then show ?thesis using roundEven_cases[of a] roundEven_cases[of b] by linarith
qed

lemma roundEven_minus: "roundEven (- y) = - roundEven y"
proof (cases "y = of_int \<lfloor>y\<rfloor>")
  case True
  then obtain n where "y = of_int n" by metis
  then show ?thesis using roundEven_of_int[of "- n"] roundEven_of_int[of n] by simp
next
  case False
  then have lt: "of_int \<lfloor>y\<rfloor> < y" by linarith
  have "\<lceil>y\<rceil> = \<lfloor>y\<rfloor> + 1" using False by (simp add: ceiling_altdef)
  then have f: "\<lfloor>- y\<rfloor> = - \<lfloor>y\<rfloor> - 1" by (simp add: floor_minus)
  show ?thesis
    unfolding roundEven_def Let_def f using lt by (auto simp: algebra_simps)
qed

lemma roundEven_ge: "of_int n \<le> y \<Longrightarrow> n \<le> roundEven y"
  using roundEven_mono[of "of_int n" y] by (simp add: roundEven_of_int)

lemma roundEven_le: "y \<le> of_int n \<Longrightarrow> roundEven y \<le> n"
  using roundEven_mono[of y "of_int n"] by (simp add: roundEven_of_int)

lemma binade_bounds:
  assumes "x \<noteq> 0"
  shows "2 powi binade x \<le> \<bar>x\<bar>" and "\<bar>x\<bar> < 2 powi (binade x + 1)"
proof -
  show "2 powi binade x \<le> \<bar>x\<bar>"
  proof (cases "1 \<le> \<bar>x\<bar>")
    case True
    define n where "n = nat \<lfloor>\<bar>x\<bar>\<rfloor>"
    have n: "0 < n" "real n \<le> \<bar>x\<bar>" using True by (auto simp: n_def)
    have fp: "0 < floorlog 2 n" using n(1) by (simp add: floorlog_def)
    have "(2::nat) ^ (floorlog 2 n - 1) \<le> n" using floorlog_bounds[of n 2] n(1) by simp
    then have "real (2 ^ (floorlog 2 n - 1)) \<le> real n" by (simp only: of_nat_le_iff)
    then have "(2::real) ^ (floorlog 2 n - 1) \<le> real n" by simp
    moreover have "binade x = int (floorlog 2 n - 1)" using True fp by (simp add: binade_def n_def)
    ultimately show ?thesis using n(2) by (simp only: power_int_of_nat)
  next
    case False
    define m where "m = \<lceil>1 / \<bar>x\<bar>\<rceil>"
    have y: "1 < 1 / \<bar>x\<bar>" using False assms by simp
    then have m2: "2 \<le> m" unfolding m_def by linarith
    define k where "k = floorlog 2 (nat (m - 1))"
    have "nat (m - 1) < 2 ^ k" using floorlog_bounds[of "nat (m - 1)" 2] m2 by (simp add: k_def)
    then have "int (nat (m - 1)) < int (2 ^ k)" by (simp only: of_nat_less_iff)
    then have "m - 1 < 2 ^ k" using m2 by simp
    then have "m \<le> 2 ^ k" by simp
    then have "real_of_int m \<le> real_of_int (2 ^ k)" by (simp only: of_int_le_iff)
    then have "of_int m \<le> (2::real) ^ k" by simp
    moreover have "1 / \<bar>x\<bar> \<le> of_int m" unfolding m_def by linarith
    ultimately have "1 / \<bar>x\<bar> \<le> 2 ^ k" by linarith
    then have "1 / 2 ^ k \<le> \<bar>x\<bar>" using assms
      by (simp add: field_simps)
    moreover have "binade x = - int k" using False by (simp add: binade_def k_def m_def)
    ultimately show ?thesis by (simp add: power_int_minus_divide)
  qed
  show "\<bar>x\<bar> < 2 powi (binade x + 1)"
  proof (cases "1 \<le> \<bar>x\<bar>")
    case True
    define n where "n = nat \<lfloor>\<bar>x\<bar>\<rfloor>"
    have n: "0 < n" "\<bar>x\<bar> < real n + 1" using True by (auto simp: n_def)
    have fp: "0 < floorlog 2 n" using n(1) by (simp add: floorlog_def)
    have "n < 2 ^ floorlog 2 n" using floorlog_bounds[of n 2] n(1) by simp
    then have "n + 1 \<le> 2 ^ floorlog 2 n" by simp
    then have "real (n + 1) \<le> real (2 ^ floorlog 2 n)" by (simp only: of_nat_le_iff)
    then have "real n + 1 \<le> 2 ^ floorlog 2 n" by simp
    moreover have "binade x + 1 = int (floorlog 2 n)" using True fp by (simp add: binade_def n_def)
    ultimately show ?thesis using n(2) by (simp only: power_int_of_nat)
  next
    case False
    define m where "m = \<lceil>1 / \<bar>x\<bar>\<rceil>"
    have y: "1 < 1 / \<bar>x\<bar>" using False assms by simp
    then have m2: "2 \<le> m" unfolding m_def by linarith
    define k where "k = floorlog 2 (nat (m - 1))"
    have kp: "0 < k" using m2 by (simp add: k_def floorlog_def)
    have "2 ^ (k - 1) \<le> nat (m - 1)" using floorlog_bounds[of "nat (m - 1)" 2] m2 by (simp add: k_def)
    then have "int (2 ^ (k - 1)) \<le> int (nat (m - 1))" by (simp only: of_nat_le_iff)
    then have "2 ^ (k - 1) \<le> m - 1" using m2 by simp
    then have "real_of_int (2 ^ (k - 1)) \<le> real_of_int (m - 1)" by (simp only: of_int_le_iff)
    then have "(2::real) ^ (k - 1) \<le> of_int (m - 1)" by simp
    moreover have "of_int (m - 1) < 1 / \<bar>x\<bar>" unfolding m_def by linarith
    ultimately have "2 ^ (k - 1) < 1 / \<bar>x\<bar>" by linarith
    then have "\<bar>x\<bar> < 1 / 2 ^ (k - 1)" using assms by (simp add: field_simps)
    moreover have "binade x + 1 = - int (k - 1)" using False kp by (simp add: binade_def k_def m_def)
    ultimately show ?thesis by (simp add: power_int_minus_divide)
  qed
qed

lemma powi2_less_D: "(2::real) powi a < 2 powi b \<Longrightarrow> a < b"
proof (rule ccontr)
  assume a: "(2::real) powi a < 2 powi b" and "\<not> a < b"
  then have "b \<le> a" by simp
  then have "(2::real) powi b \<le> 2 powi a" by (rule power_int_increasing) simp
  with a show False by linarith
qed

lemma binade_eqI:
  assumes "2 powi e \<le> \<bar>x\<bar>" and "\<bar>x\<bar> < 2 powi (e + 1)"
  shows "binade x = e"
proof -
  have p: "0 < (2::real) powi e" by simp
  have nz: "x \<noteq> 0"
  proof
    assume "x = 0"
    with assms(1) have "(2::real) powi e \<le> 0" by simp
    with p show False by linarith
  qed
  note b = binade_bounds[OF nz]
  have "(2::real) powi e < 2 powi (binade x + 1)" using assms(1) b(2) by linarith
  then have 1: "e < binade x + 1" by (rule powi2_less_D)
  have "(2::real) powi binade x < 2 powi (e + 1)" using assms(2) b(1) by linarith
  then have 2: "binade x < e + 1" by (rule powi2_less_D)
  show ?thesis using 1 2 by linarith
qed


lemma quantum_pos: "0 < quantum x"
  by (simp add: quantum_def)

lemma binade_minus: "binade (- x) = binade x"
  by (simp add: binade_def)

lemma roundDouble_minus: "roundDouble (- x) = - roundDouble x"
  by (simp add: roundDouble_def quantum_def binade_minus roundEven_minus)

lemma roundDouble_0: "roundDouble 0 = 0"
  by (simp add: roundDouble_def)

lemma binade_mono:
  assumes "x \<noteq> 0" and "\<bar>x\<bar> \<le> \<bar>y\<bar>"
  shows "binade x \<le> binade y"
proof -
  have "y \<noteq> 0" using assms by auto
  then have "(2::real) powi binade x < 2 powi (binade y + 1)"
    using binade_bounds(1)[OF assms(1)] binade_bounds(2)[of y] assms(2) by linarith
  then have "binade x < binade y + 1" by (rule powi2_less_D)
  then show ?thesis by simp
qed

lemma powi2_split: "(2::real) powi (a + b) = 2 powi a * 2 powi b"
  by (simp add: power_int_add)

lemma roundDouble_repr_less:
  assumes m: "\<bar>m\<bar> < 2 ^ 53" and k: "- 1074 \<le> k"
  shows "roundDouble (of_int m * 2 powi k) = of_int m * 2 powi k"
proof (cases "m = 0")
  case True
  then show ?thesis by (simp add: roundDouble_def)
next
  case False
  define x :: real where "x = of_int m * 2 powi k"
  have nz: "x \<noteq> 0" using False by (simp add: x_def)
  define e where "e = max (binade x) (- 1022)"
  have "\<bar>real_of_int m\<bar> < real_of_int (2 ^ 53)" using m by (metis of_int_abs of_int_less_iff)
  then have "\<bar>x\<bar> < 2 ^ 53 * 2 powi k"
    by (simp add: x_def abs_mult)
  then have "\<bar>x\<bar> < 2 powi (53 + k)" by (simp add: power_int_add)
  then have "(2::real) powi binade x < 2 powi (53 + k)" using binade_bounds(1)[OF nz] by linarith
  then have "binade x < 53 + k" by (rule powi2_less_D)
  then have d: "0 \<le> k - e + 52" using k by (simp add: e_def)
  define j where "j = m * 2 ^ nat (k - e + 52)"
  have "(2::real) powi k = 2 powi (k - e + 52) * 2 powi (e - 52)"
    by (simp add: power_int_add[symmetric])
  also have "(2::real) powi (k - e + 52) = 2 ^ nat (k - e + 52)"
    using d by (simp add: power_int_def)
  finally have xq: "x = of_int j * 2 powi (e - 52)"
    by (simp add: x_def j_def)
  have q: "quantum x = 2 powi (e - 52)" by (simp add: quantum_def e_def)
  have "x / quantum x = of_int j" unfolding q by (simp add: xq)
  then have "roundDouble x = of_int j * quantum x" using nz by (simp add: roundDouble_def roundEven_of_int)
  then show ?thesis using xq q by (simp add: x_def)
qed

lemma roundDouble_repr:
  assumes m: "\<bar>m\<bar> \<le> 2 ^ 53" and k: "- 1074 \<le> k"
  shows "roundDouble (of_int m * 2 powi k) = of_int m * 2 powi k"
proof (cases "\<bar>m\<bar> < 2 ^ 53")
  case True
  then show ?thesis using k by (rule roundDouble_repr_less)
next
  case False
  then have "m = 2 ^ 53 \<or> m = - (2 ^ 53)" using m by linarith
  then have "real_of_int m * 2 powi k = of_int (m div 2) * 2 powi (k + 1)"
    by (auto simp: power_int_add)
  moreover have "\<bar>m div 2\<bar> < 2 ^ 53" using \<open>m = 2 ^ 53 \<or> m = - (2 ^ 53)\<close> by auto
  moreover have "- 1074 \<le> k + 1" using k by simp
  ultimately show ?thesis using roundDouble_repr_less[of "m div 2" "k + 1"] by simp
qed

lemma roundDouble_of_int: "\<bar>m\<bar> \<le> 2 ^ 53 \<Longrightarrow> roundDouble (of_int m) = of_int m"
  using roundDouble_repr[of m 0] by simp

lemma powi2_53: "(2::real) powi (e + 1) = 2 ^ 53 * 2 powi (e - 52)"
proof -
  have "e + 1 = 53 + (e - 52)" by arith
  then have "(2::real) powi (e + 1) = 2 powi (53 + (e - 52))" by (rule arg_cong)
  also have "\<dots> = 2 powi 53 * 2 powi (e - 52)" by (rule power_int_add) simp
  finally show ?thesis by simp
qed

lemma powi2_52: "(2::real) powi e = 2 ^ 52 * 2 powi (e - 52)"
proof -
  have "e = 52 + (e - 52)" by arith
  then have "(2::real) powi e = 2 powi (52 + (e - 52))" by (rule arg_cong)
  also have "\<dots> = 2 powi 52 * 2 powi (e - 52)" by (rule power_int_add) simp
  finally show ?thesis by simp
qed

lemma roundDouble_quotient_bound:
  assumes "x \<noteq> 0"
  shows "\<bar>x / quantum x\<bar> < 2 ^ 53"
proof -
  define e where "e = max (binade x) (- 1022)"
  have q: "quantum x = 2 powi (e - 52)" by (simp add: quantum_def e_def)
  have "\<bar>x\<bar> < 2 powi (binade x + 1)" using binade_bounds(2)[OF assms] .
  also have "\<dots> \<le> 2 powi (e + 1)" by (rule power_int_increasing) (simp_all add: e_def)
  also have "\<dots> = 2 ^ 53 * 2 powi (e - 52)" by (rule powi2_53)
  finally have "\<bar>x\<bar> < 2 ^ 53 * quantum x" unfolding q .
  then show ?thesis using quantum_pos[of x] by (simp add: abs_divide field_simps)
qed

lemma roundDouble_form:
  assumes "x \<noteq> 0"
  shows "\<exists>n. roundDouble x = of_int n * 2 powi (max (binade x) (- 1022) - 52) \<and> \<bar>n\<bar> \<le> 2 ^ 53"
proof -
  define n where "n = roundEven (x / quantum x)"
  have b: "\<bar>x / quantum x\<bar> < 2 ^ 53" using roundDouble_quotient_bound[OF assms] .
  have "x / quantum x \<le> 2 ^ 53" "- (2 ^ 53) \<le> x / quantum x"
    using b by linarith+
  then have c: "x / quantum x \<le> of_int (2 ^ 53)" "of_int (- (2 ^ 53)) \<le> x / quantum x"
    by simp_all
  have "n \<le> 2 ^ 53" "- (2 ^ 53) \<le> n"
    unfolding n_def using roundEven_le[OF c(1)] roundEven_ge[OF c(2)] by simp_all
  then have "\<bar>n\<bar> \<le> 2 ^ 53" by linarith
  moreover have "roundDouble x = of_int n * 2 powi (max (binade x) (- 1022) - 52)"
    using assms by (simp add: roundDouble_def n_def quantum_def)
  ultimately show ?thesis by blast
qed

lemma roundDouble_idem: "roundDouble (roundDouble x) = roundDouble x"
proof (cases "x = 0")
  case True
  then show ?thesis by (simp add: roundDouble_def)
next
  case False
  from roundDouble_form[OF False] obtain n where
    n: "roundDouble x = of_int n * 2 powi (max (binade x) (- 1022) - 52)" "\<bar>n\<bar> \<le> 2 ^ 53" by blast
  show ?thesis unfolding n(1) using n(2) by (rule roundDouble_repr) simp
qed

lemma roundDouble_nonneg: "0 \<le> x \<Longrightarrow> 0 \<le> roundDouble x"
proof -
  assume a: "0 \<le> x"
  have "0 \<le> x / quantum x" using a quantum_pos[of x] by simp
  then have "of_int 0 \<le> x / quantum x" by simp
  then have "0 \<le> roundEven (x / quantum x)" by (rule roundEven_ge)
  then show ?thesis using quantum_pos[of x] by (simp add: roundDouble_def)
qed

lemma roundDouble_upper:
  assumes "0 < x"
  shows "roundDouble x \<le> 2 powi (max (binade x) (- 1022) + 1)"
proof -
  define e where "e = max (binade x) (- 1022)"
  have q: "quantum x = 2 powi (e - 52)" by (simp add: quantum_def e_def)
  have "x / quantum x \<le> 2 ^ 53" using roundDouble_quotient_bound[of x] assms by linarith
  then have "x / quantum x \<le> of_int (2 ^ 53)" by simp
  then have "roundEven (x / quantum x) \<le> 2 ^ 53" by (rule roundEven_le)
  then have "real_of_int (roundEven (x / quantum x)) \<le> real_of_int (2 ^ 53)" by (simp only: of_int_le_iff)
  then have "roundDouble x \<le> 2 ^ 53 * quantum x"
    using assms quantum_pos[of x] by (simp add: roundDouble_def)
  also have "\<dots> = 2 powi (e + 1)" unfolding q by (rule powi2_53[symmetric])
  finally show ?thesis unfolding e_def .
qed

lemma roundDouble_lower:
  assumes "0 < x" and "- 1022 \<le> binade x"
  shows "2 powi binade x \<le> roundDouble x"
proof -
  have q: "quantum x = 2 powi (binade x - 52)" using assms(2) by (simp add: quantum_def max_def)
  have "2 powi binade x \<le> x" using binade_bounds(1)[of x] assms(1) by simp
  moreover have "(2::real) powi binade x = 2 ^ 52 * quantum x"
    unfolding q by (rule powi2_52)
  ultimately have "of_int (2 ^ 52) \<le> x / quantum x"
    using quantum_pos[of x] by (simp add: field_simps)
  then have "2 ^ 52 \<le> roundEven (x / quantum x)" by (rule roundEven_ge)
  then have "real_of_int (2 ^ 52) \<le> real_of_int (roundEven (x / quantum x))" by (simp only: of_int_le_iff)
  then have "2 ^ 52 * quantum x \<le> roundDouble x"
    using assms quantum_pos[of x] by (simp add: roundDouble_def)
  then show ?thesis unfolding \<open>(2::real) powi binade x = 2 ^ 52 * quantum x\<close> .
qed

lemma roundDouble_mono_pos:
  assumes "0 < a" and "a \<le> b"
  shows "roundDouble a \<le> roundDouble b"
proof -
  have b: "0 < b" using assms by linarith
  have eb: "binade a \<le> binade b" using binade_mono[of a b] assms by simp
  show ?thesis
  proof (cases "max (binade a) (- 1022) = max (binade b) (- 1022)")
    case True
    then have q: "quantum a = quantum b" by (simp add: quantum_def)
    have "a / quantum b \<le> b / quantum b" using assms(2) quantum_pos[of b] by (simp add: divide_right_mono)
    then have "roundEven (a / quantum b) \<le> roundEven (b / quantum b)" by (rule roundEven_mono)
    then have "real_of_int (roundEven (a / quantum b)) \<le> real_of_int (roundEven (b / quantum b))" by (simp only: of_int_le_iff)
    then show ?thesis using assms(1) b quantum_pos[of b] by (simp add: roundDouble_def q)
  next
    case False
    then have lt: "max (binade a) (- 1022) < binade b" and nb: "- 1022 \<le> binade b" using eb by auto
    have "roundDouble a \<le> 2 powi (max (binade a) (- 1022) + 1)" using assms(1) by (rule roundDouble_upper)
    also have "\<dots> \<le> 2 powi binade b"
    proof (rule power_int_increasing)
      show "max (binade a) (- 1022) + 1 \<le> binade b" using lt by linarith
    qed simp
    also have "\<dots> \<le> roundDouble b" using b nb by (rule roundDouble_lower)
    finally show ?thesis .
  qed
qed

lemma roundDouble_mono: assumes "a \<le> b" shows "roundDouble a \<le> roundDouble b"
proof -
  consider "0 < a" | "a \<le> 0" "0 \<le> b" | "b < 0" using assms by linarith
  then show ?thesis
  proof cases
    case 1
    then show ?thesis using assms by (rule roundDouble_mono_pos)
  next
    case 2
    have "roundDouble a \<le> 0" using roundDouble_nonneg[of "- a"] 2(1) by (simp add: roundDouble_minus)
    moreover have "0 \<le> roundDouble b" using 2(2) by (rule roundDouble_nonneg)
    ultimately show ?thesis by linarith
  next
    case 3
    have "roundDouble (- b) \<le> roundDouble (- a)" using roundDouble_mono_pos[of "- b" "- a"] 3 assms by simp
    then show ?thesis by (simp add: roundDouble_minus)
  qed
qed

lemma roundDouble_add_ge: "0 \<le> t \<Longrightarrow> roundDouble x \<le> roundDouble (roundDouble x + t)"
  using roundDouble_mono[of "roundDouble x" "roundDouble x + t"] by (simp add: roundDouble_idem)

lemma roundDouble_sub_le: "0 \<le> t \<Longrightarrow> roundDouble (roundDouble x - t) \<le> roundDouble x"
  using roundDouble_mono[of "roundDouble x - t" "roundDouble x"] by (simp add: roundDouble_idem)

lemma roundDouble_numeral [simp]:
  "numeral k \<le> (9007199254740992::real) \<Longrightarrow> roundDouble (numeral k) = numeral k"
  using roundDouble_of_int[of "numeral k"] by simp

lemma roundDouble_neg_numeral [simp]:
  "numeral k \<le> (9007199254740992::real) \<Longrightarrow> roundDouble (- numeral k) = - numeral k"
  using roundDouble_of_int[of "- numeral k"] by simp

lemma roundDouble_1 [simp]: "roundDouble 1 = 1"
  using roundDouble_of_int[of 1] by simp

lemma roundDouble_zero [simp]: "roundDouble 0 = 0"
  by (rule roundDouble_0)

lemmas double_ops = dadd_def dsub_def dmul_def ddiv_def

lemmas roundDouble_eval = roundDouble_def quantum_def binade_def compute_floorlog roundEven_def Let_def

declare double_ops [simp]

declare roundDouble_minus [simp]

lemma TOL_pos: "0 < TOL"
  by (simp add: TOL_def)

lemma TOL_nearest: "TOL = roundDouble (1 / 10 ^ 8)"
  by (simp add: TOL_def roundDouble_eval)

lemma lambdaIntersect_rounded:
  "lambdaIntersectExists low high \<Longrightarrow> \<exists>w. lambdaIntersect low high = roundDouble w"
  by (auto simp: lambdaIntersect_def)

lemma lambdaIntersect_inside:
  assumes "lambdaIntersectExists low high"
    and "dadd (lambdaIntersect low high) TOL < hi"
    and "lo < dsub (lambdaIntersect low high) TOL"
  shows "lo < lambdaIntersect low high" and "lambdaIntersect low high < hi"
proof -
  from lambdaIntersect_rounded[OF assms(1)] obtain w where
    w: "lambdaIntersect low high = roundDouble w" by blast
  have t: "0 \<le> TOL" using TOL_pos by simp
  show "lo < lambdaIntersect low high"
    using roundDouble_sub_le[OF t, of w] assms(3) unfolding w by simp
  show "lambdaIntersect low high < hi"
    using roundDouble_add_ge[OF t, of w] assms(2) unfolding w by simp
qed


subsection \<open>Negative capacities (C3)\<close>

lemma evaluateArcs_policy:
  "evaluateArcs rnd lam as =
     (if \<exists>a \<in> set as. dadd (arcConstant a) (dmul (multiplier a) lam) < 0
            \<and> \<not> (rnd = 1 \<or> dadd (arcConstant a) (dmul (multiplier a) lam) > - TOL)
      then Inl (NegativeCapacity lam)
      else Inr (map (\<lambda>a. a\<lparr>capacity :=
                     (if dadd (arcConstant a) (dmul (multiplier a) lam) < 0 then 0
                      else dadd (arcConstant a) (dmul (multiplier a) lam))\<rparr>) as))"
  by (induction as) (auto simp: Let_def)

text \<open>
  C3. The tolerance is the double \<open>1e-8\<close>. The value of an arc at lambda is the double that
  the source computes, \<open>constant + multiplier * lambda\<close> with the product rounded and then
  the sum rounded. Evaluating the capacities of a problem at its lambda ends the process
  with the negative-capacity diagnostic exactly when some arc has a negative value while
  the rounding flag is not 1 and the value is not above \<open>- TOL\<close>. Otherwise every arc gets
  the capacity 0 when its value is negative and its value unchanged when it is not
  negative.
\<close>

theorem evaluateCapacities_policy:
  "TOL = roundDouble (1 / 10 ^ 8) \<and>
   evaluateCapacities rnd p =
     (if \<exists>a \<in> set (take (numArcsP p) (arcListP p)).
            dadd (arcConstant a) (dmul (multiplier a) (lambdaValue p)) < 0
            \<and> \<not> (rnd = 1 \<or> dadd (arcConstant a) (dmul (multiplier a) (lambdaValue p)) > - TOL)
      then Inl (NegativeCapacity (lambdaValue p))
      else Inr (p\<lparr>arcListP :=
             map (\<lambda>a. a\<lparr>capacity :=
                    (if dadd (arcConstant a) (dmul (multiplier a) (lambdaValue p)) < 0 then 0
                     else dadd (arcConstant a) (dmul (multiplier a) (lambdaValue p)))\<rparr>)
               (take (numArcsP p) (arcListP p))
             @ drop (numArcsP p) (arcListP p)\<rparr>))"
proof (rule conjI)
  show "TOL = roundDouble (1 / 10 ^ 8)" by (rule TOL_nearest)
  show "evaluateCapacities rnd p =
     (if \<exists>a \<in> set (take (numArcsP p) (arcListP p)).
            dadd (arcConstant a) (dmul (multiplier a) (lambdaValue p)) < 0
            \<and> \<not> (rnd = 1 \<or> dadd (arcConstant a) (dmul (multiplier a) (lambdaValue p)) > - TOL)
      then Inl (NegativeCapacity (lambdaValue p))
      else Inr (p\<lparr>arcListP :=
             map (\<lambda>a. a\<lparr>capacity :=
                    (if dadd (arcConstant a) (dmul (multiplier a) (lambdaValue p)) < 0 then 0
                     else dadd (arcConstant a) (dmul (multiplier a) (lambdaValue p)))\<rparr>)
               (take (numArcsP p) (arcListP p))
             @ drop (numArcsP p) (arcListP p)\<rparr>))"
    unfolding evaluateCapacities_def evaluateArcs_policy by (simp del: double_ops)
qed

text \<open>
  Scenario 5 of the specification: with the rounding flag 1 the capacity \<open>- 2\<close> becomes 0,
  with the flag 0 the evaluation ends the process. For the arc with constant 4666009041
  and multiplier \<open>- 46660090410\<close> at the double \<open>0.1\<close> the product rounds to
  \<open>- 4666009041\<close>, so the value is 0 and the evaluation returns with the flag 0.
\<close>

theorem evaluateCapacities_policy_witness:
  "evaluateCapacities 1 negativeArcProblem =
     Inr (negativeArcProblem\<lparr>arcListP := [(mkArc 0 1 0 (- 1))\<lparr>capacity := 0\<rparr>]\<rparr>)
   \<and> evaluateCapacities 0 negativeArcProblem = Inl (NegativeCapacity 2)
   \<and> evaluateCapacities 0 roundedArcProblem =
       Inr (roundedArcProblem\<lparr>arcListP := [(mkArc 0 1 4666009041 (- 46660090410))\<lparr>capacity := 0\<rparr>]\<rparr>)"
  using evaluateCapacities_policy[of 1 negativeArcProblem]
        evaluateCapacities_policy[of 0 negativeArcProblem]
        evaluateCapacities_policy[of 0 roundedArcProblem]
  by (simp add: negativeArcProblem_def roundedArcProblem_def mkArc_def TOL_def roundDouble_eval)

subsection \<open>Rejection of arcs at load (C4)\<close>

text \<open>
  C4, as stated, fails: the file of two nodes with source 0, sink 1 and the single arc
  \<open>a 0 1 5 -1\<close> is loaded, and the arc is stored in the arc matrix.
\<close>

theorem readData_source_sink_arc_counterexample:
  "readData [ProblemLine 2 1 0 1 0, NodeLine 0 CHR ''s'', NodeLine 1 CHR ''t'',
             ArcLine 0 1 5 (- 1)]
   = Inr \<lparr> rNumNodes = 2, rNumArcs = 1, lambdaRange = (0, 1), rRoundNegativeCapacity = 0,
           arcCount = 1, numRemovedArcs = 0, isSourceAssigned = 1, isSinkAssigned = 1,
           rSource = 0, rSink = 1, arcMatrix = [0, 1, 5, - 1] \<rparr>"
  by (simp add: readData_def initialReadState_def eval_nat_numeral)

text \<open>
  C4, amended. Once source and sink are assigned, an arc with a negative multiplier, end
  nodes in range and no self-loop is rejected exactly when its head is not the sink, with
  the diagnostic for negative multipliers; the process then ends through \<open>exit(0)\<close>, so
  with status zero. An arc whose head is the sink passes the sign checks whatever its tail:
  it is rejected only when the declared number of arcs is already reached, dropped when it
  enters the source or leaves the sink, and stored otherwise.
\<close>

theorem readLine_negative_multiplier:
  assumes "isSourceAssigned st \<noteq> 0" and "isSinkAssigned st \<noteq> 0"
    and "0 \<le> from" and "from < rNumNodes st" and "0 \<le> to" and "to < rNumNodes st"
    and "from \<noteq> to" and "m < 0"
  shows "readLine (ArcLine from to c m) st =
           (if to \<noteq> rSink st then Inl NegativeMultiplierNotSink
            else if arcCount st \<ge> rNumArcs st then Inl IncorrectNumberOfArcs
            else if to = rSource st \<or> from = rSink st
              then Inr (st\<lparr> numRemovedArcs := numRemovedArcs st + 1 \<rparr>)
            else Inr (st\<lparr> arcMatrix := (arcMatrix st)
                        [nat (arcCount st * 4 + 0) := real_of_int from,
                         nat (arcCount st * 4 + 1) := real_of_int to,
                         nat (arcCount st * 4 + 2) := c,
                         nat (arcCount st * 4 + 3) := m],
                     arcCount := arcCount st + 1 \<rparr>))
         \<and> exitStatus NegativeMultiplierNotSink = 0"
  using assms by (auto simp: exitStatus_def)

theorem readLine_negative_multiplier_witness:
  "readLine (ArcLine 0 1 5 (- 1)) twoNodeReadState =
     Inr (twoNodeReadState\<lparr> arcMatrix := [0, 1, 5, - 1], arcCount := 1 \<rparr>)
   \<and> readLine (ArcLine 1 0 5 (- 1)) twoNodeReadState = Inl NegativeMultiplierNotSink"
  using readLine_negative_multiplier[of twoNodeReadState 0 1 "- 1" 5]
        readLine_negative_multiplier[of twoNodeReadState 1 0 "- 1" 5]
  by (simp add: twoNodeReadState_def)

subsection \<open>The pass over a breakpoint list\<close>

lemma keepFirstOfRuns_lambda:
  "map bpLambdaValue (keepFirstOfRuns bps) = remdups_adj (map bpLambdaValue bps)"
  by (induction bps rule: keepFirstOfRuns.induct) auto

lemma dedupLoop_keepFirst:
  "noTripleRun bps \<Longrightarrow> dedupLoop bps = keepFirstOfRuns bps"
proof (induction bps rule: dedupLoop.induct)
  case (3 c n rest)
  show ?case
  proof (cases "bpLambdaValue c = bpLambdaValue n")
    case True
    have nt: "noTripleRun rest" using 3(3) by (cases rest; cases "tl rest") auto
    have "keepFirstOfRuns (c # rest) = c # keepFirstOfRuns rest"
      using 3(3) True by (cases rest) auto
    then show ?thesis using 3(1)[OF True nt] True by simp
  next
    case False
    have nt: "noTripleRun (n # rest)" using 3(3) by (cases rest) auto
    show ?thesis using 3(2)[OF False nt] False by simp
  qed
qed simp_all

text \<open>
  Taken by itself, the pass unlinks at most one record after each record it visits: after
  unlinking the second record of a run it moves on to the third without comparing it with
  the first. A run of three records therefore leaves two.
\<close>

lemma removeDuplicateBreakpoints_triple:
  "removeDuplicateBreakpoints
     [\<lparr>bpLambdaValue = 1, sourceSetIndicator = [1, 0, 0]\<rparr>,
      \<lparr>bpLambdaValue = 1, sourceSetIndicator = [1, 1, 0]\<rparr>,
      \<lparr>bpLambdaValue = 1, sourceSetIndicator = [1, 1, 1]\<rparr>]
   = Inr [\<lparr>bpLambdaValue = 1, sourceSetIndicator = [1, 0, 0]\<rparr>,
          \<lparr>bpLambdaValue = 1, sourceSetIndicator = [1, 1, 1]\<rparr>]"
  by (simp add: removeDuplicateBreakpoints_def)

text \<open>
  On a non-empty list in which no lambda value occurs three times in a row, the pass keeps
  the first record of every run of equal lambda values and drops the others.
\<close>

lemma removeDuplicateBreakpoints_pairs:
  assumes "bps \<noteq> []" and "noTripleRun bps"
  shows "removeDuplicateBreakpoints bps = Inr (keepFirstOfRuns bps)"
  using assms
  by (cases bps) (simp_all add: removeDuplicateBreakpoints_def dedupLoop_keepFirst)

subsection \<open>Placement of nodes by contractProblem (C5)\<close>

lemma fold_countStep:
  "length (filter (toSource old lo) is) + length (filter (toSink old lo hi) is) \<le> c \<Longrightarrow>
   fold (countStep old lo hi) is (a, b, c) =
     (a + length (filter (toSource old lo) is),
      b + length (filter (toSink old lo hi) is),
      c - length (filter (toSource old lo) is) - length (filter (toSink old lo hi) is))"
proof (induction "is" arbitrary: a b c)
  case Nil
  then show ?case by simp
next
  case (Cons i "is")
  show ?case
  proof (cases "toSource old lo i")
    case True
    then have ns: "\<not> toSink old lo hi i" by (simp add: toSource_def toSink_def)
    have st: "countStep old lo hi i (a, b, c) = (a + 1, b, c - 1)"
      using True by (simp add: countStep_def toSource_def)
    have le: "length (filter (toSource old lo) is) + length (filter (toSink old lo hi) is) \<le> c - 1"
      using Cons.prems True ns by simp
    show ?thesis using Cons.IH[OF le] st True ns Cons.prems by simp
  next
    case False
    show ?thesis
    proof (cases "toSink old lo hi i")
      case True
      have st: "countStep old lo hi i (a, b, c) = (a, b + 1, c - 1)"
        using True by (simp add: countStep_def toSink_def)
      have le: "length (filter (toSource old lo) is) + length (filter (toSink old lo hi) is) \<le> c - 1"
        using Cons.prems True False by simp
      show ?thesis using Cons.IH[OF le] st True False Cons.prems by simp
    next
      case nk: False
      have st: "countStep old lo hi i (a, b, c) = (a, b, c)"
        using nk False by (auto simp: countStep_def toSink_def toSource_def Let_def)
      have le: "length (filter (toSource old lo) is) + length (filter (toSink old lo hi) is) \<le> c"
        using Cons.prems nk False by simp
      show ?thesis using Cons.IH[OF le] st nk False by simp
    qed
  qed
qed

lemma three_way_length:
  "length (filter (toSource old lo) is) + length (filter (toSink old lo hi) is)
     + length (filter (staysUndecided old lo hi) is) = length is"
  by (induction "is") (auto simp: toSource_def toSink_def staysUndecided_def)

lemma take_Suc_update:
  "k < length xs \<Longrightarrow> take (Suc k) (xs[k := x]) = take k xs @ [x]"
  by (simp add: take_Suc_conv_app_nth)

lemma fold_contractNodeStep:
  assumes "cs + length (filter (toSource old lo) is) \<le> length ss"
    and "ck + length (filter (toSink old lo hi) is) \<le> length ks"
    and "cn + length (filter (staysUndecided old lo hi) is) \<le> length nl"
  shows "\<exists>nm' nl' ss' ks'.
     fold (contractNodeStep old lo hi) is (nm, nl, ss, ks, cn, cs, ck) =
       (nm', nl', ss', ks',
        cn + length (filter (staysUndecided old lo hi) is),
        cs + length (filter (toSource old lo) is),
        ck + length (filter (toSink old lo hi) is))
     \<and> length nl' = length nl \<and> length ss' = length ss \<and> length ks' = length ks
     \<and> map originalIndex (take (cs + length (filter (toSource old lo) is)) ss') =
         map originalIndex (take cs ss)
           @ map (\<lambda>i. originalIndex (old ! i)) (filter (toSource old lo) is)
     \<and> map originalIndex (take (ck + length (filter (toSink old lo hi) is)) ks') =
         map originalIndex (take ck ks)
           @ map (\<lambda>i. originalIndex (old ! i)) (filter (toSink old lo hi) is)
     \<and> map originalIndex (take (cn + length (filter (staysUndecided old lo hi) is)) nl') =
         map originalIndex (take cn nl)
           @ map (\<lambda>i. originalIndex (old ! i)) (filter (staysUndecided old lo hi) is)"
  using assms
proof (induction "is" arbitrary: nm nl ss ks cn cs ck)
  case Nil
  then show ?case by simp
next
  case (Cons i "is")
  consider (src) "toSource old lo i" "\<not> toSink old lo hi i" "\<not> staysUndecided old lo hi i"
    | (snk) "\<not> toSource old lo i" "toSink old lo hi i" "\<not> staysUndecided old lo hi i"
    | (keep) "\<not> toSource old lo i" "\<not> toSink old lo hi i" "staysUndecided old lo hi i"
    by (auto simp: toSource_def toSink_def staysUndecided_def)
  then show ?case
  proof cases
    case src
    let ?x = "(initializeNode cs)\<lparr>originalIndex := originalIndex (old ! i)\<rparr>"
    have st: "contractNodeStep old lo hi i (nm, nl, ss, ks, cn, cs, ck) =
                (nm[i := 0], nl, ss[cs := ?x], ks, cn, cs + 1, ck)"
      using src(1) by (simp add: contractNodeStep_def toSource_def)
    have lt: "cs < length ss" using Cons.prems(1) src(1) by simp
    have p1: "cs + 1 + length (filter (toSource old lo) is) \<le> length (ss[cs := ?x])"
      using Cons.prems(1) src(1) by simp
    have p2: "ck + length (filter (toSink old lo hi) is) \<le> length ks"
      using Cons.prems(2) src(2) by simp
    have p3: "cn + length (filter (staysUndecided old lo hi) is) \<le> length nl"
      using Cons.prems(3) src(3) by simp
    from Cons.IH[OF p1 p2 p3, of "nm[i := 0]"] obtain nm' nl' ss' ks' where
      r: "fold (contractNodeStep old lo hi) is (nm[i := 0], nl, ss[cs := ?x], ks, cn, cs + 1, ck) =
            (nm', nl', ss', ks',
             cn + length (filter (staysUndecided old lo hi) is),
             cs + 1 + length (filter (toSource old lo) is),
             ck + length (filter (toSink old lo hi) is))"
      and l: "length nl' = length nl" "length ss' = length (ss[cs := ?x])" "length ks' = length ks"
      and m1: "map originalIndex (take (cs + 1 + length (filter (toSource old lo) is)) ss') =
         map originalIndex (take (cs + 1) (ss[cs := ?x]))
           @ map (\<lambda>i. originalIndex (old ! i)) (filter (toSource old lo) is)"
      and m2: "map originalIndex (take (ck + length (filter (toSink old lo hi) is)) ks') =
         map originalIndex (take ck ks)
           @ map (\<lambda>i. originalIndex (old ! i)) (filter (toSink old lo hi) is)"
      and m3: "map originalIndex (take (cn + length (filter (staysUndecided old lo hi) is)) nl') =
         map originalIndex (take cn nl)
           @ map (\<lambda>i. originalIndex (old ! i)) (filter (staysUndecided old lo hi) is)"
      by blast
    have tk: "take (cs + 1) (ss[cs := ?x]) = take cs ss @ [?x]"
      using take_Suc_update[OF lt] by simp
    show ?thesis
      using r l m1 m2 m3 src st tk by simp
  next
    case snk
    let ?x = "(initializeNode ck)\<lparr>originalIndex := originalIndex (old ! i)\<rparr>"
    have st: "contractNodeStep old lo hi i (nm, nl, ss, ks, cn, cs, ck) =
                (nm[i := 1], nl, ss, ks[ck := ?x], cn, cs, ck + 1)"
      using snk(1,2) by (simp add: contractNodeStep_def toSource_def toSink_def)
    have lt: "ck < length ks" using Cons.prems(2) snk(2) by simp
    have p1: "cs + length (filter (toSource old lo) is) \<le> length ss"
      using Cons.prems(1) snk(1) by simp
    have p2: "ck + 1 + length (filter (toSink old lo hi) is) \<le> length (ks[ck := ?x])"
      using Cons.prems(2) snk(2) by simp
    have p3: "cn + length (filter (staysUndecided old lo hi) is) \<le> length nl"
      using Cons.prems(3) snk(3) by simp
    from Cons.IH[OF p1 p2 p3, of "nm[i := 1]"] obtain nm' nl' ss' ks' where
      r: "fold (contractNodeStep old lo hi) is (nm[i := 1], nl, ss, ks[ck := ?x], cn, cs, ck + 1) =
            (nm', nl', ss', ks',
             cn + length (filter (staysUndecided old lo hi) is),
             cs + length (filter (toSource old lo) is),
             ck + 1 + length (filter (toSink old lo hi) is))"
      and l: "length nl' = length nl" "length ss' = length ss" "length ks' = length (ks[ck := ?x])"
      and m1: "map originalIndex (take (cs + length (filter (toSource old lo) is)) ss') =
         map originalIndex (take cs ss)
           @ map (\<lambda>i. originalIndex (old ! i)) (filter (toSource old lo) is)"
      and m2: "map originalIndex (take (ck + 1 + length (filter (toSink old lo hi) is)) ks') =
         map originalIndex (take (ck + 1) (ks[ck := ?x]))
           @ map (\<lambda>i. originalIndex (old ! i)) (filter (toSink old lo hi) is)"
      and m3: "map originalIndex (take (cn + length (filter (staysUndecided old lo hi) is)) nl') =
         map originalIndex (take cn nl)
           @ map (\<lambda>i. originalIndex (old ! i)) (filter (staysUndecided old lo hi) is)"
      by blast
    have tk: "take (ck + 1) (ks[ck := ?x]) = take ck ks @ [?x]"
      using take_Suc_update[OF lt] by simp
    show ?thesis
      using r l m1 m2 m3 snk st tk by simp
  next
    case keep
    let ?x = "(initializeNode cn)\<lparr>originalIndex := originalIndex (old ! i)\<rparr>"
    have st: "contractNodeStep old lo hi i (nm, nl, ss, ks, cn, cs, ck) =
                (nm[i := cn], nl[cn := ?x], ss, ks, cn + 1, cs, ck)"
      using keep(1,2,3)
      by (auto simp: contractNodeStep_def toSource_def toSink_def staysUndecided_def Let_def)
    have lt: "cn < length nl" using Cons.prems(3) keep(3) by simp
    have p1: "cs + length (filter (toSource old lo) is) \<le> length ss"
      using Cons.prems(1) keep(1) by simp
    have p2: "ck + length (filter (toSink old lo hi) is) \<le> length ks"
      using Cons.prems(2) keep(2) by simp
    have p3: "cn + 1 + length (filter (staysUndecided old lo hi) is) \<le> length (nl[cn := ?x])"
      using Cons.prems(3) keep(3) by simp
    from Cons.IH[OF p1 p2 p3, of "nm[i := cn]"] obtain nm' nl' ss' ks' where
      r: "fold (contractNodeStep old lo hi) is (nm[i := cn], nl[cn := ?x], ss, ks, cn + 1, cs, ck) =
            (nm', nl', ss', ks',
             cn + 1 + length (filter (staysUndecided old lo hi) is),
             cs + length (filter (toSource old lo) is),
             ck + length (filter (toSink old lo hi) is))"
      and l: "length nl' = length (nl[cn := ?x])" "length ss' = length ss" "length ks' = length ks"
      and m1: "map originalIndex (take (cs + length (filter (toSource old lo) is)) ss') =
         map originalIndex (take cs ss)
           @ map (\<lambda>i. originalIndex (old ! i)) (filter (toSource old lo) is)"
      and m2: "map originalIndex (take (ck + length (filter (toSink old lo hi) is)) ks') =
         map originalIndex (take ck ks)
           @ map (\<lambda>i. originalIndex (old ! i)) (filter (toSink old lo hi) is)"
      and m3: "map originalIndex (take (cn + 1 + length (filter (staysUndecided old lo hi) is)) nl') =
         map originalIndex (take (cn + 1) (nl[cn := ?x]))
           @ map (\<lambda>i. originalIndex (old ! i)) (filter (staysUndecided old lo hi) is)"
      by blast
    have tk: "take (cn + 1) (nl[cn := ?x]) = take cn nl @ [?x]"
      using take_Suc_update[OF lt] by simp
    show ?thesis
      using r l m1 m2 m3 keep st tk by simp
  qed
qed

lemma fold_copySetStep:
  "n \<le> length newSet \<Longrightarrow>
   length (fold (copySetStep oldSet) [0..<n] newSet) = length newSet
   \<and> map originalIndex (take n (fold (copySetStep oldSet) [0..<n] newSet)) =
       map (\<lambda>i. originalIndex (oldSet ! i)) [0..<n]"
proof (induction n)
  case 0
  then show ?case by simp
next
  case (Suc n)
  define xs where "xs = fold (copySetStep oldSet) [0..<n] newSet"
  have IH: "length xs = length newSet"
    "map originalIndex (take n xs) = map (\<lambda>i. originalIndex (oldSet ! i)) [0..<n]"
    using Suc by (simp_all add: xs_def)
  have lt: "n < length xs" using Suc.prems IH(1) by simp
  have f: "fold (copySetStep oldSet) [0..<Suc n] newSet =
             xs[n := (initializeNode n)\<lparr>originalIndex := originalIndex (oldSet ! n)\<rparr>]"
    by (simp add: xs_def copySetStep_def)
  show ?case
    unfolding f using take_Suc_update[OF lt] IH by simp
qed

lemma incAdjacent_originalIndex:
  "map originalIndex (incAdjacent i nl) = map originalIndex nl"
proof (cases "i < length nl")
  case True
  then show ?thesis by (simp add: incAdjacent_def map_update list_update_same_conv)
next
  case False
  then have "nl[i := (nl ! i)\<lparr>numAdjacent := numAdjacent (nl ! i) + 1\<rparr>] = nl"
    by (intro list_update_beyond) simp
  then show ?thesis by (simp add: incAdjacent_def)
qed

lemma copyArcNew_originalIndex:
  "map originalIndex (snd (copyArcNew oldNodes nodeMap a nl)) = map originalIndex nl"
  by (simp add: copyArcNew_def Let_def incAdjacent_originalIndex)

lemma contractArcStep_originalIndex:
  "map originalIndex (fst (snd (contractArcStep oldNodes nodeMap oldArcs sIdx kIdx i st))) =
   map originalIndex (fst (snd st))"
proof -
  obtain al nl c where st: "st = (al, nl, c)" by (cases st) auto
  obtain new nl' where c: "copyArcNew oldNodes nodeMap (oldArcs ! i) nl = (new, nl')"
    by (cases "copyArcNew oldNodes nodeMap (oldArcs ! i) nl") auto
  have "map originalIndex nl' = map originalIndex nl"
    using copyArcNew_originalIndex[of oldNodes nodeMap "oldArcs ! i" nl] c by simp
  then show ?thesis
    by (simp add: st contractArcStep_def Let_def c)
qed

lemma fold_contractArcStep_originalIndex:
  "map originalIndex (fst (snd (fold (contractArcStep oldNodes nodeMap oldArcs sIdx kIdx) is st))) =
   map originalIndex (fst (snd st))"
  by (induction "is" arbitrary: st) (simp_all add: contractArcStep_originalIndex)

lemma evaluateCapacities_fields:
  "evaluateCapacities rnd P = Inr p \<Longrightarrow>
     nodeList p = nodeList P \<and> sourceSet p = sourceSet P \<and> sinkSet p = sinkSet P
     \<and> numNodesInList p = numNodesInList P \<and> numSourceSet p = numSourceSet P
     \<and> numSinkSet p = numSinkSet P \<and> solved p = solved P \<and> lambdaValue p = lambdaValue P
     \<and> numArcsP p = numArcsP P"
  by (auto simp: evaluateCapacities_def split: sum.splits)

text \<open>
  C5. When \<open>contractProblem\<close> returns, the source set of the new problem is the parent's
  source set followed by the undecided parent nodes \<open>j\<close> with \<open>lowInd[j] = 1\<close>, its sink set
  is the parent's sink set followed by the undecided nodes with \<open>lowInd[j] \<noteq> 1\<close> and
  \<open>highInd[j] = 0\<close>, and its node list is the artificial source and sink followed by the
  remaining undecided nodes, each group in the order of the parent's node list; the three
  counts of the new problem are the lengths of these arrays.
\<close>

theorem contractProblem_placement:
  assumes res: "contractProblem rnd old lam lowInd highInd = Inr p"
    and two: "2 \<le> numNodesInList old"
  shows "map originalIndex (sourceSet p) =
           map (\<lambda>i. originalIndex (sourceSet old ! i)) [0..<numSourceSet old]
           @ map (\<lambda>i. originalIndex (nodeList old ! i))
               (filter (toSource (nodeList old) lowInd) [2..<numNodesInList old])
         \<and> map originalIndex (sinkSet p) =
           map (\<lambda>i. originalIndex (sinkSet old ! i)) [0..<numSinkSet old]
           @ map (\<lambda>i. originalIndex (nodeList old ! i))
               (filter (toSink (nodeList old) lowInd highInd) [2..<numNodesInList old])
         \<and> map originalIndex (nodeList p) =
           [- 1, - 2]
           @ map (\<lambda>i. originalIndex (nodeList old ! i))
               (filter (staysUndecided (nodeList old) lowInd highInd) [2..<numNodesInList old])
         \<and> numSourceSet p = length (sourceSet p)
         \<and> numSinkSet p = length (sinkSet p)
         \<and> numNodesInList p = length (nodeList p)"
proof -
  define "is" where "is = [2..<numNodesInList old]"
  define S where "S = length (filter (toSource (nodeList old) lowInd) is)"
  define K where "K = length (filter (toSink (nodeList old) lowInd highInd) is)"
  define U where "U = length (filter (staysUndecided (nodeList old) lowInd highInd) is)"
  have sum: "S + K + U = numNodesInList old - 2"
    using three_way_length[of "nodeList old" lowInd "is" highInd]
    by (simp add: S_def K_def U_def is_def)
  have le: "S + K \<le> numNodesInList old" using sum two by linarith
  have nN: "numNodesInList old - S - K = 2 + U" using sum two by linarith
  have cnt: "fold (countStep (nodeList old) lowInd highInd) is
               (numSourceSet old, numSinkSet old, numNodesInList old) =
             (numSourceSet old + S, numSinkSet old + K, 2 + U)"
    using fold_countStep[of "nodeList old" lowInd "is" highInd "numNodesInList old"
            "numSourceSet old" "numSinkSet old"] le nN
    by (simp add: S_def K_def)
  define ss0 where "ss0 = fold (copySetStep (sourceSet old)) [0..<numSourceSet old]
                            (mallocNodes (numSourceSet old + S))"
  define ks0 where "ks0 = fold (copySetStep (sinkSet old)) [0..<numSinkSet old]
                            (mallocNodes (numSinkSet old + K))"
  define nl0 where "nl0 = (mallocNodes (2 + U))
                  [0 := (initializeNode 0)\<lparr>originalIndex := - 1\<rparr>,
                   1 := (initializeNode 1)\<lparr>originalIndex := - 2\<rparr>]"
  define nodeMap0 where "nodeMap0 = (mallocUint (numNodesInList old))[0 := 0, 1 := 1]"
  have ss0: "length ss0 = numSourceSet old + S"
    "map originalIndex (take (numSourceSet old) ss0) =
       map (\<lambda>i. originalIndex (sourceSet old ! i)) [0..<numSourceSet old]"
    using fold_copySetStep[of "numSourceSet old" "mallocNodes (numSourceSet old + S)" "sourceSet old"]
    by (simp_all add: ss0_def mallocNodes_def)
  have ks0: "length ks0 = numSinkSet old + K"
    "map originalIndex (take (numSinkSet old) ks0) =
       map (\<lambda>i. originalIndex (sinkSet old ! i)) [0..<numSinkSet old]"
    using fold_copySetStep[of "numSinkSet old" "mallocNodes (numSinkSet old + K)" "sinkSet old"]
    by (simp_all add: ks0_def mallocNodes_def)
  have nl0: "length nl0 = 2 + U" "map originalIndex (take 2 nl0) = [- 1, - 2]"
    by (simp_all add: nl0_def mallocNodes_def numeral_2_eq_2 replicate_append_same[symmetric]
          del: replicate.simps)
       (simp add: nth_list_update take_Suc_conv_app_nth initializeNode_def)
  obtain nm' nl' ss' ks' where
    nd: "fold (contractNodeStep (nodeList old) lowInd highInd) is
           (nodeMap0, nl0, ss0, ks0, 2, numSourceSet old, numSinkSet old) =
         (nm', nl', ss', ks', 2 + U, numSourceSet old + S, numSinkSet old + K)"
    and len: "length nl' = length nl0" "length ss' = length ss0" "length ks' = length ks0"
    and m1: "map originalIndex (take (numSourceSet old + S) ss') =
         map originalIndex (take (numSourceSet old) ss0)
           @ map (\<lambda>i. originalIndex (nodeList old ! i)) (filter (toSource (nodeList old) lowInd) is)"
    and m2: "map originalIndex (take (numSinkSet old + K) ks') =
         map originalIndex (take (numSinkSet old) ks0)
           @ map (\<lambda>i. originalIndex (nodeList old ! i))
               (filter (toSink (nodeList old) lowInd highInd) is)"
    and m3: "map originalIndex (take (2 + U) nl') =
         map originalIndex (take 2 nl0)
           @ map (\<lambda>i. originalIndex (nodeList old ! i))
               (filter (staysUndecided (nodeList old) lowInd highInd) is)"
    using fold_contractNodeStep[of "numSourceSet old" "nodeList old" lowInd "is" ss0
            "numSinkSet old" highInd ks0 2 nl0 nodeMap0]
    unfolding S_def[symmetric] K_def[symmetric] U_def[symmetric]
    using ss0(1) ks0(1) nl0(1) by auto
  obtain sIdx kIdx nArcs where
    ca: "fold (countArcStep (nodeList old) nm' (arcListP old)) [0..<numArcsP old]
           (replicate (2 + U) (- 1), replicate (2 + U) (- 1), 0) = (sIdx, kIdx, nArcs)"
    by (metis prod_cases3)
  obtain al nl'' cur where
    cp: "fold (contractArcStep (nodeList old) nm' (arcListP old) sIdx kIdx) [0..<numArcsP old]
           (mallocArcs nArcs, nl', 0) = (al, nl'', cur)"
    by (metis prod_cases3)
  have nl'': "map originalIndex nl'' = map originalIndex nl'"
    using fold_contractArcStep_originalIndex[of "nodeList old" nm' "arcListP old" sIdx kIdx
            "[0..<numArcsP old]" "(mallocArcs nArcs, nl', 0)"] cp by simp
  have lnl'': "length nl'' = length nl'"
    using arg_cong[OF nl'', of length] by simp
  have ev: "evaluateCapacities rnd
             \<lparr> numNodesInList = 2 + U, numSourceSet = numSourceSet old + S,
               numSinkSet = numSinkSet old + K,
               numArcsP = nArcs, solved = 0, lambdaValue = lam,
               arcListP = al, nodeList = nl'',
               cutValue = 0, cutMultiplier = 0, cutConstant = 0,
               sourceSet = ss', sinkSet = ks', optimalSourceSetIndicator = [] \<rparr> = Inr p"
    using res unfolding contractProblem_def is_def[symmetric] cnt prod.case Let_def
      ss0_def[symmetric] ks0_def[symmetric] nl0_def[symmetric] nodeMap0_def[symmetric]
      nd ca cp .
  note f = evaluateCapacities_fields[OF ev]
  have "map originalIndex (take (2 + U) nl'') = map originalIndex (take (2 + U) nl')"
    using nl'' by (simp add: take_map[symmetric])
  then show ?thesis
    using f m1 m2 m3 len ss0 ks0 nl0 lnl''
    by (simp add: is_def)
qed

lemma example_upt: "[2..<5] = [2, 3, 4]" "[0..<2] = [0, 1]" "[0..<1] = [0]"
  by (simp_all add: upt_rec)

lemma contract_example:
  "contractProblem 0 parentProblem 1 [1, 1, 0, 0, 0] [1, 1, 1, 0, 0] = Inr contractedProblem"
  by (simp add: contractProblem_def parentProblem_def contractedProblem_def example_upt
      countStep_def copySetStep_def contractNodeStep_def
      countArcStep_def contractArcStep_def copyArcNew_def copyArcAdd_def incAdjacent_def
      mallocNodes_def mallocArcs_def mallocUint_def uint_of_int_def mkArc_def mkNode_def
      initializeNode_def initializeArc_def evaluateCapacities_def TOL_def Let_def eval_nat_numeral)

theorem contractProblem_placement_witness:
  "contractProblem 0 parentProblem 1 [1, 1, 0, 0, 0] [1, 1, 1, 0, 0] = Inr contractedProblem
   \<and> 2 \<le> numNodesInList parentProblem
   \<and> map originalIndex (sourceSet contractedProblem) = [0, 1]
   \<and> map originalIndex (sinkSet contractedProblem) = [4, 3]
   \<and> map originalIndex (nodeList contractedProblem) = [- 1, - 2, 2]"
proof -
  have two: "2 \<le> numNodesInList parentProblem" by (simp add: parentProblem_def)
  show ?thesis
    using contractProblem_placement[OF contract_example two] contract_example two
    by (simp add: parentProblem_def example_upt toSource_def toSink_def staysUndecided_def
          uint_of_int_def mkNode_def initializeNode_def)
qed

subsection \<open>The run on the four-node chain\<close>

text \<open>
  The run of \<open>hpf_solve\<close> on the four-node chain, evaluated step by step: the two solves
  of the engine with the states between their parts, and the output.
\<close>

lemma usub_small: "b \<le> a \<Longrightarrow> a < 4294967296 \<Longrightarrow> usub a b = a - b"
  unfolding usub_def by (simp add: nat_mod_distrib of_nat_diff nat_diff_distrib)

lemma uadd_small: "a + b < 4294967296 \<Longrightarrow> uadd a b = a + b"
  unfolding uadd_def by simp

lemma list_update_numeral: "(x # xs)[numeral k := y] = x # xs[pred_numeral k := y]"
  by (simp add: numeral_eq_Suc)

lemma fuel_numeral:
  "liftAllLoop (numeral k) = liftAllLoop (Suc (pred_numeral k))"
  "findPrevSibling (numeral k) = findPrevSibling (Suc (pred_numeral k))"
  "mergeLoop (numeral k) = mergeLoop (Suc (pred_numeral k))"
  "pushExcessLoop (numeral k) = pushExcessLoop (Suc (pred_numeral k))"
  "findWeakLoop (numeral k) = findWeakLoop (Suc (pred_numeral k))"
  "checkChildrenLoop (numeral k) = checkChildrenLoop (Suc (pred_numeral k))"
  "gapLoop (numeral k) = gapLoop (Suc (pred_numeral k))"
  "scanLabels n (numeral k) = scanLabels n (Suc (pred_numeral k))"
  "promoteLoop (numeral k) = promoteLoop (Suc (pred_numeral k))"
  "processLoop (numeral k) = processLoop (Suc (pred_numeral k))"
  "pseudoflowPhase1 (numeral k) = pseudoflowPhase1 (Suc (pred_numeral k))"
  by (simp_all only: numeral_eq_Suc)

lemmas engine_defs =
  node_def updNode_def updArc_def decLabelCount_def incLabelCount_def addToStrongBucketE_def
  addToStrongBucket_def liftVisit_def liftAll_def addRelationship_def breakRelationship_def
  merge_def pushUpward_def pushDownward_def pushExcess_def takeOutOfTree_def findWeakNode_def
  checkChildren_def popBucket_def getHighestStrongRoot_def mergeAndPush_def processRoot_def
  isExcess_def Let_def

lemmas solve_defs = createMemoryStructures_def placeArcStep_def
  addOutOfTreeNode_def createOutOfTree_def simpleInitialization_def saturateSourceStep_def
  saturateSinkStep_def labelStep_def addToStrongBucket_def isExcess_def reverseArc_def initializeArc_def
  mkNode_def mkArc_def initializeNode_def Let_def

lemmas exit_defs = solveExit_def freeMemorySolve_def evaluateCut_def evaluateCutStep_def
  markSet_def labelToSide_def mallocUint_def uint_of_int_def 
  mkNode_def mkArc_def initializeNode_def Let_def

lemma chain_upt: "[0..<4] = [0, 1, 2, 3]" "[0..<3] = [0, 1, 2]" "[0..<1] = [0]" "[2..<4] = [2, 3]" "[0..<2] = [0,1]"
  by (simp_all add: upt_rec)

lemma chain_replicate: "replicate 2 x = [x, x]" "replicate 4 x = [x, x, x, x]" "replicate 3 x = [x, x, x]"
  by (simp_all add: numeral_2_eq_2 numeral_3_eq_3 numeral_Bit0)

lemma solveProblem_phases:
  "numNodesInList problem \<noteq> 2 \<Longrightarrow>
   solveProblem ph n e problem m =
     (case ph (simpleInitialization (createMemoryStructures (solveEntry e problem m))) of
        None \<Rightarrow> None
      | Some e3 \<Rightarrow> Some (solveExit m e3 problem))"
  unfolding solveProblem_def solveEntry_def solveExit_def Let_def
  by (simp split: option.splits)

lemma chain_read:
  "readGraphSuper [0, 1, 5, 0, 2, 3, 2, 0, 1, 2, 1, 0]
     (reset_globals\<lparr> numNodesSuper := uint_of_int 4, numArcsSuper := uint_of_int 3,
        engine := (engine reset_globals)\<lparr> source := uint_of_int 0, sink := uint_of_int 3 \<rparr>,
        LAMBDA_LOW := fst (0, 1), LAMBDA_HIGH := snd (0, 1),
        roundNegativeCapacity := uint_of_int 0 \<rparr>) = chainGlobals"
  by (simp add: readGraphSuper_def chainGlobals_def reset_globals_def chain_upt chain_replicate list_update_numeral
    readArcStep_def uint_of_int_def mkNode_def mkArc_def
    mallocArcs_def incAdjacent_def int_of_double_def initializeNode_def initializeArc_def)

lemma chain_init:
  "initializeParametricCut chainGlobals = Inr (chainProblem 0, Some (chainProblem 1))"
  by (simp add: initializeParametricCut_def initializeProblem_def chainGlobals_def chainProblem_def
    reset_globals_def chain_upt chain_replicate list_update_numeral initNodeStep_def
    copyArcsStep_def copyArcNew_def incAdjacent_def mallocNodes_def mallocArcs_def mallocUint_def
    mkNode_def mkArc_def
    initializeNode_def initializeArc_def evaluateCapacities_def TOL_def Let_def)

lemma chain_entry_low:
  "simpleInitialization (createMemoryStructures (solveEntry (engine chainGlobals) (chainProblem 0) 0))
     = chainStartLow"
  by (simp add: chainGlobals_def chainProblem_def chainStartLow_def reset_globals_def solveEntry_def
      solve_defs chain_upt chain_replicate usub_small uadd_small list_update_numeral)

lemma chain_phase1_low: "pseudoflowPhase1 6 chainStartLow = Some chainEndLow"
  by (simp add: chainStartLow_def chainEndLow_def mkNode_def mkArc_def initializeNode_def
      engine_defs usub_small uadd_small list_update_numeral fuel_numeral
      del: Suc_numeral cong: prod.case_cong_weak)

lemma chain_exit_low: "solveExit 0 chainEndLow (chainProblem 0) = (chainEngineLow, chainSolvedLow)"
  by (simp add: chainEndLow_def chainProblem_def chainEngineLow_def chainSolvedLow_def
       exit_defs chain_upt chain_replicate list_update_numeral)

lemma chain_entry_high: "solveEntry chainEngineLow (chainProblem 1) 1 = exampleEngine"
  by (simp add: solveEntry_def chainEngineLow_def chainEndLow_def chainProblem_def exampleEngine_def
       reverseArc_def initializeArc_def mkArc_def)

lemma example_initialization:
  "simpleInitialization (createMemoryStructures exampleEngine) = exampleEngineInit"
  by (simp add: exampleEngine_def exampleEngineInit_def solve_defs chain_upt chain_replicate usub_small uadd_small
       list_update_numeral)

lemma chain_phase1_high: "pseudoflowPhase1 6 exampleEngineInit = Some chainEndHigh"
  by (simp add: exampleEngineInit_def chainEndHigh_def mkNode_def mkArc_def initializeNode_def
      engine_defs usub_small uadd_small list_update_numeral fuel_numeral
      del: Suc_numeral cong: prod.case_cong_weak)

lemma chain_exit_high: "solveExit 1 chainEndHigh (chainProblem 1) = (chainEngineHigh, chainSolvedHigh)"
  by (simp add: chainEndHigh_def chainProblem_def chainEngineHigh_def chainSolvedHigh_def
       exit_defs chain_upt chain_replicate list_update_numeral)

lemma chain_solve_low:
  "solveProblem (pseudoflowPhase1 6) 4 (engine chainGlobals) (chainProblem 0) 0 =
     Some (chainEngineLow, chainSolvedLow)"
proof -
  have "numNodesInList (chainProblem 0) \<noteq> 2" by (simp add: chainProblem_def)
  from solveProblem_phases[OF this] show ?thesis
    by (simp add: chain_entry_low chain_phase1_low chain_exit_low)
qed

lemma chain_solve_high:
  "solveProblem (pseudoflowPhase1 6) 4 chainEngineLow (chainProblem 1) 1 =
     Some (chainEngineHigh, chainSolvedHigh)"
proof -
  have "numNodesInList (chainProblem 1) \<noteq> 2" by (simp add: chainProblem_def)
  from solveProblem_phases[OF this] show ?thesis
    by (simp add: chain_entry_high[unfolded One_nat_def] example_initialization chain_phase1_high
         chain_exit_high[unfolded One_nat_def])
qed

lemma bindR_simps:
  "bindR None f = None"
  "bindR (Some (Inl e)) f = Some (Inl e)"
  "bindR (Some (Inr x)) f = f x"
  by (simp_all add: bindR_def)

lemma chain_cut:
  "parametricCut (pseudoflowPhase1 6) 1 chainGlobals (chainProblem 0) (chainProblem 1) =
     Some (Inr (chainGlobals\<lparr> engine := chainEngineHigh,
                  breakpoints := [\<lparr> bpLambdaValue = 1, sourceSetIndicator = [1, 1, 0, 0] \<rparr>] \<rparr>,
                chainSolvedLow\<lparr>solved := 1\<rparr>, chainSolvedHigh\<lparr>solved := 1\<rparr>))"
proof -
  have n: "numNodesSuper chainGlobals = 4" "breakpoints chainGlobals = []"
    by (simp_all add: chainGlobals_def reset_globals_def)
  have s: "solved (chainProblem 0) = 0" "solved (chainProblem 1) = 0"
    by (simp_all add: chainProblem_def)
  have c: "\<not> lambdaIntersectExists (chainSolvedLow\<lparr>solved := Suc 0\<rparr>) (chainSolvedHigh\<lparr>solved := Suc 0\<rparr>)"
    by (simp add: lambdaIntersectExists_def chainSolvedLow_def chainSolvedHigh_def chainProblem_def
         dabs_def TOL_def)
  have v: "lambdaValue chainSolvedHigh = 1" "optimalSourceSetIndicator chainSolvedHigh = [1, 1, 0, 0]"
    by (simp_all add: chainSolvedHigh_def chainProblem_def)
  show ?thesis
    unfolding One_nat_def parametricCut.simps Let_def
    by (simp add: solveIfNeeded_def n s chain_solve_low chain_solve_high[unfolded One_nat_def]
          bindR_simps intersectCases_def c addBreakpointG_def addBreakpoint_def v)
qed

lemma chain_run:
  "hpf_solve (pseudoflowPhase1 6) 1 4 3 0 3 [0, 1, 5, 0, 2, 3, 2, 0, 1, 2, 1, 0] (0, 1) 0 =
     Some (Inr \<lparr> numBreakpoints = 1, cuts = [1, 1, 0, 0], breakpointsOut = [1],
                 stats = [2, 2, 2, 2, 2] \<rparr>)"
proof -
  have u: "useParametricCut chainGlobals = 1"
    by (simp add: chainGlobals_def reset_globals_def)
  have "hpf_solve (pseudoflowPhase1 6) 1 4 3 0 3 [0, 1, 5, 0, 2, 3, 2, 0, 1, 2, 1, 0] (0, 1) 0 =
          bindR (Some (removeDuplicateBreakpoints
                         [\<lparr> bpLambdaValue = 1, sourceSetIndicator = [1, 1, 0, 0] \<rparr>]))
            (\<lambda>bps. Some (Inr (prepareOutput (chainGlobals\<lparr> engine := chainEngineHigh,
                                                           breakpoints := bps \<rparr>))))"
    unfolding hpf_solve_def Let_def chain_read chain_init bindR_simps prod.case u
      option.sel chain_cut
    by simp
  then show ?thesis
    by (simp add: removeDuplicateBreakpoints_def bindR_simps
          prepareOutput_def chain_upt chainGlobals_def reset_globals_def chainEngineHigh_def
          chainEndHigh_def)
qed

subsection \<open>The run on the five-node graph\<close>

text \<open>
  The run of \<open>hpf_solve\<close> on the five-node graph, step by step up to the third solve.
\<close>

lemma spur_upt: "[0..<5] = [0, 1, 2, 3, 4]" "[0..<4] = [0, 1, 2, 3]" "[0..<3] = [0, 1, 2]"
  "[0..<2] = [0, 1]" "[0..<1] = [0]" "[2..<5] = [2, 3, 4]" "[2..<3] = [2]"
  by (simp_all add: upt_rec)

lemma spur_replicate: "replicate 5 x = [x, x, x, x, x]" "replicate 4 x = [x, x, x, x]"
  "replicate 3 x = [x, x, x]" "replicate 2 x = [x, x]"
  by (simp_all add: numeral_2_eq_2 numeral_3_eq_3 numeral_Bit0 numeral_Bit1)

lemma spur_read:
  "readGraphSuper [0, 3, 4, 0, 3, 1, 3, 0, 1, 4, 5, - 1, 2, 4, 2, 0]
     (reset_globals\<lparr> numNodesSuper := uint_of_int 5, numArcsSuper := uint_of_int 4,
        engine := (engine reset_globals)\<lparr> source := uint_of_int 0, sink := uint_of_int 4 \<rparr>,
        LAMBDA_LOW := fst (0, 4), LAMBDA_HIGH := snd (0, 4),
        roundNegativeCapacity := uint_of_int 0 \<rparr>) = spurGlobals"
  by (simp add: readGraphSuper_def spurGlobals_def reset_globals_def spur_upt spur_replicate
    list_update_numeral readArcStep_def uint_of_int_def mkNode_def mkArc_def
    mallocArcs_def incAdjacent_def int_of_double_def initializeNode_def initializeArc_def
      cong: prod.case_cong_weak)

lemma spur_init:
  "initializeParametricCut spurGlobals = Inr (spurProblemLow, Some spurProblemHigh)"
  by (simp add: initializeParametricCut_def initializeProblem_def spurGlobals_def
    spurProblemLow_def spurProblemHigh_def
    reset_globals_def spur_upt spur_replicate list_update_numeral initNodeStep_def
    copyArcsStep_def copyArcNew_def incAdjacent_def mallocNodes_def mallocArcs_def mallocUint_def
    mkNode_def mkArc_def
    initializeNode_def initializeArc_def evaluateCapacities_def TOL_def Let_def
      cong: prod.case_cong_weak)

lemma spur_start_low:
  "simpleInitialization (createMemoryStructures (solveEntry (engine spurGlobals) spurProblemLow 0))
     = spurStartLow"
  by (simp add: spurGlobals_def spurProblemLow_def spurStartLow_def reset_globals_def solveEntry_def
      solve_defs spur_upt spur_replicate usub_small uadd_small list_update_numeral
      cong: prod.case_cong_weak)

lemma spur_phase1_low: "pseudoflowPhase1 8 spurStartLow = Some spurEndLow"
  by (simp add: spurStartLow_def spurEndLow_def mkNode_def mkArc_def initializeNode_def
      engine_defs usub_small uadd_small list_update_numeral fuel_numeral
      del: Suc_numeral cong: prod.case_cong_weak)

lemma spur_exit_low: "solveExit 0 spurEndLow spurProblemLow = (spurEngineLow, spurSolvedLow)"
  by (simp add: spurEndLow_def spurProblemLow_def spurEngineLow_def spurSolvedLow_def
       exit_defs spur_upt spur_replicate list_update_numeral
      cong: prod.case_cong_weak)

lemma spur_start_high:
  "simpleInitialization (createMemoryStructures (solveEntry spurEngineLow spurProblemHigh (Suc 0)))
     = spurStartHigh"
  by (simp add: spurEngineLow_def spurProblemHigh_def spurStartHigh_def solveEntry_def
      solve_defs spur_upt spur_replicate usub_small uadd_small list_update_numeral
      cong: prod.case_cong_weak)

lemma spur_phase1_high: "pseudoflowPhase1 8 spurStartHigh = Some spurEndHigh"
  by (simp add: spurStartHigh_def spurEndHigh_def mkNode_def mkArc_def initializeNode_def
      engine_defs usub_small uadd_small list_update_numeral fuel_numeral
      del: Suc_numeral cong: prod.case_cong_weak)

lemma spur_exit_high:
  "solveExit (Suc 0) spurEndHigh spurProblemHigh = (spurEngineHigh, spurSolvedHigh)"
  by (simp add: spurEndHigh_def spurProblemHigh_def spurEngineHigh_def spurSolvedHigh_def
       exit_defs spur_upt spur_replicate list_update_numeral
      cong: prod.case_cong_weak)

lemma spur_solve_low:
  "solveProblem (pseudoflowPhase1 8) 5 (engine spurGlobals) spurProblemLow 0 =
     Some (spurEngineLow, spurSolvedLow)"
proof -
  have "numNodesInList spurProblemLow \<noteq> 2" by (simp add: spurProblemLow_def)
  from solveProblem_phases[OF this] show ?thesis
    by (simp add: spur_start_low spur_phase1_low spur_exit_low)
qed

lemma spur_solve_high:
  "solveProblem (pseudoflowPhase1 8) 5 spurEngineLow spurProblemHigh (Suc 0) =
     Some (spurEngineHigh, spurSolvedHigh)"
proof -
  have "numNodesInList spurProblemHigh \<noteq> 2" by (simp add: spurProblemHigh_def)
  from solveProblem_phases[OF this] show ?thesis
    by (simp add: spur_start_high spur_phase1_high spur_exit_high)
qed

lemma spur_intersect:
  "lambdaIntersectExists (spurSolvedLow\<lparr>solved := Suc 0\<rparr>) (spurSolvedHigh\<lparr>solved := Suc 0\<rparr>)"
  "lambdaIntersect (spurSolvedLow\<lparr>solved := Suc 0\<rparr>) (spurSolvedHigh\<lparr>solved := Suc 0\<rparr>) = 2"
  by (simp_all add: lambdaIntersect_def lambdaIntersectExists_def spurSolvedLow_def
        spurSolvedHigh_def dabs_def TOL_def)

lemma spur_contract:
  "contractProblem 0 (spurSolvedLow\<lparr>solved := Suc 0\<rparr>) 2 [1, 0, 0, 1, 0] [1, 1, 0, 1, 0] =
     Inr spurProblemMid"
  by (simp add: contractProblem_def spurSolvedLow_def spurProblemMid_def spur_upt spur_replicate
       list_update_numeral countStep_def copySetStep_def contractNodeStep_def countArcStep_def
       contractArcStep_def copyArcNew_def copyArcAdd_def incAdjacent_def mallocNodes_def
       mallocArcs_def mallocUint_def uint_of_int_def mkNode_def mkArc_def initializeNode_def
       initializeArc_def evaluateCapacities_def TOL_def Let_def
      cong: prod.case_cong_weak)

lemma spur_start_mid:
  "simpleInitialization (createMemoryStructures (solveEntry spurEngineHigh spurProblemMid (Suc 0)))
     = spurStartMid"
  by (simp add: spurEngineHigh_def spurProblemMid_def spurStartMid_def solveEntry_def
      solve_defs spur_upt spur_replicate usub_small uadd_small list_update_numeral
      cong: prod.case_cong_weak)

lemma spur_root_mid: "getHighestStrongRoot n spurStartMid = None"
  by (simp add: getHighestStrongRoot_def spurStartMid_def fuel_numeral del: Suc_numeral)

lemma spur_phase1_mid: "pseudoflowPhase1 n spurStartMid = None"
  by (cases n) (simp_all add: spur_root_mid)

lemma spur_solve_mid:
  "solveProblem (pseudoflowPhase1 n) 5 spurEngineHigh spurProblemMid (Suc 0) = None"
proof -
  have "numNodesInList spurProblemMid \<noteq> 2" by (simp add: spurProblemMid_def)
  from solveProblem_phases[OF this] show ?thesis
    by (simp add: spur_start_mid spur_phase1_mid)
qed

lemma spur_cut:
  "parametricCut (pseudoflowPhase1 8) 2 spurGlobals spurProblemLow spurProblemHigh = None"
proof -
  let ?g2 = "spurGlobals\<lparr>engine := spurEngineHigh\<rparr>"
  let ?low = "spurSolvedLow\<lparr>solved := Suc 0\<rparr>"
  let ?high = "spurSolvedHigh\<lparr>solved := Suc 0\<rparr>"
  have n: "numNodesSuper spurGlobals = 5" "roundNegativeCapacity spurGlobals = 0"
    by (simp_all add: spurGlobals_def reset_globals_def)
  have s: "solved spurProblemLow = 0" "solved spurProblemHigh = 0" "solved spurProblemMid = 0"
    by (simp_all add: spurProblemLow_def spurProblemHigh_def spurProblemMid_def)
  have v: "lambdaValue ?low = 0" "lambdaValue ?high = 4"
    "optimalSourceSetIndicator ?low = [1, 0, 0, 1, 0]"
    "optimalSourceSetIndicator ?high = [1, 1, 0, 1, 0]"
    by (simp_all add: spurSolvedLow_def spurSolvedHigh_def)
  have inner: "parametricCut (pseudoflowPhase1 8) (Suc 0) ?g2 ?low spurProblemMid = None"
    by (simp add: solveIfNeeded_def s n spur_solve_mid bindR_simps)
  have cases: "intersectCases (parametricCut (pseudoflowPhase1 8) (Suc 0)) ?g2 ?low ?high = None"
    unfolding intersectCases_def
    by (simp add: spur_intersect v n TOL_def roundDouble_eval spur_contract[unfolded One_nat_def] bindR_simps inner
          del: parametricCut.simps)
  have two: "(2::nat) = Suc (Suc 0)" by simp
  show ?thesis
    apply (subst two)
    apply (subst parametricCut.simps(2))
    apply (simp add: solveIfNeeded_def n s spur_solve_low spur_solve_high bindR_simps cases
          del: parametricCut.simps)
    done
qed

lemma spur_run:
  "hpf_solve (pseudoflowPhase1 8) 2 5 4 0 4 [0, 3, 4, 0, 3, 1, 3, 0, 1, 4, 5, - 1, 2, 4, 2, 0]
     (0, 4) 0 = None"
proof -
  have u: "useParametricCut spurGlobals = 1"
    by (simp add: spurGlobals_def reset_globals_def)
  show ?thesis
    unfolding hpf_solve_def Let_def spur_read spur_init bindR_simps prod.case u
      option.sel spur_cut
    by simp
qed

subsection \<open>The run on scenario 3\<close>

text \<open>
  The run of \<open>hpf_solve\<close> on scenario 3: four solves, one recursion on each side of the
  intersection at \<open>lambda = 10\<close>, three breakpoints appended, two returned.
\<close>

lemma line_read:
  "readGraphSuper [0, 1, 0, 1, 1, 2, 10, 0]
     (reset_globals\<lparr> numNodesSuper := uint_of_int 3, numArcsSuper := uint_of_int 2,
        engine := (engine reset_globals)\<lparr> source := uint_of_int 0, sink := uint_of_int 2 \<rparr>,
        LAMBDA_LOW := fst (0, 20), LAMBDA_HIGH := snd (0, 20),
        roundNegativeCapacity := uint_of_int 0 \<rparr>) = lineGlobals"
  by (simp add: readGraphSuper_def lineGlobals_def reset_globals_def spur_upt spur_replicate
    list_update_numeral readArcStep_def uint_of_int_def mkNode_def mkArc_def
    mallocArcs_def incAdjacent_def int_of_double_def initializeNode_def initializeArc_def
      cong: prod.case_cong_weak)

lemma line_init:
  "initializeParametricCut lineGlobals = Inr (lineProblem 0, Some (lineProblem 20))"
  by (simp add: initializeParametricCut_def initializeProblem_def lineGlobals_def
    lineProblem_def
    reset_globals_def spur_upt spur_replicate list_update_numeral initNodeStep_def
    copyArcsStep_def copyArcNew_def incAdjacent_def mallocNodes_def mallocArcs_def mallocUint_def
    mkNode_def mkArc_def
    initializeNode_def initializeArc_def evaluateCapacities_def TOL_def Let_def
      cong: prod.case_cong_weak)

lemma line_start_low:
  "simpleInitialization (createMemoryStructures (solveEntry (engine lineGlobals) (lineProblem 0) 0))
     = lineStartLow"
  by (simp add: lineGlobals_def lineProblem_def lineStartLow_def reset_globals_def solveEntry_def
      solve_defs spur_upt spur_replicate usub_small uadd_small list_update_numeral
      cong: prod.case_cong_weak)

lemma line_phase1_low: "pseudoflowPhase1 2 lineStartLow = Some lineStartLow"
  by (simp add: lineStartLow_def mkNode_def mkArc_def initializeNode_def
      engine_defs usub_small uadd_small list_update_numeral fuel_numeral
      del: Suc_numeral cong: prod.case_cong_weak)

lemma line_exit_low: "solveExit 0 lineStartLow (lineProblem 0) = (lineEngineLow, lineSolvedLow)"
  by (simp add: lineStartLow_def lineProblem_def lineEngineLow_def lineSolvedLow_def
       exit_defs spur_upt spur_replicate list_update_numeral cong: prod.case_cong_weak)

lemma line_start_high:
  "simpleInitialization (createMemoryStructures (solveEntry lineEngineLow (lineProblem 20) (Suc 0)))
     = lineStartHigh"
  by (simp add: lineEngineLow_def lineProblem_def lineStartHigh_def solveEntry_def
      solve_defs spur_upt spur_replicate usub_small uadd_small list_update_numeral
      cong: prod.case_cong_weak)

lemma line_phase1_high: "pseudoflowPhase1 2 lineStartHigh = Some lineStartHigh"
  by (simp add: lineStartHigh_def mkNode_def mkArc_def initializeNode_def
      engine_defs usub_small uadd_small list_update_numeral fuel_numeral
      del: Suc_numeral cong: prod.case_cong_weak)

lemma line_exit_high:
  "solveExit (Suc 0) lineStartHigh (lineProblem 20) = (lineEngineHigh, lineSolvedHigh)"
  by (simp add: lineStartHigh_def lineProblem_def lineEngineHigh_def lineSolvedHigh_def
       exit_defs spur_upt spur_replicate list_update_numeral cong: prod.case_cong_weak)

lemma line_start_upper:
  "simpleInitialization (createMemoryStructures (solveEntry lineEngineHigh (lineProblem 10) (Suc 0)))
     = lineStartUpper"
  by (simp add: lineEngineHigh_def lineProblem_def lineStartUpper_def solveEntry_def
      solve_defs spur_upt spur_replicate usub_small uadd_small list_update_numeral
      cong: prod.case_cong_weak)

lemma line_phase1_upper: "pseudoflowPhase1 2 lineStartUpper = Some lineStartUpper"
  by (simp add: lineStartUpper_def mkNode_def mkArc_def initializeNode_def
      engine_defs usub_small uadd_small list_update_numeral fuel_numeral
      del: Suc_numeral cong: prod.case_cong_weak)

lemma line_exit_upper:
  "solveExit (Suc 0) lineStartUpper (lineProblem 10) = (lineEngineUpper, lineSolvedUpper)"
  by (simp add: lineStartUpper_def lineProblem_def lineEngineUpper_def lineSolvedUpper_def
       exit_defs spur_upt spur_replicate list_update_numeral cong: prod.case_cong_weak)

lemma line_start_lower:
  "simpleInitialization (createMemoryStructures (solveEntry lineEngineUpper (lineProblem 10) 0))
     = lineStartLower"
  by (simp add: lineEngineUpper_def lineProblem_def lineStartLower_def solveEntry_def
      solve_defs spur_upt spur_replicate usub_small uadd_small list_update_numeral
      cong: prod.case_cong_weak)

lemma line_phase1_lower: "pseudoflowPhase1 2 lineStartLower = Some lineStartLower"
  by (simp add: lineStartLower_def mkNode_def mkArc_def initializeNode_def
      engine_defs usub_small uadd_small list_update_numeral fuel_numeral
      del: Suc_numeral cong: prod.case_cong_weak)

lemma line_exit_lower:
  "solveExit 0 lineStartLower (lineProblem 10) = (lineEngineLower, lineSolvedLower)"
  by (simp add: lineStartLower_def lineProblem_def lineEngineLower_def lineSolvedLower_def
       exit_defs spur_upt spur_replicate list_update_numeral cong: prod.case_cong_weak)

lemma line_solve_low:
  "solveProblem (pseudoflowPhase1 2) 3 (engine lineGlobals) (lineProblem 0) 0 =
     Some (lineEngineLow, lineSolvedLow)"
proof -
  have "numNodesInList (lineProblem 0) \<noteq> 2" by (simp add: lineProblem_def)
  from solveProblem_phases[OF this] show ?thesis
    by (simp add: line_start_low line_phase1_low line_exit_low)
qed

lemma line_solve_high:
  "solveProblem (pseudoflowPhase1 2) 3 lineEngineLow (lineProblem 20) (Suc 0) =
     Some (lineEngineHigh, lineSolvedHigh)"
proof -
  have "numNodesInList (lineProblem 20) \<noteq> 2" by (simp add: lineProblem_def)
  from solveProblem_phases[OF this] show ?thesis
    by (simp add: line_start_high line_phase1_high line_exit_high)
qed

lemma line_solve_upper:
  "solveProblem (pseudoflowPhase1 2) 3 lineEngineHigh (lineProblem 10) (Suc 0) =
     Some (lineEngineUpper, lineSolvedUpper)"
proof -
  have "numNodesInList (lineProblem 10) \<noteq> 2" by (simp add: lineProblem_def)
  from solveProblem_phases[OF this] show ?thesis
    by (simp add: line_start_upper line_phase1_upper line_exit_upper)
qed

lemma line_solve_lower:
  "solveProblem (pseudoflowPhase1 2) 3 lineEngineUpper (lineProblem 10) 0 =
     Some (lineEngineLower, lineSolvedLower)"
proof -
  have "numNodesInList (lineProblem 10) \<noteq> 2" by (simp add: lineProblem_def)
  from solveProblem_phases[OF this] show ?thesis
    by (simp add: line_start_lower line_phase1_lower line_exit_lower)
qed

lemma line_fields:
  "solved lineLow = 1" "solved lineHigh = 1" "solved lineUpper = 1" "solved lineLower = 1"
  "solved (lineProblem lam) = 0"
  "lambdaValue lineLow = 0" "lambdaValue lineHigh = 20"
  "lambdaValue lineUpper = 10" "lambdaValue lineLower = 10"
  "optimalSourceSetIndicator lineLow = [1, 0, 0]"
  "optimalSourceSetIndicator lineHigh = [1, 1, 0]"
  "optimalSourceSetIndicator lineLower = [1, 0, 0]"
  "cutMultiplier lineLow = 1" "cutConstant lineLow = 0"
  "cutMultiplier lineHigh = 0" "cutConstant lineHigh = 10"
  "cutMultiplier lineUpper = 0" "cutConstant lineUpper = 10"
  "cutMultiplier lineLower = 1" "cutConstant lineLower = 0"
  by (simp_all add: lineLow_def lineHigh_def lineUpper_def lineLower_def lineSolvedLow_def
        lineSolvedHigh_def lineSolvedUpper_def lineSolvedLower_def lineProblem_def)

lemma line_contract_mid:
  "contractProblem 0 lineLow 10 [1, 0, 0] [1, 1, 0] = Inr (lineProblem 10)"
  by (simp add: contractProblem_def lineLow_def lineSolvedLow_def lineProblem_def spur_upt
       spur_replicate
       list_update_numeral countStep_def copySetStep_def contractNodeStep_def countArcStep_def
       contractArcStep_def copyArcNew_def copyArcAdd_def incAdjacent_def mallocNodes_def
       mallocArcs_def mallocUint_def uint_of_int_def mkNode_def mkArc_def initializeNode_def
       initializeArc_def evaluateCapacities_def TOL_def Let_def cong: prod.case_cong_weak)

lemma line_step:
  "numNodesSuper g = 3 \<Longrightarrow> engine g = engine lineGlobals \<Longrightarrow>
   solveIfNeeded (pseudoflowPhase1 2) g (lineProblem 0) 0 =
     Some (Inr (g\<lparr>engine := lineEngineLow\<rparr>, lineLow))"
  "numNodesSuper g = 3 \<Longrightarrow> engine g = lineEngineLow \<Longrightarrow>
   solveIfNeeded (pseudoflowPhase1 2) g (lineProblem 20) (Suc 0) =
     Some (Inr (g\<lparr>engine := lineEngineHigh\<rparr>, lineHigh))"
  "numNodesSuper g = 3 \<Longrightarrow> engine g = lineEngineHigh \<Longrightarrow>
   solveIfNeeded (pseudoflowPhase1 2) g (lineProblem 10) (Suc 0) =
     Some (Inr (g\<lparr>engine := lineEngineUpper\<rparr>, lineUpper))"
  "numNodesSuper g = 3 \<Longrightarrow> engine g = lineEngineUpper \<Longrightarrow>
   solveIfNeeded (pseudoflowPhase1 2) g (lineProblem 10) 0 =
     Some (Inr (g\<lparr>engine := lineEngineLower\<rparr>, lineLower))"
  "solveIfNeeded ph g lineLow m = Some (Inr (g, lineLow))"
  "solveIfNeeded ph g lineHigh m = Some (Inr (g, lineHigh))"
  by (simp_all add: solveIfNeeded_def line_fields line_solve_low line_solve_high line_solve_upper
        line_solve_lower lineLow_def lineHigh_def lineUpper_def lineLower_def)

lemma line_cut_left:
  "numNodesSuper g = 3 \<Longrightarrow> engine g = lineEngineHigh \<Longrightarrow>
   parametricCut (pseudoflowPhase1 2) (Suc 0) g lineLow (lineProblem 10) =
     Some (Inr (addBreakpointG 10 [1, 0, 0] (g\<lparr>engine := lineEngineUpper\<rparr>), lineLow, lineUpper))"
  by (simp add: line_step line_fields bindR_simps intersectCases_def
        lambdaIntersectExists_def lambdaIntersect_def dabs_def TOL_def roundDouble_eval)

lemma line_cut_right:
  "numNodesSuper g = 3 \<Longrightarrow> engine g = lineEngineUpper \<Longrightarrow>
   parametricCut (pseudoflowPhase1 2) (Suc 0) g (lineProblem 10) lineHigh =
     Some (Inr (addBreakpointG 10 [1, 0, 0] (g\<lparr>engine := lineEngineLower\<rparr>), lineLower, lineHigh))"
  by (simp add: line_step line_fields bindR_simps intersectCases_def
        lambdaIntersectExists_def lambdaIntersect_def dabs_def TOL_def roundDouble_eval)

lemma line_cut:
  "parametricCut (pseudoflowPhase1 2) 2 lineGlobals (lineProblem 0) (lineProblem 20) =
     Some (Inr (lineGlobals\<lparr> engine := lineEngineLower,
                  breakpoints := [\<lparr> bpLambdaValue = 10, sourceSetIndicator = [1, 0, 0] \<rparr>,
                                  \<lparr> bpLambdaValue = 10, sourceSetIndicator = [1, 0, 0] \<rparr>,
                                  \<lparr> bpLambdaValue = 20, sourceSetIndicator = [1, 1, 0] \<rparr>] \<rparr>,
                lineLow, lineHigh))"
proof -
  let ?g2 = "lineGlobals\<lparr>engine := lineEngineHigh\<rparr>"
  have n: "numNodesSuper lineGlobals = 3" "roundNegativeCapacity lineGlobals = 0"
    "breakpoints lineGlobals = []"
    by (simp_all add: lineGlobals_def reset_globals_def)
  have c: "contractProblem 0 lineLow 10 [Suc 0, 0, 0] [Suc 0, Suc 0, 0] = Inr (lineProblem 10)"
    using line_contract_mid by simp
  have li: "lambdaIntersectExists lineLow lineHigh" "lambdaIntersect lineLow lineHigh = 10"
    by (simp_all add: lambdaIntersectExists_def lambdaIntersect_def line_fields dabs_def TOL_def roundDouble_eval)
  have cases: "intersectCases (parametricCut (pseudoflowPhase1 2) (Suc 0)) ?g2 lineLow lineHigh =
      Some (Inr (addBreakpointG 10 [1, 0, 0]
                   ((addBreakpointG 10 [1, 0, 0] (?g2\<lparr>engine := lineEngineUpper\<rparr>))
                      \<lparr>engine := lineEngineLower\<rparr>),
                 lineLow, lineHigh))"
    unfolding intersectCases_def
    by (simp add: li line_fields n TOL_def roundDouble_eval c bindR_simps line_cut_left line_cut_right
          addBreakpointG_def del: parametricCut.simps)
  have two: "parametricCut ph 2 = parametricCut ph (Suc (Suc 0))" for ph
    by (simp only: numeral_2_eq_2)
  show ?thesis
    apply (subst two)
    apply (subst parametricCut.simps(2))
    apply (simp add: line_step n line_fields bindR_simps cases addBreakpointG_def addBreakpoint_def
          del: parametricCut.simps)
    done
qed

lemma line_run:
  "hpf_solve (pseudoflowPhase1 2) 2 3 2 0 2 [0, 1, 0, 1, 1, 2, 10, 0] (0, 20) 0 =
     Some (Inr \<lparr> numBreakpoints = 2, cuts = [1, 0, 0, 1, 1, 0], breakpointsOut = [10, 20],
                 stats = [0, 0, 0, 0, 0] \<rparr>)"
proof -
  have u: "useParametricCut lineGlobals = 1"
    by (simp add: lineGlobals_def reset_globals_def)
  have "hpf_solve (pseudoflowPhase1 2) 2 3 2 0 2 [0, 1, 0, 1, 1, 2, 10, 0] (0, 20) 0 =
          bindR (Some (removeDuplicateBreakpoints
                         [\<lparr> bpLambdaValue = 10, sourceSetIndicator = [1, 0, 0] \<rparr>,
                          \<lparr> bpLambdaValue = 10, sourceSetIndicator = [1, 0, 0] \<rparr>,
                          \<lparr> bpLambdaValue = 20, sourceSetIndicator = [1, 1, 0] \<rparr>]))
            (\<lambda>bps. Some (Inr (prepareOutput (lineGlobals\<lparr> engine := lineEngineLower,
                                                          breakpoints := bps \<rparr>))))"
    unfolding hpf_solve_def Let_def line_read line_init bindR_simps prod.case u
      option.sel line_cut
    by simp
  then show ?thesis
    by (simp add: removeDuplicateBreakpoints_def bindR_simps
          prepareOutput_def spur_upt lineGlobals_def reset_globals_def lineEngineLower_def)
qed

subsection \<open>The run on the range that ends at brinkTop\<close>


















subsection \<open>The state after simpleInitialization (C8)\<close>

lemma chain_bucketNodes:
  "chain nl P \<Longrightarrow> P \<noteq> [] \<Longrightarrow> length P \<le> n \<Longrightarrow> bucketNodes nl (Some (hd P)) n = P"
proof (induction nl P arbitrary: n rule: chain.induct)
  case (1 nl)
  then show ?case by simp
next
  case (2 nl a)
  then show ?case by (cases n) auto
next
  case (3 nl a b r)
  then show ?case by (cases n) auto
qed

lemma chain_cong:
  "\<forall>a \<in> set P. nextNode (nl' ! a) = nextNode (nl ! a) \<Longrightarrow> chain nl' P = chain nl P"
  by (induction nl P rule: chain.induct) auto

lemma chain_snoc:
  assumes "chain nl P" and "P \<noteq> []" and "distinct P" and "k \<notin> set P"
    and "\<forall>a \<in> set P. a < length nl" and "k < length nl"
  shows "chain (nl[last P := (nl ! last P)\<lparr>nextNode := Some k\<rparr>,
                   k := X\<lparr>nextNode := None\<rparr>]) (P @ [k])"
  using assms
proof (induction nl P rule: chain.induct)
  case (1 nl)
  then show ?case by simp
next
  case (2 nl a)
  then show ?case by auto
next
  case (3 nl a b r)
  have "chain (nl[last (b # r) := (nl ! last (b # r))\<lparr>nextNode := Some k\<rparr>,
                  k := X\<lparr>nextNode := None\<rparr>]) ((b # r) @ [k])"
    using 3 by auto
  moreover have "a \<noteq> last (b # r)" using 3(4) by (metis distinct.simps(2) last_in_set list.distinct(1))
  moreover have "a \<noteq> k" using 3(5) by auto
  ultimately show ?case using 3(2) by auto
qed

lemma map_update_same:
  "f x = f (xs ! i) \<Longrightarrow> map f (xs[i := x]) = map f xs"
proof (cases "i < length xs")
  case True
  assume "f x = f (xs ! i)"
  then show ?thesis using True by (simp add: map_update list_update_same_conv)
next
  case False
  then have "xs[i := x] = xs" by (intro list_update_beyond) simp
  then show ?thesis by simp
qed

lemma addToStrongBucket_inv:
  assumes inv: "bucketInv nl sr P" and d: "distinct P" and k: "k \<notin> set P" "k < length nl"
    and b: "\<forall>a \<in> set P. a < length nl" and l: "1 < length sr"
    and r: "addToStrongBucket k 1 (nl, sr) = (nl', sr')"
  shows "bucketInv nl' sr' (P @ [k]) \<and> length nl' = length nl \<and> length sr' = length sr
         \<and> map excess nl' = map excess nl \<and> map label nl' = map label nl"
proof (cases "P = []")
  case True
  then have st: "rstart (sr ! 1) = None" using inv by (simp add: bucketInv_def)
  have "nl' = nl[k := (nl ! k)\<lparr>nextNode := None\<rparr>]"
    "sr' = sr[1 := (sr ! 1)\<lparr>rstart := Some k, rend := Some k\<rparr>]"
    using r st by (simp_all add: addToStrongBucket_def)
  then show ?thesis using True k l
    by (simp add: bucketInv_def map_update_same)
next
  case False
  then have st: "rstart (sr ! 1) = Some (hd P)" and en: "rend (sr ! 1) = Some (last P)"
    and ch: "chain nl P"
    using inv by (auto simp: bucketInv_def)
  define e where "e = last P"
  define nl1 where "nl1 = nl[e := (nl ! e)\<lparr>nextNode := Some k\<rparr>]"
  have eq: "nl' = nl1[k := (nl1 ! k)\<lparr>nextNode := None\<rparr>]"
    "sr' = sr[1 := (sr ! 1)\<lparr>rend := Some k\<rparr>]"
    using r st en by (simp_all add: addToStrongBucket_def Let_def nl1_def e_def)
  have eP: "e \<in> set P" using False by (simp add: e_def)
  have elt: "e < length nl" using eP b by blast
  have "chain (nl[last P := (nl ! last P)\<lparr>nextNode := Some k\<rparr>,
                  k := (nl1 ! k)\<lparr>nextNode := None\<rparr>]) (P @ [k])"
    using chain_snoc[OF ch False d k(1) b k(2)] by blast
  then have c': "chain nl' (P @ [k])" by (simp add: eq nl1_def e_def)
  have hd: "hd (P @ [k]) = hd P" using False by simp
  have ex: "map excess nl' = map excess nl"
    unfolding eq nl1_def by (simp add: map_update_same)
  have lb: "map label nl' = map label nl"
    unfolding eq nl1_def by (simp add: map_update_same)
  have ln: "length nl' = length nl" "length sr' = length sr" by (simp_all add: eq nl1_def)
  have "rstart (sr' ! 1) = Some (hd P)" "rend (sr' ! 1) = Some k"
    using st l by (simp_all add: eq)
  then show ?thesis
    using c' hd ex lb ln by (simp add: bucketInv_def)
qed

lemma fold_labelStep:
  assumes "k \<le> length nl0" and "1 < length sr0" and "1 < length lc0"
    and "rstart (sr0 ! 1) = None" and "lc0 ! 1 = 0"
  shows "\<exists>nl sr lc. fold labelStep [0..<k] (nl0, sr0, lc0) = (nl, sr, lc)
     \<and> length nl = length nl0 \<and> length sr = length sr0 \<and> length lc = length lc0
     \<and> map excess nl = map excess nl0
     \<and> (\<forall>i<length nl0. label (nl ! i) =
            (if i < k \<and> excess (nl0 ! i) > 0 then 1 else label (nl0 ! i)))
     \<and> bucketInv nl sr (filter (\<lambda>i. excess (nl0 ! i) > 0) [0..<k])
     \<and> lc ! 1 = length (filter (\<lambda>i. excess (nl0 ! i) > 0) [0..<k]) mod 2 ^ 32"
  using assms(1)
proof (induction k)
  case 0
  then show ?case using assms(4,5) by (simp add: bucketInv_def)
next
  case (Suc k)
  define P where "P = filter (\<lambda>i. excess (nl0 ! i) > 0) [0..<k]"
  from Suc obtain nl sr lc where
    f: "fold labelStep [0..<k] (nl0, sr0, lc0) = (nl, sr, lc)"
    and len: "length nl = length nl0" "length sr = length sr0" "length lc = length lc0"
    and ex: "map excess nl = map excess nl0"
    and lab: "\<forall>i<length nl0. label (nl ! i) =
            (if i < k \<and> excess (nl0 ! i) > 0 then 1 else label (nl0 ! i))"
    and inv: "bucketInv nl sr P"
    and cnt: "lc ! 1 = length P mod 2 ^ 32"
    unfolding P_def by (metis Suc_leD)
  have klt: "k < length nl0" using Suc.prems by simp
  have exk: "excess (nl ! k) = excess (nl0 ! k)"
    using ex klt len(1) by (metis nth_map)
  show ?case
  proof (cases "excess (nl0 ! k) > 0")
    case False
    then have "labelStep k (nl, sr, lc) = (nl, sr, lc)"
      using exk by (simp add: labelStep_def isExcess_def)
    then have "fold labelStep [0..<Suc k] (nl0, sr0, lc0) = (nl, sr, lc)"
      using f by simp
    moreover have "filter (\<lambda>i. excess (nl0 ! i) > 0) [0..<Suc k] = P"
      using False by (simp add: P_def)
    moreover have "\<forall>i<length nl0. label (nl ! i) =
            (if i < Suc k \<and> excess (nl0 ! i) > 0 then 1 else label (nl0 ! i))"
      using lab False by (auto simp: less_Suc_eq)
    ultimately show ?thesis using len ex inv cnt by simp
  next
    case True
    define nl1 where "nl1 = nl[k := (nl ! k)\<lparr>label := 1\<rparr>]"
    obtain nl' sr' where a: "addToStrongBucket k 1 (nl1, sr) = (nl', sr')"
      by (cases "addToStrongBucket k 1 (nl1, sr)") auto
    have st: "labelStep k (nl, sr, lc) = (nl', sr', lc[1 := uadd (lc ! 1) 1])"
      using True exk a by (simp add: labelStep_def isExcess_def nl1_def)
    have "\<forall>a \<in> set P. nextNode (nl1 ! a) = nextNode (nl ! a)"
      using klt len(1) by (simp add: nl1_def nth_list_update)
    then have "chain nl1 P = chain nl P" by (rule chain_cong)
    then have inv1: "bucketInv nl1 sr P"
      using inv by (simp add: bucketInv_def)
    have dP: "distinct P" "k \<notin> set P" by (simp_all add: P_def)
    have bP: "\<forall>a \<in> set P. a < length nl1" using klt len(1) by (auto simp: P_def nl1_def)
    have k1: "k < length nl1" using klt len(1) by (simp add: nl1_def)
    have l1: "1 < length sr" using assms(2) len(2) by simp
    from addToStrongBucket_inv[OF inv1 dP(1) dP(2) k1 bP l1 a]
    have r: "bucketInv nl' sr' (P @ [k])" "length nl' = length nl1" "length sr' = length sr"
      "map excess nl' = map excess nl1" "map label nl' = map label nl1"
      by simp_all
    have P': "filter (\<lambda>i. excess (nl0 ! i) > 0) [0..<Suc k] = P @ [k]"
      using True by (simp add: P_def)
    have ex1: "map excess nl1 = map excess nl" by (simp add: nl1_def map_update_same)
    have lab': "\<forall>i<length nl0. label (nl' ! i) =
            (if i < Suc k \<and> excess (nl0 ! i) > 0 then 1 else label (nl0 ! i))"
    proof (intro allI impI)
      fix i assume i: "i < length nl0"
      have "label (nl' ! i) = label (nl1 ! i)"
        using r(5) r(2) i len(1) by (metis length_list_update nl1_def nth_map)
      also have "\<dots> = (if i = k then 1 else label (nl ! i))"
        using i len(1) by (simp add: nl1_def nth_list_update)
      finally show "label (nl' ! i) =
            (if i < Suc k \<and> excess (nl0 ! i) > 0 then 1 else label (nl0 ! i))"
        using lab i True by (auto simp: less_Suc_eq)
    qed
    have c': "(lc[1 := uadd (lc ! 1) 1]) ! 1 = length (P @ [k]) mod 2 ^ 32"
      using assms(3) len(3) cnt by (simp add: uadd_def mod_Suc_eq)
    have "fold labelStep [0..<Suc k] (nl0, sr0, lc0) = (nl', sr', lc[1 := uadd (lc ! 1) 1])"
      using f st by simp
    then show ?thesis
      using r lab' c' len ex ex1 unfolding P' by (simp add: nl1_def)
  qed
qed

lemma fold_saturateSourceStep_length:
  "length (snd (fold (saturateSourceStep src) is st)) = length (snd st)"
  by (induction "is" arbitrary: st) (auto simp: saturateSourceStep_def Let_def split: prod.splits)

lemma fold_saturateSinkStep_length:
  "length (snd (fold (saturateSinkStep snk) is st)) = length (snd st)"
  by (induction "is" arbitrary: st) (auto simp: saturateSinkStep_def Let_def split: prod.splits)

lemma filter_length_le:
  assumes "a < n" and "b < n" and "a \<noteq> b" and "\<not> Q a" and "\<not> Q b"
  shows "length (filter Q [0..<n]) \<le> n - 2"
proof -
  have "set (filter Q [0..<n]) \<subseteq> {0..<n} - {a, b}" using assms by auto
  then have "card (set (filter Q [0..<n])) \<le> card ({0..<n} - {a, b})"
    by (intro card_mono) auto
  moreover have "card ({0..<n} - {a, b}) = n - 2" using assms by (simp add: card_Diff_subset)
  moreover have "card (set (filter Q [0..<n])) = length (filter Q [0..<n])"
    by (intro distinct_card) simp
  ultimately show ?thesis by simp
qed

lemma simpleInitialization_post:
  assumes n: "numNodes e = length (nodesList e)" "numNodes e < 2 ^ 32"
    and st: "source e < numNodes e" "sink e < numNodes e" "source e \<noteq> sink e"
    and sr: "length (strongRoots e) = numNodes e" "rstart (strongRoots e ! 1) = None"
    and lc: "length (labelCount e) = numNodes e" "labelCount e ! 1 = 0"
  shows "bucketNodes (nodesList (simpleInitialization e))
           (rstart (strongRoots (simpleInitialization e) ! 1)) (numNodes e) =
         filter (\<lambda>i. excess (nodesList (simpleInitialization e) ! i) > 0) [0..<numNodes e]
       \<and> (\<forall>i<numNodes e. excess (nodesList (simpleInitialization e) ! i) > 0 \<longrightarrow>
             label (nodesList (simpleInitialization e) ! i) = 1)
       \<and> label (nodesList (simpleInitialization e) ! source e) = numNodes e
       \<and> label (nodesList (simpleInitialization e) ! sink e) = 0
       \<and> labelCount (simpleInitialization e) ! 1 =
           length (filter (\<lambda>i. excess (nodesList (simpleInitialization e) ! i) > 0)
                     [0..<numNodes e])
       \<and> labelCount (simpleInitialization e) ! 0 =
           numNodes e - 2 - labelCount (simpleInitialization e) ! 1
       \<and> highestStrongLabel (simpleInitialization e) = highestStrongLabel e"
proof -
  define N where "N = numNodes e"
  have N2: "2 \<le> N" using st by (simp add: N_def)
  obtain al1 nl1 where s1: "fold (saturateSourceStep (source e))
      [0..<numOutOfTree (nodesList e ! source e)] (arcList e, nodesList e) = (al1, nl1)"
    by (metis surj_pair)
  have l1: "length nl1 = N"
    using fold_saturateSourceStep_length[of "source e" "[0..<numOutOfTree (nodesList e ! source e)]"
            "(arcList e, nodesList e)"] s1 n by (simp add: N_def)
  obtain al2 nl2 where s2: "fold (saturateSinkStep (sink e)) [0..<numOutOfTree (nl1 ! sink e)]
      (al1, nl1) = (al2, nl2)"
    by (metis surj_pair)
  have l2: "length nl2 = N"
    using fold_saturateSinkStep_length[of "sink e" "[0..<numOutOfTree (nl1 ! sink e)]" "(al1, nl1)"]
      s2 l1 by simp
  define nl4 where "nl4 = nl2[source e := (nl2 ! source e)\<lparr>excess := 0\<rparr>,
                             sink e := (nl2[source e := (nl2 ! source e)\<lparr>excess := 0\<rparr>] ! sink e)
                                          \<lparr>excess := 0\<rparr>]"
  have l4: "length nl4 = N" by (simp add: nl4_def l2)
  have z: "excess (nl4 ! source e) = 0" "excess (nl4 ! sink e) = 0"
    using st l2 by (simp_all add: nl4_def N_def nth_list_update)
  define P where "P = filter (\<lambda>i. excess (nl4 ! i) > 0) [0..<N]"
  have "N \<le> length nl4" "1 < length (strongRoots e)" "1 < length (labelCount e)"
    using l4 sr lc N2 by (simp_all add: N_def)
  from fold_labelStep[OF this sr(2) lc(2)] obtain nl5 sr5 lc5 where
    f: "fold labelStep [0..<N] (nl4, strongRoots e, labelCount e) = (nl5, sr5, lc5)"
    and len: "length nl5 = N" "length sr5 = N" "length lc5 = N"
    and ex: "map excess nl5 = map excess nl4"
    and lab: "\<forall>i<N. label (nl5 ! i) = (if excess (nl4 ! i) > 0 then 1 else label (nl4 ! i))"
    and inv: "bucketInv nl5 sr5 P"
    and cnt: "lc5 ! 1 = length P mod 2 ^ 32"
    unfolding P_def[symmetric] using l4 sr lc by (auto simp: N_def)
  define nl7 where "nl7 = nl5[source e := (nl5 ! source e)\<lparr>label := N\<rparr>,
                             sink e := (nl5[source e := (nl5 ! source e)\<lparr>label := N\<rparr>] ! sink e)
                                          \<lparr>label := 0\<rparr>]"
  define lc7 where "lc7 = lc5[0 := usub (usub N 2) (lc5 ! 1)]"
  have e': "simpleInitialization e =
              e\<lparr> arcList := al2, nodesList := nl7, strongRoots := sr5, labelCount := lc7 \<rparr>"
    unfolding simpleInitialization_def s1 prod.case s2 Let_def N_def[symmetric]
      nl4_def[symmetric] f nl7_def[symmetric] lc7_def[symmetric] ..
  have ex7: "map excess nl7 = map excess nl4"
    unfolding nl7_def using ex by (simp add: map_update_same)
  have exi: "\<And>i. i < N \<Longrightarrow> excess (nl7 ! i) = excess (nl4 ! i)"
    using ex7 l4 by (metis length_map nth_map)
  have P7: "filter (\<lambda>i. excess (nl7 ! i) > 0) [0..<N] = P"
    unfolding P_def by (rule filter_cong) (auto simp: exi)
  have "map nextNode nl7 = map nextNode nl5"
    unfolding nl7_def by (simp add: map_update_same)
  then have nx: "\<And>a. a < N \<Longrightarrow> nextNode (nl7 ! a) = nextNode (nl5 ! a)"
    using len(1) by (metis length_map nth_map)
  have ch7: "chain nl7 P = chain nl5 P" by (rule chain_cong) (simp add: nx P_def)
  have lP: "length P \<le> N - 2"
    unfolding P_def using filter_length_le[of "source e" N "sink e" "\<lambda>i. excess (nl4 ! i) > 0"]
      st z by (simp add: N_def)
  have lP32: "length P mod 2 ^ 32 = length P"
    using lP n(2) by (simp add: N_def)
  have bk: "bucketNodes nl7 (rstart (sr5 ! 1)) N = P"
  proof (cases "P = []")
    case True
    then show ?thesis using inv by (simp add: bucketInv_def)
  next
    case False
    then have "rstart (sr5 ! 1) = Some (hd P)" "chain nl7 P"
      using inv ch7 by (simp_all add: bucketInv_def)
    moreover have "length P \<le> N" using lP by simp
    ultimately show ?thesis using chain_bucketNodes[of nl7 P N] False by simp
  qed
  have lab7: "\<forall>i<N. excess (nl7 ! i) > 0 \<longrightarrow> label (nl7 ! i) = 1"
  proof (intro allI impI)
    fix i assume i: "i < N" and p: "excess (nl7 ! i) > 0"
    have p4: "excess (nl4 ! i) > 0" using p exi[OF i] by simp
    then have "i \<noteq> source e" "i \<noteq> sink e" using z by auto
    then have "label (nl7 ! i) = label (nl5 ! i)" by (simp add: nl7_def)
    then show "label (nl7 ! i) = 1" using lab i p4 by simp
  qed
  have ls: "label (nl7 ! source e) = N" "label (nl7 ! sink e) = 0"
    using st len(1) by (simp_all add: nl7_def N_def nth_list_update)
  have c1: "lc7 ! 1 = length P" using cnt lP32 len(3) by (simp add: lc7_def)
  have "usub N 2 = N - 2" using N2 n(2) by (simp add: usub_def N_def nat_diff_distrib')
  moreover have "usub (N - 2) (length P) = N - 2 - length P"
    using lP n(2) by (simp add: usub_def N_def nat_diff_distrib')
  ultimately have c0: "lc7 ! 0 = N - 2 - length P"
    using len(3) N2 cnt lP32 by (simp add: lc7_def)
  show ?thesis
    unfolding e' N_def[symmetric]
    using bk lab7 ls c1 c0 P7 by simp
qed

lemma fold_placeArcStep_length:
  "length (snd (fold (placeArcStep src snk) is st)) = length (snd st)"
  by (induction "is" arbitrary: st)
     (auto simp: placeArcStep_def addOutOfTreeNode_def Let_def split: prod.splits)

lemma createMemoryStructures_fields:
  "numNodes (createMemoryStructures e) = numNodes e
   \<and> source (createMemoryStructures e) = source e
   \<and> sink (createMemoryStructures e) = sink e
   \<and> highestStrongLabel (createMemoryStructures e) = highestStrongLabel e
   \<and> length (nodesList (createMemoryStructures e)) = length (nodesList e)
   \<and> strongRoots (createMemoryStructures e) = replicate (numNodes e) \<lparr> rstart = None, rend = None \<rparr>
   \<and> labelCount (createMemoryStructures e) = replicate (numNodes e) 0"
proof -
  obtain al nl where f: "fold (placeArcStep (source e) (sink e)) [0..<numArcs e]
             (arcList e,
              map createOutOfTree (take (numNodes e) (nodesList e)) @ drop (numNodes e) (nodesList e))
            = (al, nl)"
    by (metis surj_pair)
  have "length nl = length (nodesList e)"
    using fold_placeArcStep_length[of "source e" "sink e" "[0..<numArcs e]"
      "(arcList e, map createOutOfTree (take (numNodes e) (nodesList e)) @ drop (numNodes e) (nodesList e))"]
      f by simp
  then show ?thesis by (simp add: createMemoryStructures_def f)
qed

text \<open>
  What \<open>simpleInitialization\<close> establishes. Let it run on the state that
  \<open>createMemoryStructures\<close> leaves for a problem with \<open>N\<close> internal nodes (\<open>N\<close> the length of
  the node list, below \<open>2 ^ 32\<close>, source and sink two different nodes of the list).
  Afterwards the bucket \<open>strongRoots[1]\<close> holds exactly the nodes with positive excess, in
  index order, every node with positive excess has label 1, the source has label \<open>N\<close>, the
  sink has label 0 and \<open>labelCount[0] = N - 2 - labelCount[1]\<close>. \<open>highestStrongLabel\<close> is
  not assigned: it has the value it had before.
\<close>

theorem simpleInitialization_postcondition:
  assumes "numNodes e = length (nodesList e)" and "numNodes e < 2 ^ 32"
    and "source e < numNodes e" and "sink e < numNodes e" and "source e \<noteq> sink e"
  shows "bucketNodes (nodesList (simpleInitialization (createMemoryStructures e)))
           (rstart (strongRoots (simpleInitialization (createMemoryStructures e)) ! 1)) (numNodes e) =
         filter (\<lambda>i. excess (nodesList (simpleInitialization (createMemoryStructures e)) ! i) > 0)
           [0..<numNodes e]
       \<and> (\<forall>i<numNodes e.
             excess (nodesList (simpleInitialization (createMemoryStructures e)) ! i) > 0 \<longrightarrow>
             label (nodesList (simpleInitialization (createMemoryStructures e)) ! i) = 1)
       \<and> label (nodesList (simpleInitialization (createMemoryStructures e)) ! source e) = numNodes e
       \<and> label (nodesList (simpleInitialization (createMemoryStructures e)) ! sink e) = 0
       \<and> labelCount (simpleInitialization (createMemoryStructures e)) ! 0 =
           numNodes e - 2 - labelCount (simpleInitialization (createMemoryStructures e)) ! 1
       \<and> highestStrongLabel (simpleInitialization (createMemoryStructures e)) = highestStrongLabel e"
proof -
  note c = createMemoryStructures_fields[of e]
  have two: "1 < numNodes e" using assms(3,4,5) by linarith
  have "numNodes (createMemoryStructures e) = length (nodesList (createMemoryStructures e))"
    "numNodes (createMemoryStructures e) < 2 ^ 32"
    "source (createMemoryStructures e) < numNodes (createMemoryStructures e)"
    "sink (createMemoryStructures e) < numNodes (createMemoryStructures e)"
    "source (createMemoryStructures e) \<noteq> sink (createMemoryStructures e)"
    "length (strongRoots (createMemoryStructures e)) = numNodes (createMemoryStructures e)"
    "rstart (strongRoots (createMemoryStructures e) ! 1) = None"
    "length (labelCount (createMemoryStructures e)) = numNodes (createMemoryStructures e)"
    "labelCount (createMemoryStructures e) ! 1 = 0"
    using assms c two by simp_all
  from simpleInitialization_post[OF this] show ?thesis
    using c by simp
qed

theorem simpleInitialization_postcondition_witness:
  "numNodes exampleEngine = length (nodesList exampleEngine)
   \<and> numNodes exampleEngine < 2 ^ 32
   \<and> source exampleEngine < numNodes exampleEngine
   \<and> sink exampleEngine < numNodes exampleEngine
   \<and> source exampleEngine \<noteq> sink exampleEngine
   \<and> bucketNodes (nodesList exampleEngineInit) (rstart (strongRoots exampleEngineInit ! 1)) 4 = [3]
   \<and> label (nodesList exampleEngineInit ! 3) = 1
   \<and> label (nodesList exampleEngineInit ! 1) = 4
   \<and> label (nodesList exampleEngineInit ! 0) = 0
   \<and> labelCount exampleEngineInit ! 0 = 4 - 2 - labelCount exampleEngineInit ! 1"
proof -
  have h: "numNodes exampleEngine = length (nodesList exampleEngine)"
    "numNodes exampleEngine < 2 ^ 32"
    "source exampleEngine < numNodes exampleEngine"
    "sink exampleEngine < numNodes exampleEngine"
    "source exampleEngine \<noteq> sink exampleEngine"
    by (simp_all add: exampleEngine_def)
  have n: "numNodes exampleEngine = 4" "source exampleEngine = 1" "sink exampleEngine = 0"
    by (simp_all add: exampleEngine_def)
  have ex: "filter (\<lambda>i. excess (nodesList exampleEngineInit ! i) > 0) [0..<4] = [3]"
    "0 < excess (nodesList exampleEngineInit ! 3)"
    by (simp_all add: exampleEngineInit_def chain_upt mkNode_def initializeNode_def)
  show ?thesis
    using simpleInitialization_postcondition[OF h] h ex
    unfolding example_initialization n by simp
qed

text \<open>
  C8 says that \<open>highestStrongLabel = 1\<close> after \<open>simpleInitialization\<close>. The declaration of
  \<open>highestStrongLabel\<close> and \<open>reset_globals\<close> set it to 1, and \<open>createMemoryStructures\<close> makes
  \<open>strongRoots\<close> and \<open>labelCount\<close> anew for every solve, but nothing sets
  \<open>highestStrongLabel\<close> again between two solves of a run, and \<open>getHighestStrongRoot\<close>
  starts its scan at \<open>strongRoots[highestStrongLabel]\<close>. In the run of \<open>hpf_solve\<close> on the
  five-node graph the first two solves return, the second with \<open>highestStrongLabel = 3\<close>;
  the third solve is of the problem contracted at \<open>lambda = 2\<close>, which has three nodes.
  After its \<open>simpleInitialization\<close> the value is still 3 and \<open>strongRoots\<close> has 3 cells, so
  the first read of \<open>getHighestStrongRoot\<close> is beyond the array: the main loop has no value
  for any bound, and neither has the run.
\<close>

theorem simpleInitialization_stale_label_run:
  "solveProblem (pseudoflowPhase1 8) 5 (engine spurGlobals) spurProblemLow 0 =
     Some (spurEngineLow, spurSolvedLow)
   \<and> solveProblem (pseudoflowPhase1 8) 5 spurEngineLow spurProblemHigh 1 =
       Some (spurEngineHigh, spurSolvedHigh)
   \<and> contractProblem 0 (spurSolvedLow\<lparr>solved := 1\<rparr>) 2
       (optimalSourceSetIndicator spurSolvedLow) (optimalSourceSetIndicator spurSolvedHigh) =
       Inr spurProblemMid
   \<and> simpleInitialization (createMemoryStructures (solveEntry spurEngineHigh spurProblemMid 1)) =
       spurStartMid
   \<and> highestStrongLabel spurStartMid = 3
   \<and> length (strongRoots spurStartMid) = 3
   \<and> (\<forall>n. pseudoflowPhase1 n spurStartMid = None)
   \<and> hpf_solve (pseudoflowPhase1 8) 2 5 4 0 4
         [0, 3, 4, 0, 3, 1, 3, 0, 1, 4, 5, - 1, 2, 4, 2, 0] (0, 4) 0 = None"
proof -
  have i: "optimalSourceSetIndicator spurSolvedLow = [1, 0, 0, 1, 0]"
    "optimalSourceSetIndicator spurSolvedHigh = [1, 1, 0, 1, 0]"
    by (simp_all add: spurSolvedLow_def spurSolvedHigh_def)
  have m: "highestStrongLabel spurStartMid = 3" "length (strongRoots spurStartMid) = 3"
    by (simp_all add: spurStartMid_def)
  show ?thesis
    unfolding i One_nat_def
    using spur_solve_low spur_solve_high spur_contract[unfolded One_nat_def] spur_start_mid m
      spur_phase1_mid spur_run
    by simp
qed

subsection \<open>The case analysis of parametricCut (C6)\<close>






subsection \<open>The run on the two-node graph\<close>








subsection \<open>The breakpoint list is never empty (C10)\<close>

lemma evaluateArcs_error:
  "evaluateArcs rnd lam as = Inl e \<Longrightarrow> e = NegativeCapacity lam"
  by (induction as arbitrary: e) (auto simp: Let_def split: if_splits sum.splits)

lemma evaluateCapacities_error:
  "evaluateCapacities rnd p = Inl e \<Longrightarrow> e \<noteq> NullDereference"
  by (auto simp: evaluateCapacities_def split: sum.splits dest: evaluateArcs_error)

lemma contractProblem_error:
  "contractProblem rnd old lam lo hi = Inl e \<Longrightarrow> e \<noteq> NullDereference"
  by (auto simp: contractProblem_def Let_def split: prod.splits dest: evaluateCapacities_error)

lemma initializeProblem_error:
  "initializeProblem rnd s t nl n al m lam = Inl e \<Longrightarrow> e \<noteq> NullDereference"
  by (auto simp: initializeProblem_def split: prod.splits dest: evaluateCapacities_error)

lemma initializeProblem_solved:
  "initializeProblem rnd s t nl n al m lam = Inr p \<Longrightarrow> solved p = 0 \<and> lambdaValue p = lam"
  by (auto simp: initializeProblem_def split: prod.splits dest!: evaluateCapacities_fields)

lemma bindR_not_null:
  "m \<noteq> Some (Inl NullDereference) \<Longrightarrow> (\<And>x. f x \<noteq> Some (Inl NullDereference)) \<Longrightarrow>
   bindR m f \<noteq> Some (Inl NullDereference)"
  by (auto simp: bindR_def split: option.splits sum.splits)

lemma bindR_not_null3:
  "m \<noteq> Some (Inl NullDereference) \<Longrightarrow>
   (\<And>a b c. F a b c \<noteq> Some (Inl NullDereference)) \<Longrightarrow>
   bindR m (\<lambda>(a, b, c). F a b c) \<noteq> Some (Inl NullDereference)"
  by (auto simp: bindR_def split: option.splits sum.splits)

lemma bindR_not_null2:
  "m \<noteq> Some (Inl NullDereference) \<Longrightarrow>
   (\<And>a b. F a b \<noteq> Some (Inl NullDereference)) \<Longrightarrow>
   bindR m (\<lambda>(a, b). F a b) \<noteq> Some (Inl NullDereference)"
  by (auto simp: bindR_def split: option.splits sum.splits)

lemma contractProblem_not_null:
  "Some (contractProblem rnd old lam lo hi) \<noteq> Some (Inl NullDereference)"
  using contractProblem_error[of rnd old lam lo hi NullDereference] by auto

lemma intersectCases_not_null:
  assumes "\<And>g' l h. rec g' l h \<noteq> Some (Inl NullDereference)"
  shows "intersectCases rec g low high \<noteq> Some (Inl NullDereference)"
proof -
  have "bindR (Some (contractProblem (roundNegativeCapacity g) low (lambdaIntersect low high)
                 (optimalSourceSetIndicator low) (optimalSourceSetIndicator high)))
          (\<lambda>upperBoundIntersect.
        bindR (rec g low upperBoundIntersect) (\<lambda>(g3, low', upper').
        bindR (Some (contractProblem (roundNegativeCapacity g3) low' (lambdaIntersect low high)
                 (optimalSourceSetIndicator low') (optimalSourceSetIndicator high)))
          (\<lambda>lowerBoundIntersect.
        bindR (rec g3 lowerBoundIntersect high) (\<lambda>(g4, lower', high').
        Some (Inr (g4, low', high')))))) \<noteq> Some (Inl NullDereference)"
    by (intro bindR_not_null bindR_not_null3 contractProblem_not_null assms) simp
  then show ?thesis
    unfolding intersectCases_def by simp
qed

lemma solveIfNeeded_not_null:
  "solveIfNeeded ph g p m \<noteq> Some (Inl NullDereference)"
  by (auto simp: solveIfNeeded_def split: option.splits)

lemma parametricCut_not_null:
  "parametricCut ph n g low high \<noteq> Some (Inl NullDereference)"
proof (induction n arbitrary: g low high)
  case 0
  then show ?case by simp
next
  case (Suc n)
  show ?case
    unfolding parametricCut.simps Let_def
    by (intro bindR_not_null2 bindR_not_null3 solveIfNeeded_not_null intersectCases_not_null Suc)
       simp
qed

lemma bindR_Inr:
  "bindR m f = Some (Inr y) \<Longrightarrow> \<exists>x. m = Some (Inr x) \<and> f x = Some (Inr y)"
  by (auto simp: bindR_def split: option.splits sum.splits)

lemma parametricCut_base_nonempty:
  assumes "parametricCut ph n g low high = Some (Inr (g', low', high'))"
    and "solved low = 0" and "solved high = 0"
  shows "breakpoints g' \<noteq> []"
proof (cases n)
  case 0
  then show ?thesis using assms by simp
next
  case (Suc k)
  show ?thesis
    using assms unfolding Suc parametricCut.simps Let_def
    by (auto dest!: bindR_Inr simp: addBreakpointG_def addBreakpoint_def)
qed

lemma dedupLoop_nonempty: "bps \<noteq> [] \<Longrightarrow> dedupLoop bps \<noteq> []"
  by (induction bps rule: dedupLoop.induct) auto

text \<open>
  C10. No run of \<open>hpf_solve\<close> ends in the read through a null list head: when the
  outermost call of \<open>parametricCut\<close> returns, on the two problems that
  \<open>initializeParametricCut\<close> built, the breakpoint list is not empty, so the pass over
  the list starts at a record. Every run that returns reports at least one breakpoint,
  on the parametric path and on the path for a range with equal ends. (A run may also
  end with the negative-capacity diagnostic or not return; then the pass is not reached.)
\<close>

theorem hpf_solve_breakpoint_list_nonempty:
  "hpf_solve ph depth numNodesIn numArcsIn sourceIn sinkIn am lr rnd
     \<noteq> Some (Inl NullDereference)
   \<and> (\<forall>out. hpf_solve ph depth numNodesIn numArcsIn sourceIn sinkIn am lr rnd
                = Some (Inr out) \<longrightarrow>
        1 \<le> numBreakpoints out \<and> breakpointsOut out \<noteq> [])
   \<and> (\<forall>g lowProblem highProblem g' low high.
        initializeParametricCut g = Inr (lowProblem, Some highProblem)
        \<and> parametricCut ph depth g lowProblem highProblem = Some (Inr (g', low, high)) \<longrightarrow>
        breakpoints g' \<noteq> []
        \<and> removeDuplicateBreakpoints (breakpoints g') \<noteq> Inl NullDereference)"
proof (intro conjI allI impI)
  define g2 where "g2 = readGraphSuper am
     (reset_globals\<lparr> numNodesSuper := uint_of_int numNodesIn,
                   numArcsSuper := uint_of_int numArcsIn,
                   engine := (engine reset_globals)\<lparr> source := uint_of_int sourceIn,
                                           sink := uint_of_int sinkIn \<rparr>,
                   LAMBDA_LOW := fst lr, LAMBDA_HIGH := snd lr,
                   roundNegativeCapacity := uint_of_int rnd \<rparr>)"
  have ini: "\<And>g lo hi. initializeParametricCut g = Inr (lo, hi) \<Longrightarrow>
       solved lo = 0 \<and> (useParametricCut g = 1 \<longrightarrow> (\<exists>h. hi = Some h \<and> solved h = 0))"
    by (auto simp: initializeParametricCut_def split: sum.splits if_splits
          dest: initializeProblem_solved)
  have inie: "\<And>g. initializeParametricCut g \<noteq> Inl NullDereference"
    by (auto simp: initializeParametricCut_def split: sum.splits if_splits
          dest: initializeProblem_error)
  have H: "hpf_solve ph depth numNodesIn numArcsIn sourceIn sinkIn am lr rnd =
      bindR (Some (initializeParametricCut g2)) (\<lambda>(lowProblem, highOpt).
        if useParametricCut g2 = 1 then
          bindR (parametricCut ph depth g2 lowProblem (the highOpt)) (\<lambda>(g3, low, high).
          bindR (Some (removeDuplicateBreakpoints (breakpoints g3))) (\<lambda>bps.
            Some (Inr (prepareOutput (g3\<lparr>breakpoints := bps\<rparr>)))))
        else
          (case solveProblem ph (numNodesSuper g2) (engine g2) lowProblem 0 of
             None \<Rightarrow> None
           | Some (e, low) \<Rightarrow>
               Some (Inr (prepareOutput
                 (addBreakpointG (lambdaValue low) (optimalSourceSetIndicator low)
                    (g2\<lparr>engine := e\<rparr>))))))"
    unfolding hpf_solve_def Let_def g2_def ..
  show "hpf_solve ph depth numNodesIn numArcsIn sourceIn sinkIn am lr rnd
          \<noteq> Some (Inl NullDereference)"
  proof
    assume a: "hpf_solve ph depth numNodesIn numArcsIn sourceIn sinkIn am lr rnd
          = Some (Inl NullDereference)"
    show False
    proof (cases "initializeParametricCut g2")
      case (Inl e)
      then show False using a inie[of g2] by (simp add: H bindR_simps)
    next
      case (Inr x)
      obtain lo hi where x: "x = (lo, hi)" by (cases x) auto
      show False
      proof (cases "useParametricCut g2 = 1")
        case False
        then show False using a Inr x by (auto simp: H bindR_simps split: option.splits)
      next
        case True
        then obtain h where h: "hi = Some h" "solved h = 0" "solved lo = 0"
          using ini[of g2 lo hi] Inr x by auto
        show False
        proof (cases "parametricCut ph depth g2 lo h")
          case None
          then show False using a Inr x True h by (simp add: H bindR_simps)
        next
          case (Some r)
          show False
          proof (cases r)
            case (Inl e)
            then show False
              using a Inr x True h Some parametricCut_not_null[of ph depth g2 lo h]
              by (simp add: H bindR_simps)
          next
            case r: (Inr y)
            obtain g3 l3 h3 where y: "y = (g3, l3, h3)" by (cases y) auto
            have "breakpoints g3 \<noteq> []"
              using parametricCut_base_nonempty[of ph depth g2 lo h g3 l3 h3] Some r y h by simp
            then show False
              using a Inr x True h Some r y
              by (auto simp: H bindR_simps removeDuplicateBreakpoints_def split: list.splits)
          qed
        qed
      qed
    qed
  qed
next
  fix out
  assume a: "hpf_solve ph depth numNodesIn numArcsIn sourceIn sinkIn am lr rnd
          = Some (Inr out)"
  have "breakpointsOut out \<noteq> []"
    using a unfolding hpf_solve_def Let_def
    by (auto dest!: bindR_Inr simp: prepareOutput_def removeDuplicateBreakpoints_def
          addBreakpointG_def addBreakpoint_def dedupLoop_nonempty
          split: if_splits option.splits list.splits)
  moreover have "numBreakpoints out = int (length (breakpointsOut out))"
    using a unfolding hpf_solve_def Let_def
    by (auto dest!: bindR_Inr simp: prepareOutput_def split: if_splits option.splits)
  ultimately show "1 \<le> numBreakpoints out" "breakpointsOut out \<noteq> []"
    by (simp_all add: Suc_le_eq)
next
  fix g lowProblem highProblem g' low high
  assume a: "initializeParametricCut g = Inr (lowProblem, Some highProblem)
        \<and> parametricCut ph depth g lowProblem highProblem = Some (Inr (g', low, high))"
  have s: "solved lowProblem = 0" "solved highProblem = 0"
    using a by (auto simp: initializeParametricCut_def split: sum.splits if_splits
          dest: initializeProblem_solved)
  show "breakpoints g' \<noteq> []"
    using parametricCut_base_nonempty[of ph depth g lowProblem highProblem g' low high] a s by simp
  then show "removeDuplicateBreakpoints (breakpoints g') \<noteq> Inl NullDereference"
    by (auto simp: removeDuplicateBreakpoints_def split: list.splits)
qed

theorem hpf_solve_breakpoint_list_nonempty_witness:
  "hpf_solve (pseudoflowPhase1 2) 2 3 2 0 2 [0, 1, 0, 1, 1, 2, 10, 0] (0, 20) 0 =
     Some (Inr \<lparr> numBreakpoints = 2, cuts = [1, 0, 0, 1, 1, 0], breakpointsOut = [10, 20],
                 stats = [0, 0, 0, 0, 0] \<rparr>)
   \<and> (1::int) \<le> numBreakpoints \<lparr> numBreakpoints = 2, cuts = [1, 0, 0, 1, 1, 0],
                                    breakpointsOut = [10, 20], stats = [0, 0, 0, 0, 0] \<rparr>
   \<and> initializeParametricCut lineGlobals = Inr (lineProblem 0, Some (lineProblem 20))
   \<and> parametricCut (pseudoflowPhase1 2) 2 lineGlobals (lineProblem 0) (lineProblem 20) =
       Some (Inr (lineGlobals\<lparr> engine := lineEngineLower,
                    breakpoints := [\<lparr> bpLambdaValue = 10, sourceSetIndicator = [1, 0, 0] \<rparr>,
                                    \<lparr> bpLambdaValue = 10, sourceSetIndicator = [1, 0, 0] \<rparr>,
                                    \<lparr> bpLambdaValue = 20, sourceSetIndicator = [1, 1, 0] \<rparr>] \<rparr>,
                  lineLow, lineHigh))
   \<and> removeDuplicateBreakpoints
         [\<lparr> bpLambdaValue = 10, sourceSetIndicator = [1, 0, 0] \<rparr>,
          \<lparr> bpLambdaValue = 10, sourceSetIndicator = [1, 0, 0] \<rparr>,
          \<lparr> bpLambdaValue = 20, sourceSetIndicator = [1, 1, 0] \<rparr>] \<noteq> Inl NullDereference"
  using hpf_solve_breakpoint_list_nonempty[of "pseudoflowPhase1 2" 2 3 2 0 2
          "[0, 1, 0, 1, 1, 2, 10, 0]" "(0, 20)" 0]
        line_run line_init line_cut
  by (simp add: removeDuplicateBreakpoints_def)

subsection \<open>The lambda values returned by hpf_solve (C1)\<close>





lemma count_list_notin: "v \<notin> set xs \<Longrightarrow> count_list xs v = 0"
  by (induction xs) auto

lemma innerValues_append:
  assumes "lo < mid" and "mid < hi" and "innerValues lo mid xs" and "innerValues mid hi ys"
  shows "innerValues lo hi (xs @ ys)"
proof -
  have x: "sorted xs" "set xs \<subseteq> {lo..mid}" "count_list xs lo \<le> 1" "count_list xs mid \<le> 1"
    "\<And>v. count_list xs v \<le> 2"
    using assms(3) by (simp_all add: innerValues_def)
  have y: "sorted ys" "set ys \<subseteq> {mid..hi}" "count_list ys mid \<le> 1" "count_list ys hi \<le> 1"
    "\<And>v. count_list ys v \<le> 2"
    using assms(4) by (simp_all add: innerValues_def)
  have s: "sorted (xs @ ys)"
    using x(1,2) y(1,2) by (fastforce simp: sorted_append)
  have b: "set (xs @ ys) \<subseteq> {lo..hi}"
    using x(2) y(2) assms(1,2) by fastforce
  have "lo \<notin> set ys" using y(2) assms(1) by fastforce
  then have cl: "count_list (xs @ ys) lo \<le> 1"
    using x(3) by (simp add: count_list_notin)
  have "hi \<notin> set xs" using x(2) assms(2) by fastforce
  then have ch: "count_list (xs @ ys) hi \<le> 1"
    using y(4) by (simp add: count_list_notin)
  have cv: "count_list (xs @ ys) v \<le> 2" for v
  proof -
    consider "v < mid" | "v = mid" | "mid < v" by linarith
    then show ?thesis
    proof cases
      case 1
      then have "v \<notin> set ys" using y(2) by fastforce
      then show ?thesis using x(5)[of v] by (simp add: count_list_notin)
    next
      case 2
      then show ?thesis using x(4) y(3) by simp
    next
      case 3
      then have "v \<notin> set xs" using x(2) by fastforce
      then show ?thesis using y(5)[of v] by (simp add: count_list_notin)
    qed
  qed
  show ?thesis using s b cl ch cv by (simp add: innerValues_def)
qed

lemma innerValues_leaf:
  "lo < hi \<Longrightarrow> innerValues lo hi []"
  "lo < hi \<Longrightarrow> innerValues lo hi [hi]"
  "lo < hi \<Longrightarrow> innerValues lo hi [lo]"
  by (simp_all add: innerValues_def)


lemma contractProblem_lambda:
  "contractProblem rnd old lam lo hi = Inr p \<Longrightarrow> lambdaValue p = lam \<and> solved p = 0"
  by (auto simp: contractProblem_def Let_def split: prod.splits dest!: evaluateCapacities_fields)

lemma fold_evaluateCutStep_lambda:
  "lambdaValue (fold evaluateCutStep is p) = lambdaValue p"
  by (induction "is" arbitrary: p) (simp_all add: evaluateCutStep_def Let_def)

lemma fold_emptyCutStep_lambda:
  "lambdaValue (fold emptyCutStep is p) = lambdaValue p"
  by (induction "is" arbitrary: p) (simp_all add: emptyCutStep_def Let_def)

lemma solveProblem_lambda:
  "solveProblem ph n e p m = Some (e', p') \<Longrightarrow> lambdaValue p' = lambdaValue p"
  by (auto simp: solveProblem_def Let_def evaluateCut_def fold_evaluateCutStep_lambda
        fold_emptyCutStep_lambda split: if_splits option.splits)

lemma solveIfNeeded_lambda:
  "solveIfNeeded ph g p m = Some (Inr (g', p')) \<Longrightarrow>
     lambdaValue p' = lambdaValue p \<and> breakpoints g' = breakpoints g \<and> solved p' \<noteq> 0"
  by (auto simp: solveIfNeeded_def split: if_splits option.splits dest: solveProblem_lambda)

lemma intersectCases_emits:
  assumes REC: "\<And>g l h r. rec g l h = Some (Inr r) \<Longrightarrow> lambdaValue l < lambdaValue h \<Longrightarrow>
                  solved l \<noteq> 0 \<or> solved h \<noteq> 0 \<Longrightarrow> emitsInner g l h r"
    and res: "intersectCases rec g low high = Some (Inr r)"
    and lt: "lambdaValue low < lambdaValue high"
    and sl: "solved low \<noteq> 0" and sh: "solved high \<noteq> 0"
  shows "emitsInner g low high r"
proof (cases "lambdaIntersectExists low high
         \<and> dadd (lambdaIntersect low high) TOL < lambdaValue high
         \<and> dsub (lambdaIntersect low high) TOL > lambdaValue low")
  case True
  define mid where "mid = lambdaIntersect low high"
  have m: "lambdaValue low < mid" "mid < lambdaValue high"
    using True lambdaIntersect_inside[of low high "lambdaValue high" "lambdaValue low"]
    by (simp_all add: mid_def del: double_ops)
  have eq: "bindR (Some (contractProblem (roundNegativeCapacity g) low mid
                 (optimalSourceSetIndicator low) (optimalSourceSetIndicator high)))
          (\<lambda>upperBoundIntersect.
        bindR (rec g low upperBoundIntersect) (\<lambda>(g3, low', upper').
        bindR (Some (contractProblem (roundNegativeCapacity g3) low' mid
                 (optimalSourceSetIndicator low') (optimalSourceSetIndicator high)))
          (\<lambda>lowerBoundIntersect.
        bindR (rec g3 lowerBoundIntersect high) (\<lambda>(g4, lower', high').
        Some (Inr (g4, low', high')))))) = Some (Inr r)"
    using res True unfolding intersectCases_def mid_def by simp
  from bindR_Inr[OF eq] obtain U where
    U: "contractProblem (roundNegativeCapacity g) low mid
          (optimalSourceSetIndicator low) (optimalSourceSetIndicator high) = Inr U"
    and e1: "bindR (rec g low U) (\<lambda>(g3, low', upper').
        bindR (Some (contractProblem (roundNegativeCapacity g3) low' mid
                 (optimalSourceSetIndicator low') (optimalSourceSetIndicator high)))
          (\<lambda>lowerBoundIntersect.
        bindR (rec g3 lowerBoundIntersect high) (\<lambda>(g4, lower', high').
        Some (Inr (g4, low', high'))))) = Some (Inr r)"
    by auto
  from bindR_Inr[OF e1] obtain x1 where
    r1: "rec g low U = Some (Inr x1)"
    and e2: "(case x1 of (g3, low', upper') \<Rightarrow>
        bindR (Some (contractProblem (roundNegativeCapacity g3) low' mid
                 (optimalSourceSetIndicator low') (optimalSourceSetIndicator high)))
          (\<lambda>lowerBoundIntersect.
        bindR (rec g3 lowerBoundIntersect high) (\<lambda>(g4, lower', high').
        Some (Inr (g4, low', high'))))) = Some (Inr r)"
    by auto
  obtain g3 low1 U' where x1: "x1 = (g3, low1, U')" by (cases x1) auto
  from bindR_Inr[OF e2[unfolded x1 prod.case]] obtain W where
    W: "contractProblem (roundNegativeCapacity g3) low1 mid
          (optimalSourceSetIndicator low1) (optimalSourceSetIndicator high) = Inr W"
    and e3: "bindR (rec g3 W high) (\<lambda>(g4, lower', high').
        Some (Inr (g4, low1, high'))) = Some (Inr r)"
    by auto
  from bindR_Inr[OF e3] obtain x2 where
    r2: "rec g3 W high = Some (Inr x2)"
    and e4: "(case x2 of (g4, lower', high') \<Rightarrow> Some (Inr (g4, low1, high'))) = Some (Inr r)"
    by auto
  obtain g4 W' high' where x2: "x2 = (g4, W', high')" by (cases x2) auto
  have r: "r = (g4, low1, high')" using e4 x2 by simp
  have lU: "lambdaValue U = mid" using contractProblem_lambda[OF U] by simp
  have lW: "lambdaValue W = mid" using contractProblem_lambda[OF W] by simp
  have i1: "emitsInner g low U (g3, low1, U')"
    using REC[OF r1[unfolded x1]] m(1) lU sl by simp
  have i2: "emitsInner g3 W high (g4, W', high')"
    using REC[OF r2[unfolded x2]] m(2) lW sh by simp
  from i1 obtain es1 where
    a: "lambdaValue low1 = lambdaValue low" "breakpoints g3 = breakpoints g @ es1"
       "innerValues (lambdaValue low) mid (map bpLambdaValue es1)"
    by (auto simp: emitsInner_def lU)
  from i2 obtain es2 where
    b: "lambdaValue high' = lambdaValue high" "breakpoints g4 = breakpoints g3 @ es2"
       "innerValues mid (lambdaValue high) (map bpLambdaValue es2)"
    by (auto simp: emitsInner_def lW)
  have "innerValues (lambdaValue low) (lambdaValue high) (map bpLambdaValue (es1 @ es2))"
    using innerValues_append[OF m a(3) b(3)] by simp
  moreover have "breakpoints g4 = breakpoints g @ (es1 @ es2)" using a(2) b(2) by simp
  ultimately show ?thesis
    unfolding r emitsInner_def prod.case using a(1) b(1) by blast
next
  case False
  then have "r = (addBreakpointG (lambdaValue high) (optimalSourceSetIndicator low) g, low, high)
      \<or> r = (addBreakpointG (lambdaValue low) (optimalSourceSetIndicator low) g, low, high)
      \<or> r = (g, low, high)"
    using res unfolding intersectCases_def by (auto split: if_splits)
  then show ?thesis
    using innerValues_leaf[OF lt]
    by (auto simp: emitsInner_def addBreakpointG_def addBreakpoint_def)
qed

lemma parametricCut_emits:
  assumes "parametricCut ph n g low high = Some (Inr (g', low', high'))"
    and "lambdaValue low < lambdaValue high"
  shows "lambdaValue low' = lambdaValue low \<and> lambdaValue high' = lambdaValue high
     \<and> (\<exists>es ts. breakpoints g' = breakpoints g @ es @ ts
           \<and> innerValues (lambdaValue low) (lambdaValue high) (map bpLambdaValue es)
           \<and> (if solved low = 0 \<and> solved high = 0
               then map bpLambdaValue ts = [lambdaValue high] else ts = []))"
  using assms
proof (induction n arbitrary: g low high g' low' high')
  case 0
  then show ?case by simp
next
  case (Suc n)
  have REC: "\<And>g l h r. parametricCut ph n g l h = Some (Inr r) \<Longrightarrow>
      lambdaValue l < lambdaValue h \<Longrightarrow> solved l \<noteq> 0 \<or> solved h \<noteq> 0 \<Longrightarrow> emitsInner g l h r"
  proof -
    fix g l h r
    assume a: "parametricCut ph n g l h = Some (Inr r)" "lambdaValue l < lambdaValue h"
      "solved l \<noteq> 0 \<or> solved h \<noteq> 0"
    obtain g' l' h' where r: "r = (g', l', h')" by (cases r) auto
    from Suc.IH[OF a(1)[unfolded r] a(2)] a(3)
    show "emitsInner g l h r" unfolding r emitsInner_def prod.case by auto
  qed
  note p = Suc.prems(1)[unfolded parametricCut.simps Let_def]
  from bindR_Inr[OF p] obtain x1 where
    s1: "solveIfNeeded ph g low 0 = Some (Inr x1)"
    and p1: "(case x1 of (g1, low1) \<Rightarrow>
      bindR (solveIfNeeded ph g1 high 1) (\<lambda>(g2, high1).
      bindR (intersectCases (parametricCut ph n) g2 low1 high1) (\<lambda>(g5, low5, high5).
        Some (Inr (if solved low = 0 \<and> solved high = 0
                   then addBreakpointG (lambdaValue high5) (optimalSourceSetIndicator high5) g5
                   else g5,
                   low5, high5))))) = Some (Inr (g', low', high'))"
    by auto
  obtain g1 low1 where x1: "x1 = (g1, low1)" by (cases x1) auto
  from bindR_Inr[OF p1[unfolded x1 prod.case]] obtain x2 where
    s2: "solveIfNeeded ph g1 high 1 = Some (Inr x2)"
    and p2: "(case x2 of (g2, high1) \<Rightarrow>
      bindR (intersectCases (parametricCut ph n) g2 low1 high1) (\<lambda>(g5, low5, high5).
        Some (Inr (if solved low = 0 \<and> solved high = 0
                   then addBreakpointG (lambdaValue high5) (optimalSourceSetIndicator high5) g5
                   else g5,
                   low5, high5)))) = Some (Inr (g', low', high'))"
    by auto
  obtain g2 high1 where x2: "x2 = (g2, high1)" by (cases x2) auto
  from bindR_Inr[OF p2[unfolded x2 prod.case]] obtain x3 where
    ic: "intersectCases (parametricCut ph n) g2 low1 high1 = Some (Inr x3)"
    and p3: "(case x3 of (g5, low5, high5) \<Rightarrow>
        Some (Inr (if solved low = 0 \<and> solved high = 0
                   then addBreakpointG (lambdaValue high5) (optimalSourceSetIndicator high5) g5
                   else g5,
                   low5, high5))) = Some (Inr (g', low', high'))"
    by auto
  obtain g5 low5 high5 where x3: "x3 = (g5, low5, high5)" by (cases x3) auto
  note l1 = solveIfNeeded_lambda[OF s1[unfolded x1]]
  note l2 = solveIfNeeded_lambda[OF s2[unfolded x2]]
  have lt: "lambdaValue low1 < lambdaValue high1" using l1 l2 Suc.prems(2) by simp
  have em: "emitsInner g2 low1 high1 (g5, low5, high5)"
    using intersectCases_emits[OF REC ic lt] l1 l2 x3 by simp
  then obtain es where
    e: "lambdaValue low5 = lambdaValue low" "lambdaValue high5 = lambdaValue high"
       "breakpoints g5 = breakpoints g @ es"
       "innerValues (lambdaValue low) (lambdaValue high) (map bpLambdaValue es)"
    using l1 l2 by (auto simp: emitsInner_def)
  have r: "low' = low5" "high' = high5"
    "g' = (if solved low = 0 \<and> solved high = 0
           then addBreakpointG (lambdaValue high5) (optimalSourceSetIndicator high5) g5 else g5)"
    using p3 x3 by simp_all
  show ?case
  proof (cases "solved low = 0 \<and> solved high = 0")
    case True
    then have "breakpoints g' = breakpoints g @ es @
        [\<lparr> bpLambdaValue = lambdaValue high5,
           sourceSetIndicator = take (numNodesSuper g5) (optimalSourceSetIndicator high5) \<rparr>]"
      using r(3) e(3) by (simp add: addBreakpointG_def addBreakpoint_def)
    then show ?thesis using True e r(1,2) by force
  next
    case False
    then have "g' = g5" using r(3) by auto
    then have "breakpoints g' = breakpoints g @ es @ []" using e(3) by simp
    then show ?thesis using False e r(1,2) by force
  qed
qed

lemma noTripleRun_of_count:
  "(\<And>v. count_list (map bpLambdaValue bs) v \<le> 2) \<Longrightarrow> noTripleRun bs"
proof (induction bs rule: noTripleRun.induct)
  case (1 a b c rest)
  have "\<not> (bpLambdaValue a = bpLambdaValue b \<and> bpLambdaValue b = bpLambdaValue c)"
  proof
    assume e: "bpLambdaValue a = bpLambdaValue b \<and> bpLambdaValue b = bpLambdaValue c"
    have "count_list (map bpLambdaValue (a # b # c # rest)) (bpLambdaValue a) \<ge> 3"
      using e by simp
    then show False using 1(2)[of "bpLambdaValue a"] by linarith
  qed
  moreover have "count_list (map bpLambdaValue (b # c # rest)) v \<le> 2" for v
    using 1(2)[of v] by (simp split: if_splits)
  ultimately show ?case using 1(1) by simp
qed simp_all



lemma innerValues_terminal:
  assumes "innerValues lo hi xs" and "lo < hi"
  shows "sorted (xs @ [hi])" and "count_list (xs @ [hi]) v \<le> 2" and "set (xs @ [hi]) \<subseteq> {lo..hi}"
proof -
  have x: "sorted xs" "set xs \<subseteq> {lo..hi}" "count_list xs hi \<le> 1" "\<And>v. count_list xs v \<le> 2"
    using assms(1) by (simp_all add: innerValues_def)
  show "sorted (xs @ [hi])" using x(1,2) by (fastforce simp: sorted_append)
  show "count_list (xs @ [hi]) v \<le> 2" using x(3) x(4)[of v] by auto
  show "set (xs @ [hi]) \<subseteq> {lo..hi}" using x(2) assms(2) by simp
qed

lemma readGraphSuper_fields:
  "breakpoints (readGraphSuper am g) = breakpoints g
   \<and> LAMBDA_LOW (readGraphSuper am g) = LAMBDA_LOW g
   \<and> LAMBDA_HIGH (readGraphSuper am g) = LAMBDA_HIGH g
   \<and> (useParametricCut g = 1 \<longrightarrow>
        (useParametricCut (readGraphSuper am g) = 1 \<longleftrightarrow> LAMBDA_LOW g \<noteq> LAMBDA_HIGH g))"
  by (simp add: readGraphSuper_def split: prod.splits)

lemma initializeParametricCut_lambda:
  "initializeParametricCut g = Inr (lo, hi) \<Longrightarrow>
     lambdaValue lo = LAMBDA_LOW g \<and> solved lo = 0
     \<and> (useParametricCut g = 1 \<longrightarrow>
          (\<exists>h. hi = Some h \<and> lambdaValue h = LAMBDA_HIGH g \<and> solved h = 0))"
  by (auto simp: initializeParametricCut_def split: sum.splits if_splits
        dest: initializeProblem_solved)





subsection \<open>The terminal breakpoint (C7)\<close>

lemma dropLog_simps:
  "dropLog None = None" "dropLog (Some (Inl e)) = Some (Inl e)"
  "dropLog (Some (Inr (r, as))) = Some (Inr r)"
  by (simp_all add: dropLog_def bindR_def)

lemma dropLog_Inr: "dropLog (Some (Inr x)) = Some (Inr (fst x))"
  by (cases x) (simp add: dropLog_simps)

lemma dropLog_bindR:
  "dropLog (bindR m f) = bindR m (\<lambda>x. dropLog (f x))"
  by (auto simp: dropLog_def bindR_def split: option.splits sum.splits)

lemma bindR_dropLog:
  "bindR (dropLog m) f = bindR m (\<lambda>(r, as). f r)"
  by (auto simp: dropLog_def bindR_def split: option.splits sum.splits)

lemma intersectCasesLog_dropLog:
  assumes "\<And>g l h. dropLog (recL g l h) = rec g l h"
  shows "dropLog (intersectCasesLog recL g low high) = intersectCases rec g low high"
  unfolding intersectCasesLog_def intersectCases_def assms[symmetric]
  by (simp add: dropLog_bindR bindR_dropLog dropLog_simps split_def del: double_ops
        cong: if_cong)

lemma parametricCutLog_dropLog:
  "dropLog (parametricCutLog ph n g low high) = parametricCut ph n g low high"
proof (induction n arbitrary: g low high)
  case 0
  then show ?case by (simp add: dropLog_simps)
next
  case (Suc n)
  have ic: "dropLog (intersectCasesLog (parametricCutLog ph n) g2 l h) =
            intersectCases (parametricCut ph n) g2 l h" for g2 l h
    by (rule intersectCasesLog_dropLog) (rule Suc.IH)
  show ?case
  proof (cases "solved low = 0 \<and> solved high = 0")
    case True
    have f: "(if solved low = 0 \<and> solved high = 0 then x else y) = x" for x y :: 'a
      using True by (rule if_P)
    show ?thesis
      unfolding parametricCutLog.simps parametricCut.simps Let_def ic[symmetric] f
      by (simp add: dropLog_bindR bindR_dropLog dropLog_simps dropLog_Inr split_def)
  next
    case False
    have f: "(if solved low = 0 \<and> solved high = 0 then x else y) = y" for x y :: 'a
      using False by (rule if_not_P)
    show ?thesis
      unfolding parametricCutLog.simps parametricCut.simps Let_def ic[symmetric] f
      by (simp add: dropLog_bindR bindR_dropLog dropLog_simps dropLog_Inr split_def)
  qed
qed

lemma caseAppends_simps:
  "caseAppends []" "caseAppends (as1 @ as2) \<longleftrightarrow> caseAppends as1 \<and> caseAppends as2"
  "caseAppends [(CaseAnalysis, b)]"
  by (auto simp: caseAppends_def)

lemma intersectCasesLog_inner:
  assumes REC: "\<And>g l h g' l' h' as. recL g l h = Some (Inr ((g', l', h'), as)) \<Longrightarrow>
                  solved l \<noteq> 0 \<or> solved h \<noteq> 0 \<Longrightarrow>
                  breakpoints g' = breakpoints g @ map snd as \<and> caseAppends as"
    and res: "intersectCasesLog recL g low high = Some (Inr ((g', low', high'), as))"
    and sl: "solved low \<noteq> 0" and sh: "solved high \<noteq> 0"
  shows "breakpoints g' = breakpoints g @ map snd as \<and> caseAppends as"
proof (cases "lambdaIntersectExists low high
         \<and> dadd (lambdaIntersect low high) TOL < lambdaValue high
         \<and> dsub (lambdaIntersect low high) TOL > lambdaValue low")
  case True
  define mid where "mid = lambdaIntersect low high"
  have eq: "bindR (Some (contractProblem (roundNegativeCapacity g) low mid
                 (optimalSourceSetIndicator low) (optimalSourceSetIndicator high)))
          (\<lambda>upperBoundIntersect.
        bindR (recL g low upperBoundIntersect) (\<lambda>((g3, low', upper'), as1).
        bindR (Some (contractProblem (roundNegativeCapacity g3) low' mid
                 (optimalSourceSetIndicator low') (optimalSourceSetIndicator high)))
          (\<lambda>lowerBoundIntersect.
        bindR (recL g3 lowerBoundIntersect high) (\<lambda>((g4, lower', high'), as2).
        Some (Inr ((g4, low', high'), as1 @ as2)))))) = Some (Inr ((g', low', high'), as))"
    using res True unfolding intersectCasesLog_def mid_def by (simp del: double_ops)
  from bindR_Inr[OF eq] obtain U where
    e1: "bindR (recL g low U) (\<lambda>((g3, low', upper'), as1).
        bindR (Some (contractProblem (roundNegativeCapacity g3) low' mid
                 (optimalSourceSetIndicator low') (optimalSourceSetIndicator high)))
          (\<lambda>lowerBoundIntersect.
        bindR (recL g3 lowerBoundIntersect high) (\<lambda>((g4, lower', high'), as2).
        Some (Inr ((g4, low', high'), as1 @ as2))))) = Some (Inr ((g', low', high'), as))"
    by auto
  from bindR_Inr[OF e1] obtain x1 where
    r1: "recL g low U = Some (Inr x1)"
    and e2: "(case x1 of ((g3, low', upper'), as1) \<Rightarrow>
        bindR (Some (contractProblem (roundNegativeCapacity g3) low' mid
                 (optimalSourceSetIndicator low') (optimalSourceSetIndicator high)))
          (\<lambda>lowerBoundIntersect.
        bindR (recL g3 lowerBoundIntersect high) (\<lambda>((g4, lower', high'), as2).
        Some (Inr ((g4, low', high'), as1 @ as2))))) = Some (Inr ((g', low', high'), as))"
    by auto
  obtain g3 low1 U' as1 where x1: "x1 = ((g3, low1, U'), as1)" by (cases x1) auto
  from bindR_Inr[OF e2[unfolded x1 prod.case]] obtain W where
    e3: "bindR (recL g3 W high) (\<lambda>((g4, lower', high'), as2).
        Some (Inr ((g4, low1, high'), as1 @ as2))) = Some (Inr ((g', low', high'), as))"
    by auto
  from bindR_Inr[OF e3] obtain x2 where
    r2: "recL g3 W high = Some (Inr x2)"
    and e4: "(case x2 of ((g4, lower', high'), as2) \<Rightarrow>
        Some (Inr ((g4, low1, high'), as1 @ as2))) = Some (Inr ((g', low', high'), as))"
    by auto
  obtain g4 W' high2 as2 where x2: "x2 = ((g4, W', high2), as2)" by (cases x2) auto
  have r: "g' = g4" "as = as1 @ as2" using e4 unfolding x2 by simp_all
  note i1 = REC[OF r1[unfolded x1]] and i2 = REC[OF r2[unfolded x2]]
  show ?thesis
    using i1 i2 sl sh unfolding r by (simp add: caseAppends_simps)
next
  case False
  then have "((g', low', high'), as) =
        ((addBreakpointG (lambdaValue high) (optimalSourceSetIndicator low) g, low, high),
         [(CaseAnalysis, \<lparr> bpLambdaValue = lambdaValue high,
              sourceSetIndicator = take (numNodesSuper g) (optimalSourceSetIndicator low) \<rparr>)])
      \<or> ((g', low', high'), as) =
        ((addBreakpointG (lambdaValue low) (optimalSourceSetIndicator low) g, low, high),
         [(CaseAnalysis, \<lparr> bpLambdaValue = lambdaValue low,
              sourceSetIndicator = take (numNodesSuper g) (optimalSourceSetIndicator low) \<rparr>)])
      \<or> ((g', low', high'), as) = ((g, low, high), [])"
    using res unfolding intersectCasesLog_def by (auto split: if_splits simp del: double_ops)
  then show ?thesis
    by (auto simp: addBreakpointG_def addBreakpoint_def caseAppends_simps)
qed

lemma parametricCutLog_appends:
  assumes "parametricCutLog ph n g low high = Some (Inr ((g', low', high'), as))"
  shows "breakpoints g' = breakpoints g @ map snd as
     \<and> (if solved low = 0 \<and> solved high = 0
         then \<exists>inner. caseAppends inner
                \<and> as = inner @ [(BaseLevel, terminalBreakpoint g' high')]
         else caseAppends as)"
  using assms
proof (induction n arbitrary: g low high g' low' high' as)
  case 0
  then show ?case by simp
next
  case (Suc n)
  have REC: "\<And>g l h g' l' h' as. parametricCutLog ph n g l h = Some (Inr ((g', l', h'), as)) \<Longrightarrow>
      solved l \<noteq> 0 \<or> solved h \<noteq> 0 \<Longrightarrow>
      breakpoints g' = breakpoints g @ map snd as \<and> caseAppends as"
    using Suc.IH by (metis (no_types, lifting))
  note p = Suc.prems(1)[unfolded parametricCutLog.simps Let_def]
  from bindR_Inr[OF p] obtain x1 where
    s1: "solveIfNeeded ph g low 0 = Some (Inr x1)"
    and p1: "(case x1 of (g1, low1) \<Rightarrow>
      bindR (solveIfNeeded ph g1 high 1) (\<lambda>(g2, high1).
      bindR (intersectCasesLog (parametricCutLog ph n) g2 low1 high1)
        (\<lambda>((g5, low5, high5), as).
        Some (Inr (if solved low = 0 \<and> solved high = 0
                   then ((addBreakpointG (lambdaValue high5) (optimalSourceSetIndicator high5) g5,
                          low5, high5),
                         as @ [(BaseLevel,
                                 \<lparr> bpLambdaValue = lambdaValue high5,
                                   sourceSetIndicator =
                                     take (numNodesSuper g5) (optimalSourceSetIndicator high5) \<rparr>)])
                   else ((g5, low5, high5), as)))))) = Some (Inr ((g', low', high'), as))"
    by auto
  obtain g1 low1 where x1: "x1 = (g1, low1)" by (cases x1) auto
  from bindR_Inr[OF p1[unfolded x1 prod.case]] obtain x2 where
    s2: "solveIfNeeded ph g1 high 1 = Some (Inr x2)"
    and p2: "(case x2 of (g2, high1) \<Rightarrow>
      bindR (intersectCasesLog (parametricCutLog ph n) g2 low1 high1)
        (\<lambda>((g5, low5, high5), as).
        Some (Inr (if solved low = 0 \<and> solved high = 0
                   then ((addBreakpointG (lambdaValue high5) (optimalSourceSetIndicator high5) g5,
                          low5, high5),
                         as @ [(BaseLevel,
                                 \<lparr> bpLambdaValue = lambdaValue high5,
                                   sourceSetIndicator =
                                     take (numNodesSuper g5) (optimalSourceSetIndicator high5) \<rparr>)])
                   else ((g5, low5, high5), as))))) = Some (Inr ((g', low', high'), as))"
    by auto
  obtain g2 high1 where x2: "x2 = (g2, high1)" by (cases x2) auto
  from bindR_Inr[OF p2[unfolded x2 prod.case]] obtain x3 where
    ic: "intersectCasesLog (parametricCutLog ph n) g2 low1 high1 = Some (Inr x3)"
    and p3: "(case x3 of ((g5, low5, high5), as) \<Rightarrow>
        Some (Inr (if solved low = 0 \<and> solved high = 0
                   then ((addBreakpointG (lambdaValue high5) (optimalSourceSetIndicator high5) g5,
                          low5, high5),
                         as @ [(BaseLevel,
                                 \<lparr> bpLambdaValue = lambdaValue high5,
                                   sourceSetIndicator =
                                     take (numNodesSuper g5) (optimalSourceSetIndicator high5) \<rparr>)])
                   else ((g5, low5, high5), as)))) = Some (Inr ((g', low', high'), as))"
    by auto
  obtain g5 low5 high5 as5 where x3: "x3 = ((g5, low5, high5), as5)" by (cases x3) auto
  note l1 = solveIfNeeded_lambda[OF s1[unfolded x1]]
  note l2 = solveIfNeeded_lambda[OF s2[unfolded x2]]
  have inner: "breakpoints g5 = breakpoints g2 @ map snd as5 \<and> caseAppends as5"
    using intersectCasesLog_inner[OF REC ic[unfolded x3]] l1 l2 by simp
  show ?case
  proof (cases "solved low = 0 \<and> solved high = 0")
    case True
    then have "g' = addBreakpointG (lambdaValue high5) (optimalSourceSetIndicator high5) g5"
      "high' = high5"
      "as = as5 @ [(BaseLevel, \<lparr> bpLambdaValue = lambdaValue high5,
                      sourceSetIndicator =
                        take (numNodesSuper g5) (optimalSourceSetIndicator high5) \<rparr>)]"
      using p3 unfolding x3 by auto
    then show ?thesis
      using inner l1 l2 True
      by (auto simp: addBreakpointG_def addBreakpoint_def terminalBreakpoint_def)
  next
    case False
    then have "g' = g5" "as = as5" using p3 unfolding x3 by auto
    then show ?thesis using inner l1 l2 False by auto
  qed
qed


lemma parametricCutLog_exists:
  assumes "parametricCut ph n g low high = Some (Inr r)"
  shows "\<exists>as. parametricCutLog ph n g low high = Some (Inr (r, as))"
proof -
  have "dropLog (parametricCutLog ph n g low high) = Some (Inr r)"
    using assms by (simp add: parametricCutLog_dropLog)
  then show ?thesis
    by (auto simp: dropLog_def bindR_def split: option.splits sum.splits)
qed

lemma parametricCutLog_result:
  assumes "parametricCutLog ph n g low high = Some (Inr (r, as))"
  shows "parametricCut ph n g low high = Some (Inr r)"
  using parametricCutLog_dropLog[of ph n g low high] assms by (simp add: dropLog_simps)

text \<open>
  C7. In the result of \<open>parametricCutLog\<close> the breakpoint list is the list at entry
  followed by the records of the log, and dropping the log gives the result of
  \<open>parametricCut\<close>; every result of \<open>parametricCut\<close> arises so. When both problems were
  unsolved at entry the log is the records of the case analysis and of the recursive calls
  below it, none of them appended at a base level, followed by one record appended at the
  base level, the terminal breakpoint; when one of the problems was solved at entry no
  record of the log was appended at a base level. In a run of \<open>hpf_solve\<close> on a range with
  \<open>lambda_low < lambda_high\<close> that returns, \<open>initializeParametricCut\<close> hands two unsolved
  problems to the one call of \<open>parametricCut\<close> that \<open>hpf_solve\<close> makes; the list that
  \<open>removeDuplicateBreakpoints\<close> receives is the log of that call: exactly one record of it
  was appended at a base level, by the outermost call, it is the last one, and it is the
  terminal breakpoint, with the lambda value \<open>lambda_high\<close>.
\<close>

theorem parametricCut_terminal_breakpoint:
  "(parametricCutLog ph n g low high = Some (Inr ((g', low', high'), as)) \<longrightarrow>
      parametricCut ph n g low high = Some (Inr (g', low', high'))
      \<and> breakpoints g' = breakpoints g @ map snd as
      \<and> (if solved low = 0 \<and> solved high = 0
          then \<exists>inner. (\<forall>e \<in> set inner. fst e = CaseAnalysis)
                 \<and> as = inner @ [(BaseLevel, terminalBreakpoint g' high')]
          else \<forall>e \<in> set as. fst e = CaseAnalysis))
   \<and> (parametricCut ph n g low high = Some (Inr r) \<longrightarrow>
        (\<exists>as. parametricCutLog ph n g low high = Some (Inr (r, as))))
   \<and> (hpf_solve ph depth numNodesIn numArcsIn sourceIn sinkIn am lr rnd = Some (Inr out)
        \<and> fst lr < snd lr \<longrightarrow>
        (\<exists>lowProblem highProblem g3 low3 high3 inner bps.
            initializeParametricCut (hpfGlobals numNodesIn numArcsIn sourceIn sinkIn am lr rnd)
              = Inr (lowProblem, Some highProblem)
          \<and> solved lowProblem = 0 \<and> solved highProblem = 0
          \<and> parametricCutLog ph depth (hpfGlobals numNodesIn numArcsIn sourceIn sinkIn am lr rnd)
                lowProblem highProblem
              = Some (Inr ((g3, low3, high3), inner @ [(BaseLevel, terminalBreakpoint g3 high3)]))
          \<and> (\<forall>e \<in> set inner. fst e = CaseAnalysis)
          \<and> breakpoints g3 = map snd inner @ [terminalBreakpoint g3 high3]
          \<and> lambdaValue high3 = snd lr
          \<and> removeDuplicateBreakpoints (breakpoints g3) = Inr bps
          \<and> out = prepareOutput (g3\<lparr>breakpoints := bps\<rparr>)))"
proof (intro conjI impI)
  assume a: "parametricCutLog ph n g low high = Some (Inr ((g', low', high'), as))"
  show "parametricCut ph n g low high = Some (Inr (g', low', high'))"
    using a by (rule parametricCutLog_result)
  show "breakpoints g' = breakpoints g @ map snd as"
    using parametricCutLog_appends[OF a] by simp
  show "if solved low = 0 \<and> solved high = 0
          then \<exists>inner. (\<forall>e \<in> set inner. fst e = CaseAnalysis)
                 \<and> as = inner @ [(BaseLevel, terminalBreakpoint g' high')]
          else \<forall>e \<in> set as. fst e = CaseAnalysis"
    using parametricCutLog_appends[OF a] unfolding caseAppends_def by (rule conjunct2)
next
  assume "parametricCut ph n g low high = Some (Inr r)"
  then show "\<exists>as. parametricCutLog ph n g low high = Some (Inr (r, as))"
    by (rule parametricCutLog_exists)
next
  assume a: "hpf_solve ph depth numNodesIn numArcsIn sourceIn sinkIn am lr rnd = Some (Inr out)
        \<and> fst lr < snd lr"
  then have run: "hpf_solve ph depth numNodesIn numArcsIn sourceIn sinkIn am lr rnd = Some (Inr out)"
    and lt: "fst lr < snd lr" by simp_all
  define g2 where "g2 = hpfGlobals numNodesIn numArcsIn sourceIn sinkIn am lr rnd"
  have g2: "breakpoints g2 = []" "LAMBDA_LOW g2 = fst lr" "LAMBDA_HIGH g2 = snd lr"
    "useParametricCut g2 = 1"
    using readGraphSuper_fields[of am "reset_globals\<lparr> numNodesSuper := uint_of_int numNodesIn,
          numArcsSuper := uint_of_int numArcsIn,
          engine := (engine reset_globals)\<lparr> source := uint_of_int sourceIn,
                                             sink := uint_of_int sinkIn \<rparr>,
          LAMBDA_LOW := fst lr, LAMBDA_HIGH := snd lr,
          roundNegativeCapacity := uint_of_int rnd \<rparr>"] lt
    by (simp_all add: g2_def hpfGlobals_def reset_globals_def)
  have H: "bindR (Some (initializeParametricCut g2)) (\<lambda>(lowProblem, highOpt).
        if useParametricCut g2 = 1 then
          bindR (parametricCut ph depth g2 lowProblem (the highOpt)) (\<lambda>(g3, low, high).
          bindR (Some (removeDuplicateBreakpoints (breakpoints g3))) (\<lambda>bps.
            Some (Inr (prepareOutput (g3\<lparr>breakpoints := bps\<rparr>)))))
        else
          (case solveProblem ph (numNodesSuper g2) (engine g2) lowProblem 0 of
             None \<Rightarrow> None
           | Some (e, low) \<Rightarrow>
               Some (Inr (prepareOutput
                 (addBreakpointG (lambdaValue low) (optimalSourceSetIndicator low)
                    (g2\<lparr>engine := e\<rparr>)))))) = Some (Inr out)"
    using run unfolding hpf_solve_def Let_def g2_def hpfGlobals_def .
  from bindR_Inr[OF H] obtain x where
    ini: "initializeParametricCut g2 = Inr x"
    and H1: "(case x of (lowProblem, highOpt) \<Rightarrow>
          bindR (parametricCut ph depth g2 lowProblem (the highOpt)) (\<lambda>(g3, low, high).
          bindR (Some (removeDuplicateBreakpoints (breakpoints g3))) (\<lambda>bps.
            Some (Inr (prepareOutput (g3\<lparr>breakpoints := bps\<rparr>)))))) = Some (Inr out)"
    using g2(4) by auto
  obtain lo hi where x: "x = (lo, hi)" by (cases x) auto
  note il = initializeParametricCut_lambda[OF ini[unfolded x]]
  obtain h where h: "hi = Some h" "lambdaValue h = snd lr" "solved h = 0"
    and l: "lambdaValue lo = fst lr" "solved lo = 0"
    using il g2 by auto
  from bindR_Inr[OF H1[unfolded x prod.case h(1) option.sel]] obtain y where
    pc: "parametricCut ph depth g2 lo h = Some (Inr y)"
    and H3: "(case y of (g3, low, high) \<Rightarrow>
          bindR (Some (removeDuplicateBreakpoints (breakpoints g3))) (\<lambda>bps.
            Some (Inr (prepareOutput (g3\<lparr>breakpoints := bps\<rparr>))))) = Some (Inr out)"
    by auto
  obtain g3 low3 high3 where y: "y = (g3, low3, high3)" by (cases y) auto
  from bindR_Inr[OF H3[unfolded y prod.case]] obtain bps where
    rd: "removeDuplicateBreakpoints (breakpoints g3) = Inr bps"
    and o: "out = prepareOutput (g3\<lparr>breakpoints := bps\<rparr>)"
    by auto
  from parametricCutLog_exists[OF pc[unfolded y]] obtain as where
    lg: "parametricCutLog ph depth g2 lo h = Some (Inr ((g3, low3, high3), as))" by blast
  from parametricCutLog_appends[OF lg] l(2) h(3) g2(1) obtain inner where
    i: "caseAppends inner" "as = inner @ [(BaseLevel, terminalBreakpoint g3 high3)]"
      "breakpoints g3 = map snd as"
    by auto
  have lam: "lambdaValue high3 = snd lr"
    using parametricCut_emits[OF pc[unfolded y]] lt l(1) h(2) by simp
  show "\<exists>lowProblem highProblem g3 low3 high3 inner bps.
            initializeParametricCut (hpfGlobals numNodesIn numArcsIn sourceIn sinkIn am lr rnd)
              = Inr (lowProblem, Some highProblem)
          \<and> solved lowProblem = 0 \<and> solved highProblem = 0
          \<and> parametricCutLog ph depth (hpfGlobals numNodesIn numArcsIn sourceIn sinkIn am lr rnd)
                lowProblem highProblem
              = Some (Inr ((g3, low3, high3), inner @ [(BaseLevel, terminalBreakpoint g3 high3)]))
          \<and> (\<forall>e \<in> set inner. fst e = CaseAnalysis)
          \<and> breakpoints g3 = map snd inner @ [terminalBreakpoint g3 high3]
          \<and> lambdaValue high3 = snd lr
          \<and> removeDuplicateBreakpoints (breakpoints g3) = Inr bps
          \<and> out = prepareOutput (g3\<lparr>breakpoints := bps\<rparr>)"
    using ini[unfolded x h(1)] l(2) h(3) lg[unfolded i(2)] i(1) i(3)[unfolded i(2)] lam rd o
    unfolding g2_def caseAppends_def by auto
qed


lemma line_log_left:
  "numNodesSuper g = 3 \<Longrightarrow> engine g = lineEngineHigh \<Longrightarrow>
   parametricCutLog (pseudoflowPhase1 2) (Suc 0) g lineLow (lineProblem 10) =
     Some (Inr ((addBreakpointG 10 [1, 0, 0] (g\<lparr>engine := lineEngineUpper\<rparr>), lineLow, lineUpper),
                [(CaseAnalysis, \<lparr> bpLambdaValue = 10, sourceSetIndicator = [1, 0, 0] \<rparr>)]))"
  by (simp add: line_step line_fields bindR_simps intersectCasesLog_def
        lambdaIntersectExists_def lambdaIntersect_def dabs_def TOL_def roundDouble_eval)

lemma line_log_right:
  "numNodesSuper g = 3 \<Longrightarrow> engine g = lineEngineUpper \<Longrightarrow>
   parametricCutLog (pseudoflowPhase1 2) (Suc 0) g (lineProblem 10) lineHigh =
     Some (Inr ((addBreakpointG 10 [1, 0, 0] (g\<lparr>engine := lineEngineLower\<rparr>), lineLower, lineHigh),
                [(CaseAnalysis, \<lparr> bpLambdaValue = 10, sourceSetIndicator = [1, 0, 0] \<rparr>)]))"
  by (simp add: line_step line_fields bindR_simps intersectCasesLog_def
        lambdaIntersectExists_def lambdaIntersect_def dabs_def TOL_def roundDouble_eval)

lemma line_log:
  "parametricCutLog (pseudoflowPhase1 2) 2 lineGlobals (lineProblem 0) (lineProblem 20) =
     Some (Inr ((lineGlobals\<lparr> engine := lineEngineLower,
                  breakpoints := [\<lparr> bpLambdaValue = 10, sourceSetIndicator = [1, 0, 0] \<rparr>,
                                  \<lparr> bpLambdaValue = 10, sourceSetIndicator = [1, 0, 0] \<rparr>,
                                  \<lparr> bpLambdaValue = 20, sourceSetIndicator = [1, 1, 0] \<rparr>] \<rparr>,
                 lineLow, lineHigh),
                [(CaseAnalysis, \<lparr> bpLambdaValue = 10, sourceSetIndicator = [1, 0, 0] \<rparr>),
                 (CaseAnalysis, \<lparr> bpLambdaValue = 10, sourceSetIndicator = [1, 0, 0] \<rparr>),
                 (BaseLevel, \<lparr> bpLambdaValue = 20, sourceSetIndicator = [1, 1, 0] \<rparr>)]))"
proof -
  let ?g2 = "lineGlobals\<lparr>engine := lineEngineHigh\<rparr>"
  have n: "numNodesSuper lineGlobals = 3" "roundNegativeCapacity lineGlobals = 0"
    "breakpoints lineGlobals = []"
    by (simp_all add: lineGlobals_def reset_globals_def)
  have c: "contractProblem 0 lineLow 10 [Suc 0, 0, 0] [Suc 0, Suc 0, 0] = Inr (lineProblem 10)"
    using line_contract_mid by simp
  have li: "lambdaIntersectExists lineLow lineHigh" "lambdaIntersect lineLow lineHigh = 10"
    by (simp_all add: lambdaIntersectExists_def lambdaIntersect_def line_fields dabs_def TOL_def
          roundDouble_eval)
  have cases: "intersectCasesLog (parametricCutLog (pseudoflowPhase1 2) (Suc 0)) ?g2 lineLow lineHigh =
      Some (Inr ((addBreakpointG 10 [1, 0, 0]
                   ((addBreakpointG 10 [1, 0, 0] (?g2\<lparr>engine := lineEngineUpper\<rparr>))
                      \<lparr>engine := lineEngineLower\<rparr>),
                 lineLow, lineHigh),
                [(CaseAnalysis, \<lparr> bpLambdaValue = 10, sourceSetIndicator = [1, 0, 0] \<rparr>),
                 (CaseAnalysis, \<lparr> bpLambdaValue = 10, sourceSetIndicator = [1, 0, 0] \<rparr>)]))"
    unfolding intersectCasesLog_def
    by (simp add: li line_fields n TOL_def roundDouble_eval c bindR_simps line_log_left
          line_log_right addBreakpointG_def del: parametricCutLog.simps)
  have two: "parametricCutLog ph 2 = parametricCutLog ph (Suc (Suc 0))" for ph
    by (simp only: numeral_2_eq_2)
  show ?thesis
    apply (subst two)
    apply (subst parametricCutLog.simps(2))
    apply (simp add: line_step n line_fields bindR_simps cases addBreakpointG_def addBreakpoint_def
          del: parametricCutLog.simps)
    done
qed

lemma line_globals:
  "hpfGlobals 3 2 0 2 [0, 1, 0, 1, 1, 2, 10, 0] (0, 20) 0 = lineGlobals"
  unfolding hpfGlobals_def by (rule line_read)

theorem parametricCut_terminal_breakpoint_witness:
  "hpf_solve (pseudoflowPhase1 2) 2 3 2 0 2 [0, 1, 0, 1, 1, 2, 10, 0] (0, 20) 0 =
     Some (Inr \<lparr> numBreakpoints = 2, cuts = [1, 0, 0, 1, 1, 0], breakpointsOut = [10, 20],
                 stats = [0, 0, 0, 0, 0] \<rparr>)
   \<and> fst (0 :: real, 20 :: real) < snd (0 :: real, 20 :: real)
   \<and> hpfGlobals 3 2 0 2 [0, 1, 0, 1, 1, 2, 10, 0] (0, 20) 0 = lineGlobals
   \<and> initializeParametricCut lineGlobals = Inr (lineProblem 0, Some (lineProblem 20))
   \<and> solved (lineProblem 0) = 0 \<and> solved (lineProblem 20) = 0
   \<and> parametricCutLog (pseudoflowPhase1 2) 2 lineGlobals (lineProblem 0) (lineProblem 20) =
       Some (Inr ((lineGlobals\<lparr> engine := lineEngineLower,
                    breakpoints := [\<lparr> bpLambdaValue = 10, sourceSetIndicator = [1, 0, 0] \<rparr>,
                                    \<lparr> bpLambdaValue = 10, sourceSetIndicator = [1, 0, 0] \<rparr>,
                                    \<lparr> bpLambdaValue = 20, sourceSetIndicator = [1, 1, 0] \<rparr>] \<rparr>,
                   lineLow, lineHigh),
                  [(CaseAnalysis, \<lparr> bpLambdaValue = 10, sourceSetIndicator = [1, 0, 0] \<rparr>),
                   (CaseAnalysis, \<lparr> bpLambdaValue = 10, sourceSetIndicator = [1, 0, 0] \<rparr>)]
                  @ [(BaseLevel,
                      terminalBreakpoint
                        (lineGlobals\<lparr> engine := lineEngineLower,
                           breakpoints := [\<lparr> bpLambdaValue = 10, sourceSetIndicator = [1, 0, 0] \<rparr>,
                                           \<lparr> bpLambdaValue = 10, sourceSetIndicator = [1, 0, 0] \<rparr>,
                                           \<lparr> bpLambdaValue = 20, sourceSetIndicator = [1, 1, 0] \<rparr>] \<rparr>)
                        lineHigh)]))
   \<and> terminalBreakpoint
        (lineGlobals\<lparr> engine := lineEngineLower,
           breakpoints := [\<lparr> bpLambdaValue = 10, sourceSetIndicator = [1, 0, 0] \<rparr>,
                           \<lparr> bpLambdaValue = 10, sourceSetIndicator = [1, 0, 0] \<rparr>,
                           \<lparr> bpLambdaValue = 20, sourceSetIndicator = [1, 1, 0] \<rparr>] \<rparr>)
        lineHigh = \<lparr> bpLambdaValue = 20, sourceSetIndicator = [1, 1, 0] \<rparr>
   \<and> parametricCut (pseudoflowPhase1 2) 2 lineGlobals (lineProblem 0) (lineProblem 20) =
       Some (Inr (lineGlobals\<lparr> engine := lineEngineLower,
                    breakpoints := [\<lparr> bpLambdaValue = 10, sourceSetIndicator = [1, 0, 0] \<rparr>,
                                    \<lparr> bpLambdaValue = 10, sourceSetIndicator = [1, 0, 0] \<rparr>,
                                    \<lparr> bpLambdaValue = 20, sourceSetIndicator = [1, 1, 0] \<rparr>] \<rparr>,
                  lineLow, lineHigh))"
proof -
  let ?g = "lineGlobals\<lparr> engine := lineEngineLower,
                    breakpoints := [\<lparr> bpLambdaValue = 10, sourceSetIndicator = [1, 0, 0] \<rparr>,
                                    \<lparr> bpLambdaValue = 10, sourceSetIndicator = [1, 0, 0] \<rparr>,
                                    \<lparr> bpLambdaValue = 20, sourceSetIndicator = [1, 1, 0] \<rparr>] \<rparr>"
  let ?as = "[(CaseAnalysis, \<lparr> bpLambdaValue = 10, sourceSetIndicator = [1, 0, 0] \<rparr>),
              (CaseAnalysis, \<lparr> bpLambdaValue = 10, sourceSetIndicator = [1, 0, 0] \<rparr>),
              (BaseLevel, \<lparr> bpLambdaValue = 20, sourceSetIndicator = [1, 1, 0] \<rparr>)]"
  have t: "terminalBreakpoint ?g lineHigh = \<lparr> bpLambdaValue = 20, sourceSetIndicator = [1, 1, 0] \<rparr>"
    by (simp add: terminalBreakpoint_def line_fields lineGlobals_def reset_globals_def)
  show ?thesis
    using parametricCut_terminal_breakpoint[of "pseudoflowPhase1 2" 2 lineGlobals
            "lineProblem 0" "lineProblem 20" ?g lineLow lineHigh ?as
            "(?g, lineLow, lineHigh)" 2 3 2 0 2 "[0, 1, 0, 1, 1, 2, 10, 0]" "(0, 20)" 0
            "\<lparr> numBreakpoints = 2, cuts = [1, 0, 0, 1, 1, 0], breakpointsOut = [10, 20],
                 stats = [0, 0, 0, 0, 0] \<rparr>"]
          line_run line_log line_globals line_init t
    by (simp add: line_fields)
qed

subsection \<open>The pass on the list built by parametricCut (C9)\<close>

lemma intersectCases_leaf:
  assumes res: "intersectCases rec g low high = Some (Inr r)"
    and ge: "lambdaValue high \<le> lambdaValue low"
  shows "\<exists>es. breakpoints (fst r) = breakpoints g @ es \<and> length es \<le> 1"
proof -
  have "\<not> (lambdaIntersectExists low high
         \<and> dadd (lambdaIntersect low high) TOL < lambdaValue high
         \<and> dsub (lambdaIntersect low high) TOL > lambdaValue low)"
    using ge lambdaIntersect_inside[of low high "lambdaValue high" "lambdaValue low"]
    by (auto simp del: double_ops)
  then have "r = (addBreakpointG (lambdaValue high) (optimalSourceSetIndicator low) g, low, high)
      \<or> r = (addBreakpointG (lambdaValue low) (optimalSourceSetIndicator low) g, low, high)
      \<or> r = (g, low, high)"
    using res unfolding intersectCases_def by (auto split: if_splits)
  then show ?thesis
    by (auto simp: addBreakpointG_def addBreakpoint_def)
qed

lemma parametricCut_leaf:
  assumes run: "parametricCut ph n g low high = Some (Inr (g', low', high'))"
    and ge: "lambdaValue high \<le> lambdaValue low"
  shows "\<exists>es. breakpoints g' = breakpoints g @ es \<and> length es \<le> 2"
proof (cases n)
  case 0
  then show ?thesis using run by simp
next
  case (Suc k)
  note p = run[unfolded Suc parametricCut.simps Let_def]
  from bindR_Inr[OF p] obtain x1 where
    s1: "solveIfNeeded ph g low 0 = Some (Inr x1)"
    and p1: "(case x1 of (g1, low1) \<Rightarrow>
      bindR (solveIfNeeded ph g1 high 1) (\<lambda>(g2, high1).
      bindR (intersectCases (parametricCut ph k) g2 low1 high1) (\<lambda>(g5, low5, high5).
        Some (Inr (if solved low = 0 \<and> solved high = 0
                   then addBreakpointG (lambdaValue high5) (optimalSourceSetIndicator high5) g5
                   else g5,
                   low5, high5))))) = Some (Inr (g', low', high'))"
    by auto
  obtain g1 low1 where x1: "x1 = (g1, low1)" by (cases x1) auto
  from bindR_Inr[OF p1[unfolded x1 prod.case]] obtain x2 where
    s2: "solveIfNeeded ph g1 high 1 = Some (Inr x2)"
    and p2: "(case x2 of (g2, high1) \<Rightarrow>
      bindR (intersectCases (parametricCut ph k) g2 low1 high1) (\<lambda>(g5, low5, high5).
        Some (Inr (if solved low = 0 \<and> solved high = 0
                   then addBreakpointG (lambdaValue high5) (optimalSourceSetIndicator high5) g5
                   else g5,
                   low5, high5)))) = Some (Inr (g', low', high'))"
    by auto
  obtain g2 high1 where x2: "x2 = (g2, high1)" by (cases x2) auto
  from bindR_Inr[OF p2[unfolded x2 prod.case]] obtain x3 where
    ic: "intersectCases (parametricCut ph k) g2 low1 high1 = Some (Inr x3)"
    and p3: "(case x3 of (g5, low5, high5) \<Rightarrow>
        Some (Inr (if solved low = 0 \<and> solved high = 0
                   then addBreakpointG (lambdaValue high5) (optimalSourceSetIndicator high5) g5
                   else g5,
                   low5, high5))) = Some (Inr (g', low', high'))"
    by auto
  obtain g5 low5 high5 where x3: "x3 = (g5, low5, high5)" by (cases x3) auto
  note l1 = solveIfNeeded_lambda[OF s1[unfolded x1]]
  note l2 = solveIfNeeded_lambda[OF s2[unfolded x2]]
  have "lambdaValue high1 \<le> lambdaValue low1" using l1 l2 ge by simp
  from intersectCases_leaf[OF ic this] obtain es where
    es: "breakpoints g5 = breakpoints g @ es" "length es \<le> 1"
    using l1 l2 x3 by auto
  show ?thesis
    using p3 es unfolding x3 prod.case
    by (auto simp: addBreakpointG_def addBreakpoint_def split: if_splits)
qed

lemma count_list_le_length: "count_list xs v \<le> length xs"
  by (induction xs) auto

text \<open>
  C9. \<open>removeDuplicateBreakpoints\<close> is called in one place, by \<open>hpf_solve\<close> on the list that
  the outermost call of \<open>parametricCut\<close> has built from the empty list and the two problems
  of \<open>initializeParametricCut\<close>. Whatever the engine computes and whatever the lambda
  range is, that list holds no lambda value three times in a row. So on it the single pass
  returns exactly the first record of every run of equal lambda values, and in its result
  no two consecutive records have equal lambda values.
\<close>

theorem removeDuplicateBreakpoints_keeps_first:
  assumes init: "initializeParametricCut g = Inr (lowProblem, Some highProblem)"
    and empty: "breakpoints g = []"
    and run: "parametricCut ph depth g lowProblem highProblem = Some (Inr (g', low, high))"
  shows "removeDuplicateBreakpoints (breakpoints g') = Inr (keepFirstOfRuns (breakpoints g'))
         \<and> distinct_adj (map bpLambdaValue (keepFirstOfRuns (breakpoints g')))"
proof -
  have s: "solved lowProblem = 0" "solved highProblem = 0"
    using init
    by (auto simp: initializeParametricCut_def split: sum.splits if_splits
          dest: initializeProblem_solved)
  have ne: "breakpoints g' \<noteq> []"
    using parametricCut_base_nonempty[OF run s] .
  have c: "count_list (map bpLambdaValue (breakpoints g')) v \<le> 2" for v
  proof (cases "lambdaValue lowProblem < lambdaValue highProblem")
    case True
    from parametricCut_emits[OF run True] s empty obtain es ts where
      e: "breakpoints g' = es @ ts"
         "innerValues (lambdaValue lowProblem) (lambdaValue highProblem) (map bpLambdaValue es)"
         "map bpLambdaValue ts = [lambdaValue highProblem]"
      by auto
    show ?thesis
      using innerValues_terminal(2)[OF e(2) True, of v] e(1,3) by simp
  next
    case False
    then have "lambdaValue highProblem \<le> lambdaValue lowProblem" by simp
    from parametricCut_leaf[OF run this] empty
    have "length (breakpoints g') \<le> 2" by auto
    then show ?thesis
      using count_list_le_length[of "map bpLambdaValue (breakpoints g')" v] by simp
  qed
  have "noTripleRun (breakpoints g')" using c by (rule noTripleRun_of_count)
  then show ?thesis
    using ne
    by (cases "breakpoints g'") (simp_all add: removeDuplicateBreakpoints_def dedupLoop_keepFirst
        keepFirstOfRuns_lambda)
qed

theorem removeDuplicateBreakpoints_keeps_first_witness:
  "initializeParametricCut lineGlobals = Inr (lineProblem 0, Some (lineProblem 20))
   \<and> breakpoints lineGlobals = []
   \<and> parametricCut (pseudoflowPhase1 2) 2 lineGlobals (lineProblem 0) (lineProblem 20) =
       Some (Inr (lineGlobals\<lparr> engine := lineEngineLower,
                    breakpoints := [\<lparr> bpLambdaValue = 10, sourceSetIndicator = [1, 0, 0] \<rparr>,
                                    \<lparr> bpLambdaValue = 10, sourceSetIndicator = [1, 0, 0] \<rparr>,
                                    \<lparr> bpLambdaValue = 20, sourceSetIndicator = [1, 1, 0] \<rparr>] \<rparr>,
                  lineLow, lineHigh))
   \<and> removeDuplicateBreakpoints
         [\<lparr> bpLambdaValue = 10, sourceSetIndicator = [1, 0, 0] \<rparr>,
          \<lparr> bpLambdaValue = 10, sourceSetIndicator = [1, 0, 0] \<rparr>,
          \<lparr> bpLambdaValue = 20, sourceSetIndicator = [1, 1, 0] \<rparr>]
       = Inr [\<lparr> bpLambdaValue = 10, sourceSetIndicator = [1, 0, 0] \<rparr>,
              \<lparr> bpLambdaValue = 20, sourceSetIndicator = [1, 1, 0] \<rparr>]
   \<and> distinct_adj [10 :: real, 20]"
proof -
  have n: "breakpoints lineGlobals = []"
    by (simp add: lineGlobals_def reset_globals_def)
  show ?thesis
    using removeDuplicateBreakpoints_keeps_first[of lineGlobals "lineProblem 0" "lineProblem 20"
            "pseudoflowPhase1 2" 2
            "lineGlobals\<lparr> engine := lineEngineLower,
               breakpoints := [\<lparr> bpLambdaValue = 10, sourceSetIndicator = [1, 0, 0] \<rparr>,
                               \<lparr> bpLambdaValue = 10, sourceSetIndicator = [1, 0, 0] \<rparr>,
                               \<lparr> bpLambdaValue = 20, sourceSetIndicator = [1, 1, 0] \<rparr>] \<rparr>"
            lineLow lineHigh]
          line_init line_cut n
    by simp
qed

end
